theory Spec2Isabelle
  imports Main
begin

section \<open>Text\<close>

text \<open>
  The runner works on JavaScript strings. A string is modelled as a \<^typ>\<open>string\<close>, one
  \<^typ>\<open>char\<close> per code unit, which covers the code units below 256. Of these,
  \<^verbatim>\<open>String.prototype.trim\<close> removes TAB, LF, VT, FF, CR, SPACE and NBSP.

  The child's output arrives as \<^verbatim>\<open>Buffer\<close> chunks. A chunk is a list of bytes, written
  as a \<^typ>\<open>string\<close> too, one \<^typ>\<open>char\<close> per byte; \<^verbatim>\<open>data.toString()\<close> turns it
  into text.
\<close>

definition is_space :: "char \<Rightarrow> bool" where
  "is_space c = (c \<in> set [CHR 0x09, CHR 0x0A, CHR 0x0B, CHR 0x0C, CHR 0x0D, CHR 0x20, CHR 0xA0])"

definition trim :: "string \<Rightarrow> string" where
  "trim s = rev (dropWhile is_space (rev (dropWhile is_space s)))"

text \<open>\<^verbatim>\<open>s.split("\n")\<close>: the pieces between the line feeds; never an empty array.\<close>

fun split_newline :: "string \<Rightarrow> string list" where
  "split_newline [] = [[]]"
| "split_newline (c # cs) =
     (if c = CHR 0x0A then [] # split_newline cs
      else (case split_newline cs of
              [] \<Rightarrow> [[c]]
            | l # ls \<Rightarrow> (c # l) # ls))"

text \<open>\<^verbatim>\<open>parts.join(sep)\<close> on strings.\<close>

fun join :: "string \<Rightarrow> string list \<Rightarrow> string" where
  "join sep [] = []"
| "join sep [x] = x"
| "join sep (x # y # ys) = x @ sep @ join sep (y # ys)"

section \<open>Values parsed from the event stream\<close>

text \<open>
  What \<^verbatim>\<open>JSON.parse\<close> returns. A number is carried as the text that JavaScript's
  number-to-string conversion gives for it (\<open>''0''\<close> for both zeros), which is all the
  runner can observe of it: its truthiness, its identity and its rendering.
  An object is the list of its own properties, each key once.
\<close>

datatype json =
    JNull
  | JBool bool
  | JNum string
  | JStr string
  | JArr "json list"
  | JObj "(string \<times> json) list"

text \<open>
  The exceptions of the model: a \<^verbatim>\<open>TypeError\<close> of the language, an \<^verbatim>\<open>Error\<close> with its
  message, and an error of a file operation, named by the operation.
\<close>

datatype error = TypeError | Error string | SystemError string

text \<open>
  \<^verbatim>\<open>spawn\<close> returns the handle of a running child, or of a child that could not be
  started (an \<^verbatim>\<open>error\<close> event follows), or throws at once on arguments it refuses.
\<close>

datatype spawn_result = Spawned | SpawnFailed | SpawnThrows error

text \<open>
  What the runner calls and does not define is a parameter of the model:
  \<^verbatim>\<open>JSON.parse\<close> (\<open>None\<close> when it throws), \<^verbatim>\<open>JSON.stringify\<close>,
  \<^verbatim>\<open>Buffer.prototype.toString\<close> (the bytes of one chunk decoded as UTF-8), \<^verbatim>\<open>spawn\<close> on
  its arguments and working directory, the directory \<^verbatim>\<open>fs.mkdtempSync\<close> makes or the
  error it throws, and whether the system lets the prompt file be written, be unlinked,
  and its directory be removed.
\<close>

record env =
  JSON_parse :: "string \<Rightarrow> json option"
  JSON_stringify :: "json \<Rightarrow> string"
  toString :: "string \<Rightarrow> string"
  spawn :: "string list \<Rightarrow> string \<Rightarrow> spawn_result"
  mkdtempSync :: "error + string"
  write_ok :: bool
  unlink_ok :: bool
  rmdir_ok :: bool

text \<open>Truthiness of a value, as tested by \<^verbatim>\<open>!v\<close>, \<^verbatim>\<open>if (v)\<close> and \<^verbatim>\<open>v ? a : b\<close>.\<close>

fun truthy :: "json \<Rightarrow> bool" where
  "truthy JNull = False"
| "truthy (JBool b) = b"
| "truthy (JNum r) = (r \<noteq> ''0'')"
| "truthy (JStr s) = (s \<noteq> [])"
| "truthy (JArr xs) = True"
| "truthy (JObj kvs) = True"

text \<open>\<^verbatim>\<open>typeof v === "object"\<close>; \<^verbatim>\<open>typeof null\<close> is \<^verbatim>\<open>"object"\<close> too.\<close>

fun typeof_object :: "json \<Rightarrow> bool" where
  "typeof_object JNull = True"
| "typeof_object (JArr xs) = True"
| "typeof_object (JObj kvs) = True"
| "typeof_object v = False"

text \<open>
  Reading a property \<^verbatim>\<open>v.k\<close> of a value other than \<^verbatim>\<open>null\<close>; \<open>None\<close> is
  \<^verbatim>\<open>undefined\<close>. None of the names the runner reads (\<^verbatim>\<open>type\<close>, \<^verbatim>\<open>message\<close>,
  \<^verbatim>\<open>role\<close>, \<^verbatim>\<open>content\<close>, \<^verbatim>\<open>id\<close>, \<^verbatim>\<open>name\<close>, \<^verbatim>\<open>arguments\<close>, \<^verbatim>\<open>text\<close>,
  \<^verbatim>\<open>stopReason\<close>, \<^verbatim>\<open>errorMessage\<close>, \<^verbatim>\<open>model\<close>) is inherited by an array, a string,
  a number, a boolean or a plain object, so only an object's own property answers.
\<close>

fun get_prop :: "json \<Rightarrow> string \<Rightarrow> json option" where
  "get_prop (JObj kvs) k = map_of kvs k"
| "get_prop v k = None"

text \<open>
  The string conversion of a template literal and of \<^verbatim>\<open>Array.prototype.join\<close>.
  An array joins its elements with commas, \<^verbatim>\<open>null\<close> elements as the empty string;
  a plain object gives \<^verbatim>\<open>[object Object]\<close>, unless an own \<^verbatim>\<open>toString\<close> property,
  which parsed data cannot make callable, hides the inherited method: then the
  conversion throws a TypeError.
\<close>

fun to_String :: "json \<Rightarrow> error + string"
  and element_strings :: "json list \<Rightarrow> error + string list" where
  "to_String JNull = Inr ''null''"
| "to_String (JBool b) = Inr (if b then ''true'' else ''false'')"
| "to_String (JNum r) = Inr r"
| "to_String (JStr s) = Inr s"
| "to_String (JArr xs) =
     (case element_strings xs of Inl e \<Rightarrow> Inl e | Inr ss \<Rightarrow> Inr (join '','' ss))"
| "to_String (JObj kvs) =
     (if map_of kvs ''toString'' \<noteq> None then Inl TypeError else Inr ''[object Object]'')"
| "element_strings [] = Inr []"
| "element_strings (x # xs) =
     (case (if x = JNull then Inr [] else to_String x) of
        Inl e \<Rightarrow> Inl e
      | Inr s \<Rightarrow> (case element_strings xs of Inl e \<Rightarrow> Inl e | Inr ss \<Rightarrow> Inr (s # ss)))"

text \<open>An element of an array being joined: \<^verbatim>\<open>undefined\<close> and \<^verbatim>\<open>null\<close> give the empty string.\<close>

definition join_element :: "json option \<Rightarrow> error + string" where
  "join_element v =
     (case v of None \<Rightarrow> Inr [] | Some JNull \<Rightarrow> Inr [] | Some x \<Rightarrow> to_String x)"

fun join_elements :: "json option list \<Rightarrow> error + string list" where
  "join_elements [] = Inr []"
| "join_elements (v # vs) =
     (case join_element v of
        Inl e \<Rightarrow> Inl e
      | Inr s \<Rightarrow> (case join_elements vs of Inl e \<Rightarrow> Inl e | Inr ss \<Rightarrow> Inr (s # ss)))"

text \<open>\<^verbatim>\<open>`${v}`\<close> for a possibly undefined value.\<close>

definition template_String :: "json option \<Rightarrow> error + string" where
  "template_String v = (case v of None \<Rightarrow> Inr ''undefined'' | Some x \<Rightarrow> to_String x)"

section \<open>The line framer\<close>

text \<open>
  The body of the \<^verbatim>\<open>proc.stdout.on("data", ...)\<close> handler up to the loop:
  \<^verbatim>\<open>buffer += data.toString(); const lines = buffer.split("\n"); buffer = lines.pop() ?? "";\<close>
  The chunk is decoded on its own: no decoder state is carried from one chunk to the
  next. It returns the complete lines, in order, and the new buffer.
\<close>

definition feed :: "env \<Rightarrow> string \<Rightarrow> string \<Rightarrow> string list \<times> string" where
  "feed env buffer data =
     (let lines = split_newline (buffer @ toString env data)
      in (butlast lines, if lines = [] then [] else last lines))"

text \<open>Feeding the chunks one after the other, collecting the lines handed on.\<close>

fun feed_all :: "env \<Rightarrow> string \<Rightarrow> string list \<Rightarrow> string list \<times> string" where
  "feed_all env buffer [] = ([], buffer)"
| "feed_all env buffer (data # rest) =
     (case feed env buffer data of
        (lines, buffer') \<Rightarrow>
          (case feed_all env buffer' rest of
             (later, final) \<Rightarrow> (lines @ later, final)))"

text \<open>
  The flush of the \<^verbatim>\<open>close\<close> handler: \<^verbatim>\<open>if (buffer.trim()) processLine(buffer)\<close>.
\<close>

definition flush :: "string \<Rightarrow> string option" where
  "flush buffer = (if trim buffer \<noteq> [] then Some buffer else None)"

section \<open>The runner's data\<close>

record SubagentToolCall =
  call_id :: "json option"
  call_name :: "json option"
  call_arguments :: json

text \<open>The argument of \<^verbatim>\<open>options.onProgress\<close>.\<close>

record progress_state =
  prog_text :: string
  prog_toolCalls :: "SubagentToolCall list"
  prog_model :: "json option"
  prog_stopReason :: "json option"

record RunSubagentResult =
  res_exitCode :: int
  res_stderr :: string
  res_messages :: "json list"
  res_finalText :: string
  res_toolCalls :: "SubagentToolCall list"
  res_stopReason :: "json option"
  res_errorMessage :: "json option"
  res_model :: "json option"

datatype signal = SIGTERM | SIGKILL

text \<open>
  The variables of one \<^verbatim>\<open>runSubagent\<close> call that its handlers share, followed by
  what the handlers do to the world: the calls of \<^verbatim>\<open>options.onProgress\<close>, the value
  the promise was resolved with, the child process (\<open>proc_alive\<close>: it runs, so a signal
  can be delivered; \<open>proc_killed\<close>: Node's \<^verbatim>\<open>proc.killed\<close>; \<open>signals\<close>: the signals
  delivered to it), the pending \<^verbatim>\<open>setTimeout\<close> with its delay in milliseconds, and
  whether the \<^verbatim>\<open>abort\<close> listener is registered.
\<close>

record run_state =
  messages :: "json list"
  toolCalls :: "SubagentToolCall list"
  seenToolCalls :: "json set"
  stderr :: string
  finalText :: string
  stopReason :: "json option"
  errorMessage :: "json option"
  model :: "json option"
  aborted :: bool
  settled :: bool
  buffer :: string
  progress :: "progress_state list"
  promise :: "int option"
  proc_alive :: bool
  proc_killed :: bool
  signals :: "signal list"
  timeout :: "nat option"
  abort_listener :: bool

section \<open>Reading a message\<close>

text \<open>
  \<^verbatim>\<open>for (const part of message.content)\<close>: an array gives its elements and a string
  its characters; anything else is not iterable.
\<close>

definition iterate :: "json option \<Rightarrow> error + json list" where
  "iterate v =
     (case v of
        Some (JArr xs) \<Rightarrow> Inr xs
      | Some (JStr s) \<Rightarrow> Inr (map (\<lambda>c. JStr [c]) s)
      | _ \<Rightarrow> Inl TypeError)"

definition make_call :: "json \<Rightarrow> SubagentToolCall" where
  "make_call part =
     \<lparr> call_id = get_prop part ''id'',
       call_name = get_prop part ''name'',
       call_arguments =
         (case get_prop part ''arguments'' of
            Some a \<Rightarrow> if typeof_object a \<and> a \<noteq> JNull then a else JObj []
          | None \<Rightarrow> JObj []) \<rparr>"

text \<open>The loop of \<^verbatim>\<open>extractAssistantToolCalls\<close>; reading \<^verbatim>\<open>part.type\<close> of \<^verbatim>\<open>null\<close> throws.\<close>

fun collect_calls :: "json list \<Rightarrow> error + SubagentToolCall list" where
  "collect_calls [] = Inr []"
| "collect_calls (part # parts) =
     (if part = JNull then Inl TypeError
      else if get_prop part ''type'' \<noteq> Some (JStr ''toolCall'') then collect_calls parts
      else (case collect_calls parts of
              Inl e \<Rightarrow> Inl e
            | Inr calls \<Rightarrow> Inr (make_call part # calls)))"

definition extractAssistantToolCalls :: "json \<Rightarrow> error + SubagentToolCall list" where
  "extractAssistantToolCalls message =
     (if get_prop message ''role'' \<noteq> Some (JStr ''assistant'') then Inr []
      else (case iterate (get_prop message ''content'') of
              Inl e \<Rightarrow> Inl e
            | Inr parts \<Rightarrow> collect_calls parts))"

text \<open>
  \<^verbatim>\<open>extractAssistantText\<close>: only an array has \<^verbatim>\<open>filter\<close>; the callback reads
  \<^verbatim>\<open>part.type\<close> of every element.
\<close>

definition extractAssistantText :: "json \<Rightarrow> error + string" where
  "extractAssistantText message =
     (if get_prop message ''role'' \<noteq> Some (JStr ''assistant'') then Inr []
      else (case get_prop message ''content'' of
              Some (JArr parts) \<Rightarrow>
                (if JNull \<in> set parts then Inl TypeError
                 else (case join_elements
                              (map (\<lambda>part. get_prop part ''text'')
                                 (filter (\<lambda>part. get_prop part ''type'' = Some (JStr ''text'')) parts)) of
                         Inl e \<Rightarrow> Inl e
                       | Inr texts \<Rightarrow> Inr (trim (join [CHR 0x0A] texts))))
            | _ \<Rightarrow> Inl TypeError))"

section \<open>The reducer\<close>

text \<open>
  \<^verbatim>\<open>emitProgress\<close>: the call of \<^verbatim>\<open>options.onProgress\<close>, recorded with its argument
  (\<^verbatim>\<open>[...toolCalls]\<close> is a copy).
\<close>

definition emitProgress :: "run_state \<Rightarrow> run_state" where
  "emitProgress s =
     s\<lparr>progress := progress s @
          [\<lparr> prog_text = finalText s, prog_toolCalls = toolCalls s,
             prog_model = model s, prog_stopReason = stopReason s \<rparr>]\<rparr>"

text \<open>
  \<^verbatim>\<open>seenToolCalls.has(key)\<close>. A \<^verbatim>\<open>Set\<close> compares strings, numbers and booleans by value
  and an object or an array by reference; a key taken from a line just parsed is a fresh
  object, which no earlier \<^verbatim>\<open>add\<close> can have stored.
\<close>

definition seen_has :: "json set \<Rightarrow> json \<Rightarrow> bool" where
  "seen_has seen key =
     (case key of JArr xs \<Rightarrow> False | JObj kvs \<Rightarrow> False | _ \<Rightarrow> key \<in> seen)"

text \<open>\<^verbatim>\<open>`${call.name}:${JSON.stringify(call.arguments)}`\<close>\<close>

definition composite_key :: "env \<Rightarrow> SubagentToolCall \<Rightarrow> error + json" where
  "composite_key env call =
     (case template_String (call_name call) of
        Inl e \<Rightarrow> Inl e
      | Inr n \<Rightarrow> Inr (JStr (n @ '':'' @ JSON_stringify env (call_arguments call))))"

text \<open>\<^verbatim>\<open>call.id ? call.id : `${call.name}:${JSON.stringify(call.arguments)}`\<close>\<close>

definition dedup_key :: "env \<Rightarrow> SubagentToolCall \<Rightarrow> error + json" where
  "dedup_key env call =
     (case call_id call of
        Some i \<Rightarrow> if truthy i then Inr i else composite_key env call
      | None \<Rightarrow> composite_key env call)"

text \<open>
  The loop over \<^verbatim>\<open>messageToolCalls\<close>, with the flag \<^verbatim>\<open>changed\<close>. A conversion that
  throws leaves the loop with what the earlier rounds stored.
\<close>

fun record_calls ::
  "env \<Rightarrow> SubagentToolCall list \<Rightarrow> run_state \<times> bool \<Rightarrow> error option \<times> run_state \<times> bool" where
  "record_calls env [] (s, changed) = (None, s, changed)"
| "record_calls env (call # calls) (s, changed) =
     (case dedup_key env call of
        Inl e \<Rightarrow> (Some e, s, changed)
      | Inr key \<Rightarrow>
          if seen_has (seenToolCalls s) key then record_calls env calls (s, changed)
          else record_calls env calls
                 (s\<lparr>seenToolCalls := insert key (seenToolCalls s),
                    toolCalls := toolCalls s @ [call]\<rparr>, True))"

text \<open>
  The first half of \<^verbatim>\<open>processLine\<close>: from the line to the message it carries, \<open>None\<close>
  on every \<^verbatim>\<open>return\<close>.
\<close>

definition decode :: "env \<Rightarrow> string \<Rightarrow> json option" where
  "decode env line =
     (let trimmed = trim line in
      if trimmed = [] then None
      else (case JSON_parse env trimmed of
              None \<Rightarrow> None
            | Some event \<Rightarrow>
                if \<not> truthy event \<or> \<not> typeof_object event then None
                else if get_prop event ''type'' \<noteq> Some (JStr ''message_end'') then None
                else (case get_prop event ''message'' of
                        None \<Rightarrow> None
                      | Some message \<Rightarrow> if \<not> truthy message then None else Some message)))"

text \<open>
  The second half, from \<^verbatim>\<open>messages.push(message)\<close> on. The result is the exception
  thrown, if any, and the state as it then stands.
\<close>

definition apply_message :: "env \<Rightarrow> json \<Rightarrow> run_state \<Rightarrow> error option \<times> run_state" where
  "apply_message env message s =
     (let s1 = s\<lparr>messages := messages s @ [message]\<rparr> in
      if get_prop message ''role'' \<noteq> Some (JStr ''assistant'') then (None, s1)
      else (case extractAssistantToolCalls message of
              Inl e \<Rightarrow> (Some e, s1)
            | Inr messageToolCalls \<Rightarrow>
                (case record_calls env messageToolCalls (s1, False) of
                   (Some e, s2, changed) \<Rightarrow> (Some e, s2)
                 | (None, s2, changed) \<Rightarrow>
                     (case extractAssistantText message of
                        Inl e \<Rightarrow> (Some e, s2)
                      | Inr text \<Rightarrow>
                          (let s3 = (if text \<noteq> [] then s2\<lparr>finalText := text\<rparr> else s2);
                               changed3 = (changed \<or> text \<noteq> []);
                               has_stop = (case get_prop message ''stopReason'' of
                                             Some v \<Rightarrow> truthy v | None \<Rightarrow> False);
                               s4 = (if has_stop
                                     then s3\<lparr>stopReason := get_prop message ''stopReason''\<rparr>
                                     else s3);
                               changed4 = (changed3 \<or> has_stop);
                               s5 = (case get_prop message ''errorMessage'' of
                                       Some v \<Rightarrow> if truthy v then s4\<lparr>errorMessage := Some v\<rparr> else s4
                                     | None \<Rightarrow> s4);
                               s6 = (case get_prop message ''model'' of
                                       Some v \<Rightarrow> if truthy v then s5\<lparr>model := Some v\<rparr> else s5
                                     | None \<Rightarrow> s5)
                           in (None, if changed4 then emitProgress s6 else s6))))))"

definition processLine :: "env \<Rightarrow> string \<Rightarrow> run_state \<Rightarrow> error option \<times> run_state" where
  "processLine env line s =
     (case decode env line of
        None \<Rightarrow> (None, s)
      | Some message \<Rightarrow> apply_message env message s)"

section \<open>The handlers\<close>

text \<open>\<^verbatim>\<open>for (const line of lines) processLine(line)\<close>; an exception ends the loop.\<close>

fun process_lines :: "env \<Rightarrow> string list \<Rightarrow> run_state \<Rightarrow> error option \<times> run_state" where
  "process_lines env [] s = (None, s)"
| "process_lines env (line # lines) s =
     (case processLine env line s of
        (Some e, s') \<Rightarrow> (Some e, s')
      | (None, s') \<Rightarrow> process_lines env lines s')"

text \<open>
  The \<^verbatim>\<open>data\<close> handlers of stdout and stderr; the one of stderr appends
  \<^verbatim>\<open>data.toString()\<close>.
\<close>

definition on_stdout_data :: "env \<Rightarrow> string \<Rightarrow> run_state \<Rightarrow> error option \<times> run_state" where
  "on_stdout_data env data s =
     (case feed env (buffer s) data of
        (lines, buffer') \<Rightarrow> process_lines env lines (s\<lparr>buffer := buffer'\<rparr>))"

definition on_stderr_data :: "env \<Rightarrow> string \<Rightarrow> run_state \<Rightarrow> run_state" where
  "on_stderr_data env data s = s\<lparr>stderr := stderr s @ toString env data\<rparr>"

definition resolveOnce :: "int \<Rightarrow> run_state \<Rightarrow> run_state" where
  "resolveOnce code s = (if settled s then s else s\<lparr>settled := True, promise := Some code\<rparr>)"

text \<open>The \<^verbatim>\<open>close\<close> handler; \<^verbatim>\<open>code\<close> is \<^verbatim>\<open>null\<close> when a signal ended the child.\<close>

definition on_close :: "env \<Rightarrow> int option \<Rightarrow> run_state \<Rightarrow> error option \<times> run_state" where
  "on_close env code s =
     (case (case flush (buffer s) of
              Some line \<Rightarrow> processLine env line s
            | None \<Rightarrow> (None, s)) of
        (Some e, s') \<Rightarrow> (Some e, s')
      | (None, s') \<Rightarrow> (None, resolveOnce (case code of Some c \<Rightarrow> c | None \<Rightarrow> 0) s'))"

text \<open>The \<^verbatim>\<open>error\<close> handler, given \<^verbatim>\<open>error.name\<close> and \<^verbatim>\<open>error.message\<close>.\<close>

definition on_error :: "string \<Rightarrow> string \<Rightarrow> run_state \<Rightarrow> run_state" where
  "on_error name message s =
     resolveOnce 1
       (s\<lparr>errorMessage := Some (JStr message),
          stderr := stderr s @ name @ '': '' @ message\<rparr>)"

text \<open>
  Node's \<^verbatim>\<open>proc.kill(signal)\<close>: while the child runs the signal is delivered and
  \<^verbatim>\<open>proc.killed\<close> becomes true; once the child is gone the call does nothing and returns
  false. \<^verbatim>\<open>proc.killed\<close> therefore says that a signal was sent, not that the child ended.
\<close>

definition proc_kill :: "signal \<Rightarrow> run_state \<Rightarrow> run_state" where
  "proc_kill sig s =
     (if proc_alive s then s\<lparr>signals := signals s @ [sig], proc_killed := True\<rparr> else s)"

text \<open>The callback of \<^verbatim>\<open>setTimeout\<close> in \<^verbatim>\<open>kill\<close>.\<close>

definition on_timeout :: "run_state \<Rightarrow> run_state" where
  "on_timeout s = (if \<not> proc_killed s then proc_kill SIGKILL s else s)"

definition kill :: "run_state \<Rightarrow> run_state" where
  "kill s = (proc_kill SIGTERM (s\<lparr>aborted := True\<rparr>))\<lparr>timeout := Some 2000\<rparr>"

section \<open>The event loop\<close>

text \<open>
  What can happen while the promise is awaited, one event per turn of Node's loop:
  a chunk of bytes on the child's stdout or stderr, the child ending
  (\<open>ProcExit\<close>: Node releases it; the runner does not listen), \<^verbatim>\<open>close\<close> with the exit
  code, \<^verbatim>\<open>error\<close> for a child that could not be started, the caller's signal firing
  \<^verbatim>\<open>abort\<close>, and the timer of \<^verbatim>\<open>kill\<close> running out.
\<close>

datatype event =
    StdoutData string
  | StderrData string
  | ProcExit
  | ProcClose "int option"
  | ProcError string string
  | Abort
  | Timeout

text \<open>
  One event: what it does to the child, then the runner's handler. The \<^verbatim>\<open>abort\<close>
  listener is registered \<^verbatim>\<open>{ once: true }\<close>; the timer runs its callback once.
\<close>

fun dispatch :: "env \<Rightarrow> event \<Rightarrow> run_state \<Rightarrow> error option \<times> run_state" where
  "dispatch env (StdoutData data) s = on_stdout_data env data s"
| "dispatch env (StderrData data) s = (None, on_stderr_data env data s)"
| "dispatch env ProcExit s = (None, s\<lparr>proc_alive := False\<rparr>)"
| "dispatch env (ProcClose code) s = on_close env code (s\<lparr>proc_alive := False\<rparr>)"
| "dispatch env (ProcError name message) s = (None, on_error name message (s\<lparr>proc_alive := False\<rparr>))"
| "dispatch env Abort s =
     (None, if abort_listener s then kill (s\<lparr>abort_listener := False\<rparr>) else s)"
| "dispatch env Timeout s =
     (None, case timeout s of None \<Rightarrow> s | Some delay \<Rightarrow> on_timeout (s\<lparr>timeout := None\<rparr>))"

text \<open>
  The state when the promise's executor returns: the variables as declared, the child
  started or not, and the signal, if one is given (\<open>Some a\<close>, with \<open>a\<close> its
  \<^verbatim>\<open>aborted\<close> flag), either acted on at once or listened to.
\<close>

definition initial :: "bool \<Rightarrow> run_state" where
  "initial spawned =
     \<lparr> messages = [], toolCalls = [], seenToolCalls = {}, stderr = [], finalText = [],
       stopReason = None, errorMessage = None, model = None, aborted = False,
       settled = False, buffer = [], progress = [], promise = None,
       proc_alive = spawned, proc_killed = False, signals = [], timeout = None,
       abort_listener = False \<rparr>"

definition start :: "bool \<Rightarrow> bool option \<Rightarrow> run_state" where
  "start spawned signal =
     (case signal of
        None \<Rightarrow> initial spawned
      | Some a \<Rightarrow> if a then kill (initial spawned)
                  else (initial spawned)\<lparr>abort_listener := True\<rparr>)"

datatype outcome =
    Resolved RunSubagentResult
  | Rejected error
  | Uncaught error
  | Pending

text \<open>What follows the \<^verbatim>\<open>await\<close>, given the value the promise resolved with.\<close>

definition after_await :: "int \<Rightarrow> run_state \<Rightarrow> outcome" where
  "after_await code s =
     (if aborted s then Rejected (Error ''Subagent aborted'')
      else Resolved
             \<lparr> res_exitCode = code, res_stderr = stderr s, res_messages = messages s,
               res_finalText = finalText s, res_toolCalls = toolCalls s,
               res_stopReason = stopReason s, res_errorMessage = errorMessage s,
               res_model = model s \<rparr>)"

text \<open>
  The handlers stay registered after the promise has resolved: the events that come
  later still run them, with no effect on what \<^verbatim>\<open>runSubagent\<close> has returned.
\<close>

fun drain :: "env \<Rightarrow> run_state \<Rightarrow> event list \<Rightarrow> run_state" where
  "drain env s [] = s"
| "drain env s (e # es) =
     (case dispatch env e s of
        (Some err, s') \<Rightarrow> s'
      | (None, s') \<Rightarrow> drain env s' es)"

text \<open>
  The events in order. An exception that leaves a handler is uncaught; when a handler
  resolves the promise, the rest of \<^verbatim>\<open>runSubagent\<close> runs before the next event. A run
  whose events end before the promise resolves is still pending.
\<close>

fun event_loop :: "env \<Rightarrow> run_state \<Rightarrow> event list \<Rightarrow> outcome \<times> run_state" where
  "event_loop env s [] = (Pending, s)"
| "event_loop env s (e # es) =
     (case dispatch env e s of
        (Some err, s') \<Rightarrow> (Uncaught err, s')
      | (None, s') \<Rightarrow>
          (case promise s' of
             Some code \<Rightarrow> (after_await code s', drain env s' es)
           | None \<Rightarrow> event_loop env s' es))"

section \<open>The prompt file and the whole run\<close>

text \<open>
  The file system is the set of paths that exist. A file is unlinked when it exists and
  the system allows it; failing to write the file leaves the directory behind.
\<close>

type_synonym path = string

record prompt_file =
  pf_dir :: path
  pf_file :: path

definition path_join :: "path \<Rightarrow> string \<Rightarrow> path" where
  "path_join d name = d @ ''/'' @ name"

definition createPromptFile ::
  "env \<Rightarrow> path set \<Rightarrow> string \<Rightarrow> path set \<times> (error + prompt_file option)" where
  "createPromptFile env fs prompt =
     (if trim prompt = [] then (fs, Inr None)
      else (case mkdtempSync env of
              Inl e \<Rightarrow> (fs, Inl e)
            | Inr d \<Rightarrow>
                (let f = path_join d ''system-prompt.md'' in
                 if write_ok env then (insert f (insert d fs), Inr (Some \<lparr> pf_dir = d, pf_file = f \<rparr>))
                 else (insert d fs, Inl (SystemError ''writeFileSync'')))))"

definition unlinkSync :: "env \<Rightarrow> path set \<Rightarrow> path \<Rightarrow> error + path set" where
  "unlinkSync env fs p =
     (if p \<in> fs \<and> unlink_ok env then Inr (fs - {p}) else Inl (SystemError ''unlinkSync''))"

text \<open>A directory is removed only when nothing is left in it.\<close>

definition inside :: "path \<Rightarrow> path \<Rightarrow> bool" where
  "inside d p = (take (Suc (length d)) p = d @ ''/'' \<and> Suc (length d) < length p)"

definition rmdirSync :: "env \<Rightarrow> path set \<Rightarrow> path \<Rightarrow> error + path set" where
  "rmdirSync env fs d =
     (if d \<in> fs \<and> rmdir_ok env \<and> \<not> (\<exists>p \<in> fs. inside d p) then Inr (fs - {d})
      else Inl (SystemError ''rmdirSync''))"

text \<open>The \<^verbatim>\<open>finally\<close> block: each removal in a \<^verbatim>\<open>try\<close> with an empty \<^verbatim>\<open>catch\<close>.\<close>

definition cleanup :: "env \<Rightarrow> prompt_file option \<Rightarrow> path set \<Rightarrow> path set" where
  "cleanup env promptFile fs =
     (case promptFile of
        None \<Rightarrow> fs
      | Some p \<Rightarrow>
          (let fs1 = (case unlinkSync env fs (pf_file p) of Inl e \<Rightarrow> fs | Inr fs' \<Rightarrow> fs');
               fs2 = (case rmdirSync env fs1 (pf_dir p) of Inl e \<Rightarrow> fs1 | Inr fs' \<Rightarrow> fs')
           in fs2))"

record RunSubagentOptions =
  cwd :: string
  task :: string
  systemPrompt :: string
  model_option :: "string option"
  tools :: "string list option"
  signal_option :: "bool option"

definition build_args :: "RunSubagentOptions \<Rightarrow> prompt_file option \<Rightarrow> string list" where
  "build_args options promptFile =
     [''--mode'', ''json'', ''-p'', ''--no-session'']
     @ (case model_option options of
          Some m \<Rightarrow> if m \<noteq> [] then [''--model'', m] else []
        | None \<Rightarrow> [])
     @ (case tools options of
          Some ts \<Rightarrow> if 0 < length ts then [''--tools'', join '','' ts] else []
        | None \<Rightarrow> [])
     @ (case promptFile of
          Some p \<Rightarrow> [''--append-system-prompt'', pf_file p]
        | None \<Rightarrow> [])
     @ [task options]"

text \<open>
  The \<^verbatim>\<open>try\<close> block: \<^verbatim>\<open>spawn\<close> throws at once on arguments it refuses, and otherwise
  returns a handle, of a child that runs or of one that could not be started, whose
  events follow.
\<close>

definition run_process :: "env \<Rightarrow> string list \<Rightarrow> string \<Rightarrow> bool option \<Rightarrow> event list \<Rightarrow> outcome" where
  "run_process env args dir signal events =
     (case spawn env args dir of
        SpawnThrows e \<Rightarrow> Rejected e
      | Spawned \<Rightarrow> fst (event_loop env (start True signal) events)
      | SpawnFailed \<Rightarrow> fst (event_loop env (start False signal) events))"

text \<open>
  \<^verbatim>\<open>runSubagent\<close>: its outcome and the file system it leaves. The \<^verbatim>\<open>finally\<close> block
  runs when the \<^verbatim>\<open>try\<close> block is left, by \<^verbatim>\<open>return\<close> or by \<^verbatim>\<open>throw\<close>.
\<close>

definition runSubagent ::
  "env \<Rightarrow> RunSubagentOptions \<Rightarrow> path set \<Rightarrow> event list \<Rightarrow> outcome \<times> path set" where
  "runSubagent env options fs events =
     (case createPromptFile env fs (systemPrompt options) of
        (fs1, Inl e) \<Rightarrow> (Rejected e, fs1)
      | (fs1, Inr promptFile) \<Rightarrow>
          (case run_process env (build_args options promptFile) (cwd options)
                  (signal_option options) events of
             Resolved r \<Rightarrow> (Resolved r, cleanup env promptFile fs1)
           | Rejected e \<Rightarrow> (Rejected e, cleanup env promptFile fs1)
           | Uncaught e \<Rightarrow> (Uncaught e, fs1)
           | Pending \<Rightarrow> (Pending, fs1)))"

text \<open>
  Putting the framer's output together again: every line with the line feed that
  \<^verbatim>\<open>split\<close> consumed, then the final fragment, if there is one.
\<close>

definition reassemble :: "string list \<Rightarrow> string option \<Rightarrow> string" where
  "reassemble lines final =
     concat (map (\<lambda>l. l @ [CHR 0x0A]) lines) @ (case final of Some l \<Rightarrow> l | None \<Rightarrow> [])"


section \<open>Notions used in the properties\<close>

text \<open>
  A tool call as the interface \<^verbatim>\<open>SubagentToolCall\<close> declares it: \<^verbatim>\<open>id\<close> a string
  or absent, \<^verbatim>\<open>name\<close> a string.
\<close>

definition well_typed_call :: "SubagentToolCall \<Rightarrow> bool" where
  "well_typed_call c =
     ((case call_id c of None \<Rightarrow> True | Some (JStr i) \<Rightarrow> True | Some v \<Rightarrow> False)
      \<and> (case call_name c of Some (JStr n) \<Rightarrow> True | _ \<Rightarrow> False))"

text \<open>
  What holds of the recorded calls as long as well-typed calls arrive: their keys are
  pairwise distinct and are exactly the keys in \<^verbatim>\<open>seenToolCalls\<close>.
\<close>

definition dedup_inv :: "env \<Rightarrow> run_state \<Rightarrow> bool" where
  "dedup_inv env s =
     (list_all well_typed_call (toolCalls s)
      \<and> distinct (map (dedup_key env) (toolCalls s))
      \<and> Inr ` seenToolCalls s = set (map (dedup_key env) (toolCalls s)))"

text \<open>
  The extracted text in the words of the specification: of the content parts, those of
  type \<^verbatim>\<open>text\<close>; their texts, joined by newline; the result, trimmed. It is compared
  with \<^verbatim>\<open>extractAssistantText\<close> on content whose parts are typed: none is \<^verbatim>\<open>null\<close>,
  and the text of a part of type \<^verbatim>\<open>text\<close> is a string.
\<close>

definition text_typed :: "json \<Rightarrow> bool" where
  "text_typed part = (get_prop part ''type'' = Some (JStr ''text''))"

definition text_of :: "json \<Rightarrow> string" where
  "text_of part = (case get_prop part ''text'' of Some (JStr t) \<Rightarrow> t | _ \<Rightarrow> [])"

definition typed_part :: "json \<Rightarrow> bool" where
  "typed_part part =
     (part \<noteq> JNull
      \<and> (text_typed part \<longrightarrow>
           (case get_prop part ''text'' of Some (JStr t) \<Rightarrow> True | _ \<Rightarrow> False)))"

definition joined_text :: "json list \<Rightarrow> string" where
  "joined_text parts = trim (join [CHR 0x0A] (map text_of (filter text_typed parts)))"

text \<open>The handlers of the child's output leave the process side of the state alone.\<close>

definition same_process :: "run_state \<Rightarrow> run_state \<Rightarrow> bool" where
  "same_process s s' =
     (stderr s' = stderr s \<and> aborted s' = aborted s \<and> settled s' = settled s
      \<and> buffer s' = buffer s \<and> promise s' = promise s \<and> proc_alive s' = proc_alive s
      \<and> proc_killed s' = proc_killed s \<and> signals s' = signals s
      \<and> timeout s' = timeout s \<and> abort_listener s' = abort_listener s)"

text \<open>The part of the state that cancellation and completion work on.\<close>

definition same_control :: "run_state \<Rightarrow> run_state \<Rightarrow> bool" where
  "same_control s s' =
     (aborted s' = aborted s \<and> settled s' = settled s \<and> promise s' = promise s
      \<and> proc_alive s' = proc_alive s \<and> proc_killed s' = proc_killed s
      \<and> signals s' = signals s \<and> timeout s' = timeout s
      \<and> abort_listener s' = abort_listener s)"

text \<open>\<^verbatim>\<open>runSubagent\<close> has come to its end: it returned a result or threw.\<close>

fun exited :: "outcome \<Rightarrow> bool" where
  "exited (Resolved r) = True"
| "exited (Rejected e) = True"
| "exited (Uncaught e) = False"
| "exited Pending = False"

text \<open>
  What keeps the timer's callback from ever sending its signal: no \<^verbatim>\<open>SIGKILL\<close> has been
  sent, and while the timer is pending with \<^verbatim>\<open>proc.killed\<close> false, the child is gone.
\<close>

definition no_escalation :: "run_state \<Rightarrow> bool" where
  "no_escalation s =
     (SIGKILL \<notin> set (signals s)
      \<and> (timeout s \<noteq> None \<and> \<not> proc_killed s \<longrightarrow> \<not> proc_alive s))"


section \<open>A sample run\<close>

text \<open>
  Lines as the child writes them, each with the value \<^verbatim>\<open>JSON.parse\<close> gives for it.
  The sample environment parses these lines and no other text, serialises the empty
  object, decodes UTF-8, starts the child, and lets every file operation through.
\<close>

definition tool_line :: string where
  "tool_line = ''{\"type\":\"message_end\",\"message\":{\"role\":\"assistant\",\"content\":[{\"type\":\"toolCall\",\"id\":\"call_1\",\"name\":\"ls\",\"arguments\":{}}]}}''"

definition tool_message :: json where
  "tool_message =
     JObj [(''role'', JStr ''assistant''),
           (''content'', JArr [JObj [(''type'', JStr ''toolCall''), (''id'', JStr ''call_1''),
                                     (''name'', JStr ''ls''), (''arguments'', JObj [])]])]"

definition ls_call :: SubagentToolCall where
  "ls_call = \<lparr> call_id = Some (JStr ''call_1''), call_name = Some (JStr ''ls''),
               call_arguments = JObj [] \<rparr>"

definition text_line_A :: string where
  "text_line_A = ''{\"type\":\"message_end\",\"message\":{\"role\":\"assistant\",\"content\":[{\"type\":\"text\",\"text\":\"A\"}]}}''"

definition text_message_A :: json where
  "text_message_A =
     JObj [(''role'', JStr ''assistant''),
           (''content'', JArr [JObj [(''type'', JStr ''text''), (''text'', JStr ''A'')]])]"

definition text_line_B :: string where
  "text_line_B = ''{\"type\":\"message_end\",\"message\":{\"role\":\"assistant\",\"content\":[{\"type\":\"text\",\"text\":\"B\"}]}}''"

definition text_message_B :: json where
  "text_message_B =
     JObj [(''role'', JStr ''assistant''),
           (''content'', JArr [JObj [(''type'', JStr ''text''), (''text'', JStr ''B'')]])]"

definition blank_line :: string where
  "blank_line = ''{\"type\":\"message_end\",\"message\":{\"role\":\"assistant\",\"content\":[]}}''"

definition blank_message :: json where
  "blank_message = JObj [(''role'', JStr ''assistant''), (''content'', JArr [])]"

definition user_line :: string where
  "user_line = ''{\"type\":\"message_end\",\"message\":{\"role\":\"user\",\"content\":[{\"type\":\"text\",\"text\":\"hi\"}]}}''"

definition user_message :: json where
  "user_message =
     JObj [(''role'', JStr ''user''),
           (''content'', JArr [JObj [(''type'', JStr ''text''), (''text'', JStr ''hi'')]])]"

text \<open>
  A message with two text parts, with white space around them, and a part of another
  type in between.
\<close>

definition parts_line :: string where
  "parts_line = ''{\"type\":\"message_end\",\"message\":{\"role\":\"assistant\",\"content\":[{\"type\":\"text\",\"text\":\" A\"},{\"type\":\"thinking\",\"thinking\":\"hm\"},{\"type\":\"text\",\"text\":\"C \"}]}}''"

definition parts_content :: "json list" where
  "parts_content =
     [JObj [(''type'', JStr ''text''), (''text'', JStr '' A'')],
      JObj [(''type'', JStr ''thinking''), (''thinking'', JStr ''hm'')],
      JObj [(''type'', JStr ''text''), (''text'', JStr ''C '')]]"

definition parts_message :: json where
  "parts_message = JObj [(''role'', JStr ''assistant''), (''content'', JArr parts_content)]"

text \<open>
  A message with two tool calls: the first has the \<^verbatim>\<open>id\<close> \<^verbatim>\<open>ls:{}\<close>, the second has no
  \<^verbatim>\<open>id\<close>, the name \<^verbatim>\<open>ls\<close> and no arguments.
\<close>

definition clash_line :: string where
  "clash_line = ''{\"type\":\"message_end\",\"message\":{\"role\":\"assistant\",\"content\":[{\"type\":\"toolCall\",\"id\":\"ls:{}\",\"name\":\"rm\",\"arguments\":{}},{\"type\":\"toolCall\",\"name\":\"ls\",\"arguments\":{}}]}}''"

definition clash_message :: json where
  "clash_message =
     JObj [(''role'', JStr ''assistant''),
           (''content'', JArr [JObj [(''type'', JStr ''toolCall''), (''id'', JStr ''ls:{}''),
                                     (''name'', JStr ''rm''), (''arguments'', JObj [])],
                               JObj [(''type'', JStr ''toolCall''), (''name'', JStr ''ls''),
                                     (''arguments'', JObj [])]])]"

definition rm_call :: SubagentToolCall where
  "rm_call = \<lparr> call_id = Some (JStr ''ls:{}''), call_name = Some (JStr ''rm''),
               call_arguments = JObj [] \<rparr>"

definition plain_ls_call :: SubagentToolCall where
  "plain_ls_call = \<lparr> call_id = None, call_name = Some (JStr ''ls''),
                     call_arguments = JObj [] \<rparr>"

text \<open>A tool call whose \<^verbatim>\<open>id\<close> is present and is the empty string.\<close>

definition empty_id_call :: SubagentToolCall where
  "empty_id_call = \<lparr> call_id = Some (JStr []), call_name = Some (JStr ''ls''),
                     call_arguments = JObj [] \<rparr>"

text \<open>A message with no content: reading its parts throws.\<close>

definition bare_line :: string where
  "bare_line = ''{\"type\":\"message_end\",\"message\":{\"role\":\"assistant\"}}''"

definition bare_message :: json where
  "bare_message = JObj [(''role'', JStr ''assistant'')]"

definition turn_line :: string where
  "turn_line = ''{\"type\":\"turn_start\"}''"

definition message_end :: "json \<Rightarrow> json" where
  "message_end message = JObj [(''type'', JStr ''message_end''), (''message'', message)]"

definition sample_parse :: "string \<Rightarrow> json option" where
  "sample_parse =
     map_of [(tool_line, message_end tool_message),
             (text_line_A, message_end text_message_A),
             (text_line_B, message_end text_message_B),
             (blank_line, message_end blank_message),
             (user_line, message_end user_message),
             (turn_line, JObj [(''type'', JStr ''turn_start'')]),
             (parts_line, message_end parts_message),
             (clash_line, message_end clash_message),
             (bare_line, message_end bare_message)]"

text \<open>
  The decoder of the sample environment: UTF-8 for the characters below U+0100, which
  are the ones the model's text has. A byte below \<open>0x80\<close> is the character itself;
  \<open>0xC2\<close> or \<open>0xC3\<close> followed by a continuation byte (\<open>0x80\<close> to \<open>0xBF\<close>) is one
  character. Any other byte from \<open>0x80\<close> on is replaced by U+FFFD, which is what Node
  does with a continuation byte that continues nothing and with a first byte whose
  sequence is cut off after it. U+FFFD has no \<^typ>\<open>char\<close>: SUB (\<open>0x1A\<close>), which no
  sample holds, stands for it. The longer sequences, of the characters from U+0100 on,
  are not modelled and do not occur in the samples.
\<close>

definition replacement :: char where
  "replacement = CHR 0x1A"

fun utf8 :: "string \<Rightarrow> string" where
  "utf8 [] = []"
| "utf8 [b] = (if (of_char b :: nat) < 0x80 then [b] else [replacement])"
| "utf8 (b # c # rest) =
     (if (of_char b :: nat) < 0x80 then b # utf8 (c # rest)
      else if (of_char b :: nat) \<in> {0xC2, 0xC3} \<and> 0x80 \<le> (of_char c :: nat)
                \<and> (of_char c :: nat) < 0xC0
      then char_of ((of_char b - 0xC0) * 0x40 + (of_char c - 0x80) :: nat) # utf8 rest
      else replacement # utf8 (c # rest))"

definition sample_env :: env where
  "sample_env =
     \<lparr> JSON_parse = sample_parse,
       JSON_stringify = (\<lambda>v. if v = JObj [] then ''{}'' else []),
       toString = utf8,
       spawn = (\<lambda>args d. Spawned),
       mkdtempSync = Inr ''/tmp/pi-subagent-a1b2c3'',
       write_ok = True, unlink_ok = True, rmdir_ok = True \<rparr>"

definition sample_options :: RunSubagentOptions where
  "sample_options =
     \<lparr> cwd = ''/work'', task = ''list files'', systemPrompt = ''You are Scout.'',
       model_option = None, tools = Some [''read'', ''ls''], signal_option = Some False \<rparr>"

text \<open>The state of the sample run once the child has written the line with the text \<open>A\<close>.\<close>

definition after_text_A :: run_state where
  "after_text_A =
     (start True (Some False))
       \<lparr> messages := [text_message_A], finalText := ''A'',
         progress := [\<lparr> prog_text = ''A'', prog_toolCalls = [], prog_model = None,
                        prog_stopReason = None \<rparr>] \<rparr>"

text \<open>
  The bytes of that line and its line feed, as they may arrive: in two chunks. All are
  below \<open>0x80\<close>.
\<close>

definition chunk_1 :: string where
  "chunk_1 = ''{\"type\":\"message_end\",\"mess''"

definition chunk_2 :: string where
  "chunk_2 = ''age\":{\"role\":\"assistant\",\"content\":[{\"type\":\"text\",\"text\":\"A\"}]}}'' @ [CHR 0x0A]"

text \<open>The prompt file of the sample run.\<close>

definition sample_prompt_file :: prompt_file where
  "sample_prompt_file =
     \<lparr> pf_dir = ''/tmp/pi-subagent-a1b2c3'',
       pf_file = ''/tmp/pi-subagent-a1b2c3/system-prompt.md'' \<rparr>"

text \<open>
  The sample environment with no \<^verbatim>\<open>pi\<close> to start, and the sample options with a signal
  that is aborted before the call.
\<close>

definition failing_env :: env where
  "failing_env = sample_env\<lparr>spawn := (\<lambda>args d. SpawnFailed)\<rparr>"

definition aborted_options :: RunSubagentOptions where
  "aborted_options = sample_options\<lparr>signal_option := Some True\<rparr>"

text \<open>The sample environment with a \<^verbatim>\<open>spawn\<close> that refuses its arguments.\<close>

definition throwing_env :: env where
  "throwing_env = sample_env\<lparr>spawn := (\<lambda>args d. SpawnThrows TypeError)\<rparr>"


section \<open>The line framer: auxiliary facts\<close>

lemma split_newline_not_Nil: "split_newline s \<noteq> []"
  by (induction s) (auto split: list.splits)

lemma split_newline_append:
  "split_newline (a @ b) = butlast (split_newline a) @ split_newline (last (split_newline a) @ b)"
proof (induction a)
  case Nil
  show ?case by simp
next
  case (Cons c a)
  obtain l ls where sa: "split_newline a = l # ls"
    using split_newline_not_Nil [of a] by (cases "split_newline a") auto
  obtain l' ls' where sab: "split_newline (a @ b) = l' # ls'"
    using split_newline_not_Nil [of "a @ b"] by (cases "split_newline (a @ b)") auto
  show ?case
  proof (cases "c = CHR 0x0A")
    case True
    with Cons sa show ?thesis by simp
  next
    case False
    show ?thesis
    proof (cases ls)
      case Nil
      with Cons sa sab False show ?thesis by simp
    next
      case (Cons m ms)
      with Cons.IH sa sab False show ?thesis by simp
    qed
  qed
qed

lemma split_newline_rebuild:
  "concat (map (\<lambda>l. l @ [CHR 0x0A]) (butlast (split_newline s))) @ last (split_newline s) = s"
proof (induction s)
  case Nil
  show ?case by simp
next
  case (Cons c s)
  obtain l ls where sa: "split_newline s = l # ls"
    using split_newline_not_Nil [of s] by (cases "split_newline s") auto
  show ?case
  proof (cases "c = CHR 0x0A")
    case True
    with Cons sa show ?thesis by simp
  next
    case False
    with Cons sa show ?thesis by (cases ls) auto
  qed
qed

lemma last_split_newline_no_LF: "CHR 0x0A \<notin> set (last (split_newline s))"
proof (induction s)
  case Nil
  show ?case by simp
next
  case (Cons c s)
  obtain l ls where sa: "split_newline s = l # ls"
    using split_newline_not_Nil [of s] by (cases "split_newline s") auto
  with Cons show ?case by (cases ls) auto
qed

lemma split_newline_no_LF: "CHR 0x0A \<notin> set s \<Longrightarrow> split_newline s = [s]"
  by (induction s) auto

lemma feed_eq:
  "feed env b d = (butlast (split_newline (b @ toString env d)),
                   last (split_newline (b @ toString env d)))"
  by (simp add: feed_def Let_def split_newline_not_Nil)

lemma feed_all_eq:
  "CHR 0x0A \<notin> set b \<Longrightarrow>
   feed_all env b cs =
     (butlast (split_newline (b @ concat (map (toString env) cs))),
      last (split_newline (b @ concat (map (toString env) cs))))"
proof (induction cs arbitrary: b)
  case Nil
  then show ?case by (simp add: split_newline_no_LF)
next
  case (Cons d cs)
  let ?d = "toString env d" and ?cs = "concat (map (toString env) cs)"
  let ?b' = "last (split_newline (b @ ?d))"
  have ih: "feed_all env ?b' cs =
      (butlast (split_newline (?b' @ ?cs)), last (split_newline (?b' @ ?cs)))"
    by (rule Cons.IH) (rule last_split_newline_no_LF)
  have sp: "split_newline ((b @ ?d) @ ?cs) =
      butlast (split_newline (b @ ?d)) @ split_newline (?b' @ ?cs)"
    by (rule split_newline_append)
  show ?case
    using ih sp split_newline_not_Nil [of "?b' @ ?cs"]
    by (simp add: feed_eq butlast_append)
qed

text \<open>
  Whatever the chunks, the lines handed on and the fragment left are those of the chunks'
  texts put together, each chunk decoded on its own.
\<close>

lemma reassemble_feed_all:
  "reassemble (fst (feed_all env [] chunks)) (Some (snd (feed_all env [] chunks)))
     = concat (map (toString env) chunks)"
  using feed_all_eq [of "[]" env chunks] by (simp add: reassemble_def split_newline_rebuild)

lemma trim_empty_iff: "trim s = [] \<longleftrightarrow> (\<forall>c \<in> set s. is_space c)"
proof
  assume t: "trim s = []"
  show "\<forall>c \<in> set s. is_space c"
  proof (cases "dropWhile is_space s")
    case Nil
    then show ?thesis by simp
  next
    case (Cons x xs)
    then have "\<not> is_space x" using hd_dropWhile [of is_space s] by simp
    moreover from t Cons have "is_space x" by (simp add: trim_def dropWhile_eq_Nil_conv)
    ultimately show ?thesis by simp
  qed
next
  assume "\<forall>c \<in> set s. is_space c"
  then show "trim s = []" by (auto simp: trim_def dest: set_dropWhileD)
qed


section \<open>The reducer: auxiliary facts\<close>

lemma well_typed_key:
  assumes "well_typed_call c"
  shows "\<exists>k. dedup_key env c = Inr (JStr k)"
  using assms
  by (auto simp: well_typed_call_def dedup_key_def composite_key_def template_String_def
           split: option.splits json.splits)

lemma seen_has_JStr: "seen_has S (JStr k) = (JStr k \<in> S)"
  by (simp add: seen_has_def)

lemma record_calls_frame:
  "record_calls env calls (s, ch) = (e, s', ch') \<Longrightarrow>
   s' = s\<lparr>toolCalls := toolCalls s', seenToolCalls := seenToolCalls s'\<rparr>"
proof (induction calls arbitrary: s ch)
  case Nil
  then show ?case by simp
next
  case (Cons c calls)
  show ?case
  proof (cases "dedup_key env c")
    case (Inl err)
    with Cons.prems show ?thesis by simp
  next
    case (Inr key)
    show ?thesis
    proof (cases "seen_has (seenToolCalls s) key")
      case True
      with Cons Inr show ?thesis by simp
    next
      case False
      with Cons.prems Inr have
        "record_calls env calls
           (s\<lparr>seenToolCalls := insert key (seenToolCalls s), toolCalls := toolCalls s @ [c]\<rparr>, True)
         = (e, s', ch')" by simp
      from Cons.IH [OF this] show ?thesis by simp
    qed
  qed
qed

lemma record_calls_seen:
  "list_all well_typed_call calls \<Longrightarrow>
   \<forall>c \<in> set calls. dedup_key env c \<in> Inr ` seenToolCalls s \<Longrightarrow>
   record_calls env calls (s, ch) = (None, s, ch)"
proof (induction calls)
  case Nil
  show ?case by simp
next
  case (Cons c calls)
  from Cons.prems obtain k where k: "dedup_key env c = Inr (JStr k)"
    using well_typed_key [of c env] by auto
  with Cons.prems have "JStr k \<in> seenToolCalls s" by auto
  with Cons k show ?case by (simp add: seen_has_JStr)
qed

lemma record_calls_inv:
  "list_all well_typed_call calls \<Longrightarrow> dedup_inv env s \<Longrightarrow>
   record_calls env calls (s, ch) = (e, s', ch') \<Longrightarrow>
   e = None \<and> dedup_inv env s'
   \<and> seenToolCalls s \<subseteq> seenToolCalls s'
   \<and> (\<forall>c \<in> set calls. dedup_key env c \<in> Inr ` seenToolCalls s')"
proof (induction calls arbitrary: s ch)
  case Nil
  then show ?case by simp
next
  case (Cons c calls)
  from Cons.prems obtain k where k: "dedup_key env c = Inr (JStr k)"
    using well_typed_key [of c env] by auto
  from Cons.prems have wt: "list_all well_typed_call calls" and wc: "well_typed_call c" by simp_all
  show ?case
  proof (cases "JStr k \<in> seenToolCalls s")
    case True
    with Cons.prems k have "record_calls env calls (s, ch) = (e, s', ch')"
      by (simp add: seen_has_JStr)
    from Cons.IH [OF wt Cons.prems(2) this] True k show ?thesis by auto
  next
    case False
    let ?s1 = "s\<lparr>seenToolCalls := insert (JStr k) (seenToolCalls s), toolCalls := toolCalls s @ [c]\<rparr>"
    from False Cons.prems k have r: "record_calls env calls (?s1, True) = (e, s', ch')"
      by (simp add: seen_has_JStr)
    have "Inr (JStr k) \<notin> set (map (dedup_key env) (toolCalls s))"
      using Cons.prems(2) False unfolding dedup_inv_def by (metis (no_types, lifting) image_iff Inr_inject)
    then have inv1: "dedup_inv env ?s1"
      using Cons.prems(2) wc k by (auto simp: dedup_inv_def)
    from Cons.IH [OF wt inv1 r] k show ?thesis by auto
  qed
qed

lemma distinct_map_count:
  "distinct (map f xs) \<Longrightarrow> v \<in> set (map f xs) \<Longrightarrow> length (filter (\<lambda>d. f d = v) xs) = 1"
proof (induction xs)
  case Nil
  then show ?case by simp
next
  case (Cons x xs)
  show ?case
  proof (cases "f x = v")
    case True
    with Cons.prems have "\<forall>d \<in> set xs. f d \<noteq> v" by (auto simp: image_iff)
    then have "filter (\<lambda>d. f d = v) xs = []" by (simp add: filter_empty_conv)
    with True show ?thesis by simp
  next
    case False
    with Cons show ?thesis by auto
  qed
qed


lemma apply_message_other_role:
  "get_prop m ''role'' \<noteq> Some (JStr ''assistant'') \<Longrightarrow>
   apply_message env m s = (None, s\<lparr>messages := messages s @ [m]\<rparr>)"
  by (simp add: apply_message_def)

lemma apply_message_unfold:
  assumes "get_prop m ''role'' = Some (JStr ''assistant'')"
    and "extractAssistantToolCalls m = Inr calls"
    and "record_calls env calls (s\<lparr>messages := messages s @ [m]\<rparr>, False) = (None, s2, ch)"
    and "extractAssistantText m = Inr t"
  shows "\<exists>s3. apply_message env m s = (None, s3)
      \<and> toolCalls s3 = toolCalls s2 \<and> seenToolCalls s3 = seenToolCalls s2
      \<and> messages s3 = messages s2 \<and> same_process s2 s3
      \<and> finalText s3 = (if t \<noteq> [] then t else finalText s2)"
  using assms
  by (simp add: apply_message_def Let_def emitProgress_def same_process_def
           split: option.splits)

lemma apply_message_cases:
  "apply_message env m s = (e, s') \<Longrightarrow>
   (get_prop m ''role'' \<noteq> Some (JStr ''assistant'') \<and> e = None \<and> s' = s\<lparr>messages := messages s @ [m]\<rparr>)
   \<or> (get_prop m ''role'' = Some (JStr ''assistant'') \<and>
       (\<exists>err. extractAssistantToolCalls m = Inl err \<and> e = Some err \<and> s' = s\<lparr>messages := messages s @ [m]\<rparr>))
   \<or> (get_prop m ''role'' = Some (JStr ''assistant'') \<and>
       (\<exists>calls err ch. extractAssistantToolCalls m = Inr calls
          \<and> record_calls env calls (s\<lparr>messages := messages s @ [m]\<rparr>, False) = (Some err, s', ch) \<and> e = Some err))
   \<or> (get_prop m ''role'' = Some (JStr ''assistant'') \<and>
       (\<exists>calls s2 ch err. extractAssistantToolCalls m = Inr calls
          \<and> record_calls env calls (s\<lparr>messages := messages s @ [m]\<rparr>, False) = (None, s2, ch)
          \<and> extractAssistantText m = Inl err \<and> e = Some err \<and> s' = s2))
   \<or> (get_prop m ''role'' = Some (JStr ''assistant'') \<and>
       (\<exists>calls s2 ch t. extractAssistantToolCalls m = Inr calls
          \<and> record_calls env calls (s\<lparr>messages := messages s @ [m]\<rparr>, False) = (None, s2, ch)
          \<and> extractAssistantText m = Inr t \<and> e = None
          \<and> toolCalls s' = toolCalls s2 \<and> seenToolCalls s' = seenToolCalls s2
          \<and> messages s' = messages s2 \<and> same_process s2 s'
          \<and> finalText s' = (if t \<noteq> [] then t else finalText s2)))"
proof (cases "get_prop m ''role'' = Some (JStr ''assistant'')")
  case False
  assume "apply_message env m s = (e, s')"
  with False show ?thesis by (simp add: apply_message_other_role)
next
  case role: True
  assume am: "apply_message env m s = (e, s')"
  show ?thesis
  proof (cases "extractAssistantToolCalls m")
    case (Inl err)
    with am role show ?thesis by (simp add: apply_message_def)
  next
    case (Inr calls)
    obtain e2 s2 ch where rc: "record_calls env calls (s\<lparr>messages := messages s @ [m]\<rparr>, False) = (e2, s2, ch)"
      by (cases "record_calls env calls (s\<lparr>messages := messages s @ [m]\<rparr>, False)") auto
    show ?thesis
    proof (cases e2)
      case (Some err)
      with am role Inr rc show ?thesis by (auto simp: apply_message_def)
    next
      case None
      show ?thesis
      proof (cases "extractAssistantText m")
        case (Inl err)
        with am role Inr rc None show ?thesis by (simp add: apply_message_def)
      next
        case (Inr t)
        from apply_message_unfold [OF role \<open>extractAssistantToolCalls m = Inr calls\<close> rc [unfolded None] Inr]
        obtain s3 where "apply_message env m s = (None, s3)"
          "toolCalls s3 = toolCalls s2" "seenToolCalls s3 = seenToolCalls s2"
          "messages s3 = messages s2" "same_process s2 s3"
          "finalText s3 = (if t \<noteq> [] then t else finalText s2)" by blast
        with am role \<open>extractAssistantToolCalls m = Inr calls\<close> rc None Inr show ?thesis by auto
      qed
    qed
  qed
qed


lemma same_process_refl: "same_process s s"
  by (simp add: same_process_def)

lemma same_process_trans: "same_process a b \<Longrightarrow> same_process b c \<Longrightarrow> same_process a c"
  by (simp add: same_process_def)

lemma record_calls_same:
  assumes "record_calls env calls (s, ch) = (e, s', ch')"
  shows "same_process s s' \<and> messages s' = messages s \<and> finalText s' = finalText s"
proof -
  from record_calls_frame [OF assms]
  have eq: "s' = s\<lparr>toolCalls := toolCalls s', seenToolCalls := seenToolCalls s'\<rparr>" .
  have "same_process s (s\<lparr>toolCalls := toolCalls s', seenToolCalls := seenToolCalls s'\<rparr>)"
    by (simp add: same_process_def)
  moreover have "messages (s\<lparr>toolCalls := toolCalls s', seenToolCalls := seenToolCalls s'\<rparr>) = messages s"
    by simp
  moreover have "finalText (s\<lparr>toolCalls := toolCalls s', seenToolCalls := seenToolCalls s'\<rparr>) = finalText s"
    by simp
  ultimately show ?thesis using eq by metis
qed

lemma apply_message_frame:
  assumes "apply_message env m s = (e, s')"
  shows "same_process s s' \<and> messages s' = messages s @ [m]"
proof -
  let ?s1 = "s\<lparr>messages := messages s @ [m]\<rparr>"
  have s1: "same_process s ?s1" by (simp add: same_process_def)
  from apply_message_cases [OF assms] show ?thesis
  proof (elim disjE conjE exE)
    assume "s' = ?s1"
    then show ?thesis by (simp add: same_process_def)
  next
    fix err assume "s' = ?s1"
    then show ?thesis by (simp add: same_process_def)
  next
    fix calls err ch
    assume "record_calls env calls (?s1, False) = (Some err, s', ch)"
    from record_calls_same [OF this] s1 show ?thesis
      by (auto intro: same_process_trans)
  next
    fix calls s2 ch err
    assume "record_calls env calls (?s1, False) = (None, s2, ch)" "s' = s2"
    with record_calls_same [of env calls ?s1 False None s2 ch] s1 show ?thesis
      by (auto intro: same_process_trans)
  next
    fix calls s2 ch t
    assume rc: "record_calls env calls (?s1, False) = (None, s2, ch)"
      and "messages s' = messages s2" "same_process s2 s'"
    with record_calls_same [OF rc] s1 show ?thesis
      by (auto intro: same_process_trans)
  qed
qed

lemma processLine_frame:
  assumes "processLine env line s = (e, s')"
  shows "same_process s s'"
  using assms apply_message_frame [of env _ s e s']
  by (auto simp: processLine_def same_process_refl split: option.splits)

lemma process_lines_frame:
  "process_lines env lines s = (e, s') \<Longrightarrow> same_process s s'"
proof (induction lines arbitrary: s)
  case Nil
  then show ?case by (simp add: same_process_refl)
next
  case (Cons l lines)
  obtain e1 s1 where p: "processLine env l s = (e1, s1)" by (cases "processLine env l s") auto
  show ?case
  proof (cases e1)
    case None
    with Cons.prems p have "process_lines env lines s1 = (e, s')" by simp
    from Cons.IH [OF this] processLine_frame [OF p] show ?thesis
      by (rule same_process_trans [rotated])
  next
    case (Some err)
    with Cons.prems p processLine_frame [OF p] show ?thesis by simp
  qed
qed


lemma dedup_inv_cong:
  "toolCalls a = toolCalls b \<Longrightarrow> seenToolCalls a = seenToolCalls b \<Longrightarrow>
   dedup_inv env a = dedup_inv env b"
  by (simp add: dedup_inv_def)

lemma apply_message_calls:
  assumes ex: "extractAssistantToolCalls m = Inr calls"
    and wt: "list_all well_typed_call calls"
    and rc: "record_calls env calls (s\<lparr>messages := messages s @ [m]\<rparr>, False) = (e2, s2, ch)"
  shows "toolCalls (snd (apply_message env m s)) = toolCalls s2
     \<and> seenToolCalls (snd (apply_message env m s)) = seenToolCalls s2"
proof (cases "get_prop m ''role'' = Some (JStr ''assistant'')")
  case False
  with ex have "calls = []" by (simp add: extractAssistantToolCalls_def)
  with rc False show ?thesis by (auto simp: apply_message_other_role)
next
  case True
  obtain e s' where am: "apply_message env m s = (e, s')"
    by (cases "apply_message env m s") auto
  from apply_message_cases [OF am] True ex rc am show ?thesis
    by (elim disjE conjE exE) auto
qed

lemma processLine_records:
  assumes "decode env line = Some m" "extractAssistantToolCalls m = Inr calls"
    "list_all well_typed_call calls" "dedup_inv env s"
  shows "dedup_inv env (snd (processLine env line s))
     \<and> (\<forall>c \<in> set calls. dedup_key env c \<in> Inr ` seenToolCalls (snd (processLine env line s)))"
proof -
  let ?s1 = "s\<lparr>messages := messages s @ [m]\<rparr>"
  obtain e2 s2 ch where rc: "record_calls env calls (?s1, False) = (e2, s2, ch)"
    by (cases "record_calls env calls (?s1, False)") auto
  have inv1: "dedup_inv env ?s1"
    using assms(4) dedup_inv_cong [of ?s1 s env] by simp
  from record_calls_inv [OF assms(3) inv1 rc]
  have i2: "dedup_inv env s2" and k2: "\<forall>c \<in> set calls. dedup_key env c \<in> Inr ` seenToolCalls s2"
    by simp_all
  from apply_message_calls [OF assms(2,3) rc] assms(1)
  have t: "toolCalls (snd (processLine env line s)) = toolCalls s2"
    and u: "seenToolCalls (snd (processLine env line s)) = seenToolCalls s2"
    by (simp_all add: processLine_def)
  from i2 k2 t u dedup_inv_cong [OF t u, of env] show ?thesis by simp
qed

lemma processLine_repeat:
  assumes "decode env line = Some m" "extractAssistantToolCalls m = Inr calls"
    "list_all well_typed_call calls"
    "\<forall>c \<in> set calls. dedup_key env c \<in> Inr ` seenToolCalls s"
  shows "toolCalls (snd (processLine env line s)) = toolCalls s
     \<and> seenToolCalls (snd (processLine env line s)) = seenToolCalls s"
proof -
  let ?s1 = "s\<lparr>messages := messages s @ [m]\<rparr>"
  have "\<forall>c \<in> set calls. dedup_key env c \<in> Inr ` seenToolCalls ?s1" using assms(4) by simp
  from record_calls_seen [OF assms(3) this]
  have rc: "record_calls env calls (?s1, False) = (None, ?s1, False)" .
  from apply_message_calls [OF assms(2,3) rc] assms(1) show ?thesis
    by (simp add: processLine_def)
qed

lemma well_typed_key_text:
  assumes "well_typed_call c"
  shows "dedup_key env c =
     Inr (JStr (case call_id c of
                  Some (JStr i) \<Rightarrow>
                    if i \<noteq> [] then i
                    else (case call_name c of Some (JStr n) \<Rightarrow> n | _ \<Rightarrow> [])
                         @ '':'' @ JSON_stringify env (call_arguments c)
                | _ \<Rightarrow> (case call_name c of Some (JStr n) \<Rightarrow> n | _ \<Rightarrow> [])
                         @ '':'' @ JSON_stringify env (call_arguments c)))"
  using assms
  by (auto simp: well_typed_call_def dedup_key_def composite_key_def template_String_def
           split: option.splits json.splits)


section \<open>The sample run, evaluated\<close>

lemma trim_sample_lines:
  "trim tool_line = tool_line" "trim text_line_A = text_line_A" "trim text_line_B = text_line_B"
  "trim blank_line = blank_line" "trim user_line = user_line" "trim turn_line = turn_line"
  by (simp_all add: trim_def is_space_def tool_line_def text_line_A_def text_line_B_def
        blank_line_def user_line_def turn_line_def)

lemma sample_lines_nonempty:
  "tool_line \<noteq> []" "text_line_A \<noteq> []" "text_line_B \<noteq> []"
  "blank_line \<noteq> []" "user_line \<noteq> []" "turn_line \<noteq> []"
  by (simp_all add: tool_line_def text_line_A_def text_line_B_def
        blank_line_def user_line_def turn_line_def)

lemma sample_parse_simps:
  "sample_parse tool_line = Some (message_end tool_message)"
  "sample_parse text_line_A = Some (message_end text_message_A)"
  "sample_parse text_line_B = Some (message_end text_message_B)"
  "sample_parse blank_line = Some (message_end blank_message)"
  "sample_parse user_line = Some (message_end user_message)"
  "sample_parse turn_line = Some (JObj [(''type'', JStr ''turn_start'')])"
  by (simp_all add: sample_parse_def tool_line_def text_line_A_def text_line_B_def
        blank_line_def user_line_def turn_line_def)

lemma sample_decode:
  "decode sample_env tool_line = Some tool_message"
  "decode sample_env text_line_A = Some text_message_A"
  "decode sample_env text_line_B = Some text_message_B"
  "decode sample_env blank_line = Some blank_message"
  "decode sample_env user_line = Some user_message"
  "decode sample_env turn_line = None"
  by (simp_all add: decode_def trim_sample_lines sample_lines_nonempty sample_env_def sample_parse_simps message_end_def
        tool_message_def text_message_A_def text_message_B_def blank_message_def user_message_def)

lemma sample_extract:
  "extractAssistantToolCalls tool_message = Inr [ls_call]"
  "extractAssistantText text_message_A = Inr ''A''"
  "extractAssistantText text_message_B = Inr ''B''"
  "extractAssistantText blank_message = Inr []"
  "extractAssistantText tool_message = Inr []"
  by (simp_all add: extractAssistantToolCalls_def extractAssistantText_def iterate_def
        tool_message_def text_message_A_def text_message_B_def blank_message_def
        make_call_def ls_call_def join_element_def trim_def is_space_def)


lemma sample_fields:
  "get_prop text_message_A ''role'' = Some (JStr ''assistant'')"
  "get_prop text_message_B ''role'' = Some (JStr ''assistant'')"
  "get_prop blank_message ''role'' = Some (JStr ''assistant'')"
  "get_prop user_message ''role'' = Some (JStr ''user'')"
  "extractAssistantToolCalls text_message_A = Inr []"
  "extractAssistantToolCalls text_message_B = Inr []"
  "extractAssistantToolCalls blank_message = Inr []"
  "get_prop text_message_A ''stopReason'' = None" "get_prop text_message_A ''errorMessage'' = None"
  "get_prop text_message_A ''model'' = None"
  "get_prop text_message_B ''stopReason'' = None" "get_prop text_message_B ''errorMessage'' = None"
  "get_prop text_message_B ''model'' = None"
  "get_prop blank_message ''stopReason'' = None" "get_prop blank_message ''errorMessage'' = None"
  "get_prop blank_message ''model'' = None"
  by (simp_all add: text_message_A_def text_message_B_def blank_message_def user_message_def
        extractAssistantToolCalls_def iterate_def)

lemma sample_processLine:
  "processLine sample_env text_line_A s =
     (None, emitProgress (s\<lparr>messages := messages s @ [text_message_A], finalText := ''A''\<rparr>))"
  "processLine sample_env text_line_B s =
     (None, emitProgress (s\<lparr>messages := messages s @ [text_message_B], finalText := ''B''\<rparr>))"
  "processLine sample_env blank_line s = (None, s\<lparr>messages := messages s @ [blank_message]\<rparr>)"
  "processLine sample_env user_line s = (None, s\<lparr>messages := messages s @ [user_message]\<rparr>)"
  by (simp_all add: processLine_def sample_decode apply_message_def sample_extract sample_fields)


text \<open>The two messages with several parts.\<close>

lemma sample_decode_parts:
  "decode sample_env parts_line = Some parts_message"
  "decode sample_env clash_line = Some clash_message"
  by (simp_all add: decode_def trim_def is_space_def sample_env_def sample_parse_def
        message_end_def parts_message_def clash_message_def parts_line_def clash_line_def
        tool_line_def text_line_A_def text_line_B_def blank_line_def user_line_def
        turn_line_def)

lemma sample_extract_parts:
  "extractAssistantText parts_message = Inr (''A'' @ [CHR 0x0A] @ ''C'')"
  "extractAssistantToolCalls parts_message = Inr []"
  "extractAssistantToolCalls clash_message = Inr [rm_call, plain_ls_call]"
  "extractAssistantText clash_message = Inr []"
  by (simp_all add: extractAssistantToolCalls_def extractAssistantText_def iterate_def
        parts_message_def parts_content_def clash_message_def make_call_def rm_call_def
        plain_ls_call_def join_element_def trim_def is_space_def)

lemma sample_fields_parts:
  "get_prop parts_message ''role'' = Some (JStr ''assistant'')"
  "get_prop parts_message ''content'' = Some (JArr parts_content)"
  "get_prop parts_message ''stopReason'' = None" "get_prop parts_message ''errorMessage'' = None"
  "get_prop parts_message ''model'' = None"
  "get_prop clash_message ''role'' = Some (JStr ''assistant'')"
  "get_prop clash_message ''stopReason'' = None" "get_prop clash_message ''errorMessage'' = None"
  "get_prop clash_message ''model'' = None"
  by (simp_all add: parts_message_def clash_message_def)

lemma sample_processLine_parts:
  "processLine sample_env parts_line s =
     (None, emitProgress (s\<lparr>messages := messages s @ [parts_message],
                            finalText := ''A'' @ [CHR 0x0A] @ ''C''\<rparr>))"
  by (simp add: processLine_def sample_decode_parts apply_message_def sample_extract_parts
        sample_fields_parts)

lemma sample_processLine_bare:
  "processLine sample_env bare_line s
     = (Some TypeError, s\<lparr>messages := messages s @ [bare_message]\<rparr>)"
  by (simp add: processLine_def decode_def trim_def is_space_def sample_env_def sample_parse_def
        message_end_def bare_message_def bare_line_def parts_line_def clash_line_def
        tool_line_def text_line_A_def text_line_B_def blank_line_def user_line_def
        turn_line_def apply_message_def extractAssistantToolCalls_def iterate_def)


section \<open>The extracted text: auxiliary facts\<close>

lemma join_elements_typed:
  "list_all typed_part parts \<Longrightarrow>
   join_elements (map (\<lambda>part. get_prop part ''text'') (filter text_typed parts))
     = Inr (map text_of (filter text_typed parts))"
proof (induction parts)
  case Nil
  show ?case by simp
next
  case (Cons p parts)
  then have ih: "join_elements (map (\<lambda>part. get_prop part ''text'') (filter text_typed parts))
     = Inr (map text_of (filter text_typed parts))" by simp
  show ?case
  proof (cases "text_typed p")
    case False
    with ih show ?thesis by simp
  next
    case True
    with Cons.prems obtain t where t: "get_prop p ''text'' = Some (JStr t)"
      by (auto simp: typed_part_def split: option.splits json.splits)
    with True ih show ?thesis by (simp add: join_element_def text_of_def)
  qed
qed

lemma extractAssistantText_joined:
  assumes "get_prop m ''role'' = Some (JStr ''assistant'')"
    and "get_prop m ''content'' = Some (JArr parts)"
    and "list_all typed_part parts"
  shows "extractAssistantText m = Inr (joined_text parts)"
proof -
  from assms(3) have n: "JNull \<notin> set parts" by (auto simp: list_all_iff typed_part_def)
  have f: "filter (\<lambda>part. get_prop part ''type'' = Some (JStr ''text'')) parts
      = filter text_typed parts"
    by (simp add: text_typed_def cong: filter_cong)
  show ?thesis
    using assms(1,2) n join_elements_typed [OF assms(3)]
    by (simp add: extractAssistantText_def joined_text_def f)
qed

lemma extractAssistantText_other_role:
  "get_prop m ''role'' \<noteq> Some (JStr ''assistant'') \<Longrightarrow> extractAssistantText m = Inr []"
  by (simp add: extractAssistantText_def)


section \<open>The recorded calls: more auxiliary facts\<close>

lemma record_calls_mono:
  "record_calls env calls (s, ch) = (e, s', ch') \<Longrightarrow> set (toolCalls s) \<subseteq> set (toolCalls s')"
proof (induction calls arbitrary: s ch)
  case Nil
  then show ?case by simp
next
  case (Cons c calls)
  show ?case
  proof (cases "dedup_key env c")
    case (Inl err)
    with Cons.prems show ?thesis by simp
  next
    case (Inr key)
    show ?thesis
    proof (cases "seen_has (seenToolCalls s) key")
      case True
      with Cons Inr show ?thesis by simp
    next
      case False
      with Cons.prems Inr have
        "record_calls env calls
           (s\<lparr>seenToolCalls := insert key (seenToolCalls s), toolCalls := toolCalls s @ [c]\<rparr>, True)
         = (e, s', ch')" by simp
      from Cons.IH [OF this] show ?thesis by simp
    qed
  qed
qed

text \<open>
  A call whose key is new, in the state and among the calls before it in the message, is
  recorded.
\<close>

lemma record_calls_first:
  assumes "list_all well_typed_call (pre @ c # rest)"
    and "record_calls env (pre @ c # rest) (s, ch) = (e, s', ch')"
    and "dedup_key env c \<notin> Inr ` seenToolCalls s"
    and "dedup_key env c \<notin> dedup_key env ` set pre"
  shows "c \<in> set (toolCalls s')"
  using assms
proof (induction pre arbitrary: s ch)
  case Nil
  from Nil.prems(1) obtain k where k: "dedup_key env c = Inr (JStr k)"
    using well_typed_key [of c env] by auto
  with Nil.prems(3) have "JStr k \<notin> seenToolCalls s" by auto
  with Nil.prems(2) k have "record_calls env rest
      (s\<lparr>seenToolCalls := insert (JStr k) (seenToolCalls s), toolCalls := toolCalls s @ [c]\<rparr>, True)
      = (e, s', ch')" by (simp add: seen_has_JStr)
  from record_calls_mono [OF this] show ?case by simp
next
  case (Cons a pre)
  from Cons.prems(1) obtain k where k: "dedup_key env a = Inr (JStr k)"
    using well_typed_key [of a env] by auto
  from Cons.prems(1) have wt: "list_all well_typed_call (pre @ c # rest)" by simp
  from Cons.prems(4) have ne: "dedup_key env c \<noteq> dedup_key env a"
    and np: "dedup_key env c \<notin> dedup_key env ` set pre" by auto
  show ?case
  proof (cases "JStr k \<in> seenToolCalls s")
    case True
    with Cons.prems(2) k have "record_calls env (pre @ c # rest) (s, ch) = (e, s', ch')"
      by (simp add: seen_has_JStr)
    from Cons.IH [OF wt this Cons.prems(3) np] show ?thesis .
  next
    case False
    let ?s1 = "s\<lparr>seenToolCalls := insert (JStr k) (seenToolCalls s), toolCalls := toolCalls s @ [a]\<rparr>"
    from False Cons.prems(2) k have r: "record_calls env (pre @ c # rest) (?s1, True) = (e, s', ch')"
      by (simp add: seen_has_JStr)
    from Cons.prems(3) ne k have "dedup_key env c \<notin> Inr ` seenToolCalls ?s1" by auto
    from Cons.IH [OF wt r this np] show ?thesis .
  qed
qed

lemma processLine_first:
  assumes "decode env line = Some m" "extractAssistantToolCalls m = Inr (pre @ c # rest)"
    "list_all well_typed_call (pre @ c # rest)"
    and "dedup_key env c \<notin> Inr ` seenToolCalls s"
    and "dedup_key env c \<notin> dedup_key env ` set pre"
  shows "c \<in> set (toolCalls (snd (processLine env line s)))"
proof -
  let ?s1 = "s\<lparr>messages := messages s @ [m]\<rparr>"
  obtain e2 s2 ch where rc: "record_calls env (pre @ c # rest) (?s1, False) = (e2, s2, ch)"
    by (cases "record_calls env (pre @ c # rest) (?s1, False)") auto
  from assms(4) have "dedup_key env c \<notin> Inr ` seenToolCalls ?s1" by simp
  from record_calls_first [OF assms(3) rc this assms(5)] have "c \<in> set (toolCalls s2)" .
  with apply_message_calls [OF assms(2,3) rc] assms(1) show ?thesis
    by (simp add: processLine_def)
qed

lemma distinct_count:
  "distinct xs \<Longrightarrow> c \<in> set xs \<Longrightarrow> length (filter (\<lambda>d. d = c) xs) = 1"
  using distinct_map_count [of "\<lambda>d. d" xs c] by simp

lemma dedup_inv_distinct: "dedup_inv env s \<Longrightarrow> distinct (toolCalls s)"
  by (auto simp: dedup_inv_def distinct_map)


section \<open>The event loop: auxiliary facts\<close>

lemma same_process_control: "same_process s s' \<Longrightarrow> same_control s s'"
  by (simp add: same_process_def same_control_def)

lemma on_stdout_data_control:
  assumes "on_stdout_data env d s = (err, s')"
  shows "same_control s s' \<and> stderr s' = stderr s"
proof -
  obtain ls b where f: "feed env (buffer s) d = (ls, b)" by (cases "feed env (buffer s) d") auto
  with assms have "process_lines env ls (s\<lparr>buffer := b\<rparr>) = (err, s')"
    by (simp add: on_stdout_data_def)
  from process_lines_frame [OF this] show ?thesis
    by (simp add: same_process_def same_control_def)
qed

lemma on_close_effect:
  assumes "on_close env code s = (err, s')"
  shows "(\<exists>e. err = Some e \<and> same_process s s')
     \<or> (err = None \<and> (\<exists>s1. same_process s s1
            \<and> s' = resolveOnce (case code of Some c \<Rightarrow> c | None \<Rightarrow> 0) s1))"
proof -
  obtain e1 s1 where p: "(case flush (buffer s) of Some line \<Rightarrow> processLine env line s
      | None \<Rightarrow> (None, s)) = (e1, s1)"
    by (cases "case flush (buffer s) of Some line \<Rightarrow> processLine env line s | None \<Rightarrow> (None, s)") auto
  have sp: "same_process s s1"
  proof (cases "flush (buffer s)")
    case None
    with p show ?thesis by (simp add: same_process_refl)
  next
    case (Some line)
    with p have "processLine env line s = (e1, s1)" by simp
    then show ?thesis by (rule processLine_frame)
  qed
  show ?thesis
  proof (cases e1)
    case None
    with assms p sp show ?thesis by (auto simp: on_close_def)
  next
    case (Some e)
    with assms p sp show ?thesis by (auto simp: on_close_def)
  qed
qed

lemma step_stdout:
  assumes "dispatch env e s = (err, s')" and ev: "e = StdoutData d"
  shows "(aborted s' \<longleftrightarrow> aborted s \<or> (e = Abort \<and> abort_listener s))
     \<and> (proc_alive s' \<longrightarrow> proc_alive s)
     \<and> (e \<noteq> ProcExit \<and> (\<forall>c. e \<noteq> ProcClose c) \<and> (\<forall>n m. e \<noteq> ProcError n m) \<longrightarrow> proc_alive s' = proc_alive s)
     \<and> (\<not> proc_alive s \<longrightarrow> signals s' = signals s)
     \<and> (proc_killed s \<longrightarrow> proc_killed s')
     \<and> (settled s \<longrightarrow> settled s' \<and> promise s' = promise s)
     \<and> (promise s' = None \<longrightarrow> promise s = None)
     \<and> (\<not> settled s \<and> promise s' = None \<longrightarrow> \<not> settled s')
     \<and> (\<not> settled s \<and> err = None \<and> ((\<exists>c. e = ProcClose c) \<or> (\<exists>n m. e = ProcError n m)) \<longrightarrow> promise s' \<noteq> None)
     \<and> (e \<noteq> Abort \<longrightarrow> abort_listener s' = abort_listener s)
     \<and> (e \<noteq> Abort \<and> timeout s = None \<longrightarrow>
           timeout s' = None \<and> signals s' = signals s \<and> proc_killed s' = proc_killed s)"
  using assms on_stdout_data_control [of env d s err s']
  by (simp add: same_control_def)

lemma step_stderr:
  assumes "dispatch env e s = (err, s')" and ev: "e = StderrData d"
  shows "(aborted s' \<longleftrightarrow> aborted s \<or> (e = Abort \<and> abort_listener s))
     \<and> (proc_alive s' \<longrightarrow> proc_alive s)
     \<and> (e \<noteq> ProcExit \<and> (\<forall>c. e \<noteq> ProcClose c) \<and> (\<forall>n m. e \<noteq> ProcError n m) \<longrightarrow> proc_alive s' = proc_alive s)
     \<and> (\<not> proc_alive s \<longrightarrow> signals s' = signals s)
     \<and> (proc_killed s \<longrightarrow> proc_killed s')
     \<and> (settled s \<longrightarrow> settled s' \<and> promise s' = promise s)
     \<and> (promise s' = None \<longrightarrow> promise s = None)
     \<and> (\<not> settled s \<and> promise s' = None \<longrightarrow> \<not> settled s')
     \<and> (\<not> settled s \<and> err = None \<and> ((\<exists>c. e = ProcClose c) \<or> (\<exists>n m. e = ProcError n m)) \<longrightarrow> promise s' \<noteq> None)
     \<and> (e \<noteq> Abort \<longrightarrow> abort_listener s' = abort_listener s)
     \<and> (e \<noteq> Abort \<and> timeout s = None \<longrightarrow>
           timeout s' = None \<and> signals s' = signals s \<and> proc_killed s' = proc_killed s)"
  using assms by (simp add: on_stderr_data_def) auto

lemma step_exit:
  assumes "dispatch env e s = (err, s')" and ev: "e = ProcExit"
  shows "(aborted s' \<longleftrightarrow> aborted s \<or> (e = Abort \<and> abort_listener s))
     \<and> (proc_alive s' \<longrightarrow> proc_alive s)
     \<and> (e \<noteq> ProcExit \<and> (\<forall>c. e \<noteq> ProcClose c) \<and> (\<forall>n m. e \<noteq> ProcError n m) \<longrightarrow> proc_alive s' = proc_alive s)
     \<and> (\<not> proc_alive s \<longrightarrow> signals s' = signals s)
     \<and> (proc_killed s \<longrightarrow> proc_killed s')
     \<and> (settled s \<longrightarrow> settled s' \<and> promise s' = promise s)
     \<and> (promise s' = None \<longrightarrow> promise s = None)
     \<and> (\<not> settled s \<and> promise s' = None \<longrightarrow> \<not> settled s')
     \<and> (\<not> settled s \<and> err = None \<and> ((\<exists>c. e = ProcClose c) \<or> (\<exists>n m. e = ProcError n m)) \<longrightarrow> promise s' \<noteq> None)
     \<and> (e \<noteq> Abort \<longrightarrow> abort_listener s' = abort_listener s)
     \<and> (e \<noteq> Abort \<and> timeout s = None \<longrightarrow>
           timeout s' = None \<and> signals s' = signals s \<and> proc_killed s' = proc_killed s)"
  using assms by simp auto

lemma step_error:
  assumes "dispatch env e s = (err, s')" and ev: "e = ProcError n m"
  shows "(aborted s' \<longleftrightarrow> aborted s \<or> (e = Abort \<and> abort_listener s))
     \<and> (proc_alive s' \<longrightarrow> proc_alive s)
     \<and> (e \<noteq> ProcExit \<and> (\<forall>c. e \<noteq> ProcClose c) \<and> (\<forall>n m. e \<noteq> ProcError n m) \<longrightarrow> proc_alive s' = proc_alive s)
     \<and> (\<not> proc_alive s \<longrightarrow> signals s' = signals s)
     \<and> (proc_killed s \<longrightarrow> proc_killed s')
     \<and> (settled s \<longrightarrow> settled s' \<and> promise s' = promise s)
     \<and> (promise s' = None \<longrightarrow> promise s = None)
     \<and> (\<not> settled s \<and> promise s' = None \<longrightarrow> \<not> settled s')
     \<and> (\<not> settled s \<and> err = None \<and> ((\<exists>c. e = ProcClose c) \<or> (\<exists>n m. e = ProcError n m)) \<longrightarrow> promise s' \<noteq> None)
     \<and> (e \<noteq> Abort \<longrightarrow> abort_listener s' = abort_listener s)
     \<and> (e \<noteq> Abort \<and> timeout s = None \<longrightarrow>
           timeout s' = None \<and> signals s' = signals s \<and> proc_killed s' = proc_killed s)"
  using assms by (cases "settled s") (simp_all add: on_error_def resolveOnce_def, auto)

lemma step_abort:
  assumes "dispatch env e s = (err, s')" and ev: "e = Abort"
  shows "(aborted s' \<longleftrightarrow> aborted s \<or> (e = Abort \<and> abort_listener s))
     \<and> (proc_alive s' \<longrightarrow> proc_alive s)
     \<and> (e \<noteq> ProcExit \<and> (\<forall>c. e \<noteq> ProcClose c) \<and> (\<forall>n m. e \<noteq> ProcError n m) \<longrightarrow> proc_alive s' = proc_alive s)
     \<and> (\<not> proc_alive s \<longrightarrow> signals s' = signals s)
     \<and> (proc_killed s \<longrightarrow> proc_killed s')
     \<and> (settled s \<longrightarrow> settled s' \<and> promise s' = promise s)
     \<and> (promise s' = None \<longrightarrow> promise s = None)
     \<and> (\<not> settled s \<and> promise s' = None \<longrightarrow> \<not> settled s')
     \<and> (\<not> settled s \<and> err = None \<and> ((\<exists>c. e = ProcClose c) \<or> (\<exists>n m. e = ProcError n m)) \<longrightarrow> promise s' \<noteq> None)
     \<and> (e \<noteq> Abort \<longrightarrow> abort_listener s' = abort_listener s)
     \<and> (e \<noteq> Abort \<and> timeout s = None \<longrightarrow>
           timeout s' = None \<and> signals s' = signals s \<and> proc_killed s' = proc_killed s)"
  using assms
  by (cases "abort_listener s"; cases "proc_alive s") (simp_all add: kill_def proc_kill_def, auto)

lemma on_timeout_killed: "proc_killed s \<Longrightarrow> on_timeout s = s"
  by (simp add: on_timeout_def)

lemma on_timeout_gone: "\<not> proc_killed s \<Longrightarrow> \<not> proc_alive s \<Longrightarrow> on_timeout s = s"
  by (simp add: on_timeout_def proc_kill_def)

lemma on_timeout_alive:
  "\<not> proc_killed s \<Longrightarrow> proc_alive s \<Longrightarrow>
   on_timeout s = s\<lparr>signals := signals s @ [SIGKILL], proc_killed := True\<rparr>"
  by (simp add: on_timeout_def proc_kill_def)

lemma step_timeout:
  assumes "dispatch env e s = (err, s')" and ev: "e = Timeout"
  shows "(aborted s' \<longleftrightarrow> aborted s \<or> (e = Abort \<and> abort_listener s))
     \<and> (proc_alive s' \<longrightarrow> proc_alive s)
     \<and> (e \<noteq> ProcExit \<and> (\<forall>c. e \<noteq> ProcClose c) \<and> (\<forall>n m. e \<noteq> ProcError n m) \<longrightarrow> proc_alive s' = proc_alive s)
     \<and> (\<not> proc_alive s \<longrightarrow> signals s' = signals s)
     \<and> (proc_killed s \<longrightarrow> proc_killed s')
     \<and> (settled s \<longrightarrow> settled s' \<and> promise s' = promise s)
     \<and> (promise s' = None \<longrightarrow> promise s = None)
     \<and> (\<not> settled s \<and> promise s' = None \<longrightarrow> \<not> settled s')
     \<and> (\<not> settled s \<and> err = None \<and> ((\<exists>c. e = ProcClose c) \<or> (\<exists>n m. e = ProcError n m)) \<longrightarrow> promise s' \<noteq> None)
     \<and> (e \<noteq> Abort \<longrightarrow> abort_listener s' = abort_listener s)
     \<and> (e \<noteq> Abort \<and> timeout s = None \<longrightarrow>
           timeout s' = None \<and> signals s' = signals s \<and> proc_killed s' = proc_killed s)"
proof -
  from assms have err: "err = None"
    and s': "s' = (case timeout s of None \<Rightarrow> s | Some d \<Rightarrow> on_timeout (s\<lparr>timeout := None\<rparr>))"
    by simp_all
  show ?thesis
  proof (cases "timeout s")
    case None
    with s' have "s' = s" by simp
    with ev None show ?thesis by simp
  next
    case (Some d)
    let ?t = "s\<lparr>timeout := None\<rparr>"
    from Some s' have eq: "s' = on_timeout ?t" by simp
    show ?thesis
    proof (cases "proc_killed s")
      case True
      then have "on_timeout ?t = ?t" by (intro on_timeout_killed) simp
      with eq have "s' = ?t" by simp
      with ev Some True show ?thesis by simp
    next
      case nk: False
      show ?thesis
      proof (cases "proc_alive s")
        case False
        with nk have "on_timeout ?t = ?t" by (intro on_timeout_gone) simp_all
        with eq have "s' = ?t" by simp
        with ev Some nk False show ?thesis by simp
      next
        case True
        with nk have "on_timeout ?t = ?t\<lparr>signals := signals ?t @ [SIGKILL], proc_killed := True\<rparr>"
          by (intro on_timeout_alive) simp_all
        with eq have "s' = ?t\<lparr>signals := signals ?t @ [SIGKILL], proc_killed := True\<rparr>" by simp
        with ev Some nk True show ?thesis by simp
      qed
    qed
  qed
qed

lemma step_close:
  assumes "dispatch env e s = (err, s')" and ev: "e = ProcClose code"
  shows "(aborted s' \<longleftrightarrow> aborted s \<or> (e = Abort \<and> abort_listener s))
     \<and> (proc_alive s' \<longrightarrow> proc_alive s)
     \<and> (e \<noteq> ProcExit \<and> (\<forall>c. e \<noteq> ProcClose c) \<and> (\<forall>n m. e \<noteq> ProcError n m) \<longrightarrow> proc_alive s' = proc_alive s)
     \<and> (\<not> proc_alive s \<longrightarrow> signals s' = signals s)
     \<and> (proc_killed s \<longrightarrow> proc_killed s')
     \<and> (settled s \<longrightarrow> settled s' \<and> promise s' = promise s)
     \<and> (promise s' = None \<longrightarrow> promise s = None)
     \<and> (\<not> settled s \<and> promise s' = None \<longrightarrow> \<not> settled s')
     \<and> (\<not> settled s \<and> err = None \<and> ((\<exists>c. e = ProcClose c) \<or> (\<exists>n m. e = ProcError n m)) \<longrightarrow> promise s' \<noteq> None)
     \<and> (e \<noteq> Abort \<longrightarrow> abort_listener s' = abort_listener s)
     \<and> (e \<noteq> Abort \<and> timeout s = None \<longrightarrow>
           timeout s' = None \<and> signals s' = signals s \<and> proc_killed s' = proc_killed s)"
proof -
  from assms have oc: "on_close env code (s\<lparr>proc_alive := False\<rparr>) = (err, s')" by simp
  let ?s0 = "s\<lparr>proc_alive := False\<rparr>"
  from on_close_effect [OF oc] show ?thesis
  proof (elim disjE exE conjE)
    fix e1 assume "err = Some e1" "same_process ?s0 s'"
    with ev show ?thesis by (simp add: same_process_def)
  next
    fix s1 assume n: "err = None" and sp: "same_process ?s0 s1"
      and r: "s' = resolveOnce (case code of Some c \<Rightarrow> c | None \<Rightarrow> 0) s1"
    show ?thesis
    proof (cases "settled s")
      case True
      with sp r have "s' = s1" by (simp add: resolveOnce_def same_process_def)
      with sp ev True show ?thesis by (simp add: same_process_def)
    next
      case False
      with sp r have "s' = s1\<lparr>settled := True, promise := Some (case code of Some c \<Rightarrow> c | None \<Rightarrow> 0)\<rparr>"
        by (simp add: resolveOnce_def same_process_def)
      with sp ev False show ?thesis by (simp add: same_process_def)
    qed
  qed
qed

text \<open>What one event does to the control part of the state.\<close>

lemma dispatch_step:
  assumes "dispatch env e s = (err, s')"
  shows "(aborted s' \<longleftrightarrow> aborted s \<or> (e = Abort \<and> abort_listener s))
     \<and> (proc_alive s' \<longrightarrow> proc_alive s)
     \<and> (e \<noteq> ProcExit \<and> (\<forall>c. e \<noteq> ProcClose c) \<and> (\<forall>n m. e \<noteq> ProcError n m) \<longrightarrow> proc_alive s' = proc_alive s)
     \<and> (\<not> proc_alive s \<longrightarrow> signals s' = signals s)
     \<and> (proc_killed s \<longrightarrow> proc_killed s')
     \<and> (settled s \<longrightarrow> settled s' \<and> promise s' = promise s)
     \<and> (promise s' = None \<longrightarrow> promise s = None)
     \<and> (\<not> settled s \<and> promise s' = None \<longrightarrow> \<not> settled s')
     \<and> (\<not> settled s \<and> err = None \<and> ((\<exists>c. e = ProcClose c) \<or> (\<exists>n m. e = ProcError n m)) \<longrightarrow> promise s' \<noteq> None)
     \<and> (e \<noteq> Abort \<longrightarrow> abort_listener s' = abort_listener s)
     \<and> (e \<noteq> Abort \<and> timeout s = None \<longrightarrow>
           timeout s' = None \<and> signals s' = signals s \<and> proc_killed s' = proc_killed s)"
proof (cases e)
  case (StdoutData d)
  from step_stdout [OF assms this] show ?thesis .
next
  case (StderrData d)
  from step_stderr [OF assms this] show ?thesis .
next
  case ProcExit
  from step_exit [OF assms this] show ?thesis .
next
  case (ProcClose code)
  from step_close [OF assms this] show ?thesis .
next
  case (ProcError n m)
  from step_error [OF assms this] show ?thesis .
next
  case Abort
  from step_abort [OF assms this] show ?thesis .
next
  case Timeout
  from step_timeout [OF assms this] show ?thesis .
qed


lemma after_await_not_Pending: "after_await code s \<noteq> Pending"
  by (simp add: after_await_def)

lemma event_loop_Cons_Pending:
  assumes "event_loop env s (e # es) = (Pending, sf)"
  shows "\<exists>s'. dispatch env e s = (None, s') \<and> promise s' = None
            \<and> event_loop env s' es = (Pending, sf)"
proof -
  obtain err s' where d: "dispatch env e s = (err, s')" by (cases "dispatch env e s") auto
  show ?thesis
  proof (cases err)
    case (Some x)
    with assms d show ?thesis by simp
  next
    case None
    show ?thesis
    proof (cases "promise s'")
      case (Some code)
      with assms d None after_await_not_Pending [of code s'] show ?thesis by simp
    next
      case np: None
      with assms d None show ?thesis by simp
    qed
  qed
qed

lemma event_loop_append:
  "event_loop env s pre = (Pending, sm) \<Longrightarrow> event_loop env s (pre @ es) = event_loop env sm es"
proof (induction pre arbitrary: s)
  case Nil
  then show ?case by simp
next
  case (Cons e pre)
  from event_loop_Cons_Pending [OF Cons.prems]
  obtain s' where d: "dispatch env e s = (None, s')" and p: "promise s' = None"
    and r: "event_loop env s' pre = (Pending, sm)" by blast
  from Cons.IH [OF r] d p show ?case by simp
qed

lemma pending_prefix:
  assumes "event_loop env s0 pre = (Pending, s)" "\<not> settled s0" "promise s0 = None"
  shows "promise s = None \<and> \<not> settled s
     \<and> (Abort \<notin> set pre \<longrightarrow> abort_listener s = abort_listener s0 \<and> aborted s = aborted s0)
     \<and> (Abort \<notin> set pre \<and> timeout s0 = None \<longrightarrow>
          timeout s = None \<and> signals s = signals s0 \<and> proc_killed s = proc_killed s0)
     \<and> (ProcExit \<notin> set pre \<longrightarrow> proc_alive s = proc_alive s0)"
  using assms
proof (induction pre arbitrary: s0)
  case Nil
  then show ?case by simp
next
  case (Cons e pre)
  from event_loop_Cons_Pending [OF Cons.prems(1)]
  obtain s' where d: "dispatch env e s0 = (None, s')" and p: "promise s' = None"
    and r: "event_loop env s' pre = (Pending, s)" by blast
  note st = dispatch_step [OF d]
  from st p Cons.prems(2) have ns: "\<not> settled s'" by blast
  note ih = Cons.IH [OF r ns p]
  have c1: "promise s = None" and c2: "\<not> settled s" using ih by simp_all
  have c3: "abort_listener s = abort_listener s0 \<and> aborted s = aborted s0"
    if "Abort \<notin> set (e # pre)"
  proof -
    from that have "e \<noteq> Abort" "Abort \<notin> set pre" by auto
    with st ih show ?thesis by simp
  qed
  have c4: "timeout s = None \<and> signals s = signals s0 \<and> proc_killed s = proc_killed s0"
    if "Abort \<notin> set (e # pre)" "timeout s0 = None"
  proof -
    from that have ne: "e \<noteq> Abort" "Abort \<notin> set pre" by auto
    with st that(2) have "timeout s' = None" "signals s' = signals s0" "proc_killed s' = proc_killed s0"
      by simp_all
    with ih ne show ?thesis by simp
  qed
  have c5: "proc_alive s = proc_alive s0" if "ProcExit \<notin> set (e # pre)"
  proof -
    from that have ne: "e \<noteq> ProcExit" "ProcExit \<notin> set pre" by auto
    have "(\<forall>c. e \<noteq> ProcClose c) \<and> (\<forall>n m. e \<noteq> ProcError n m)"
      using st p Cons.prems(2) by blast
    with st ne have "proc_alive s' = proc_alive s0" by blast
    with ih ne show ?thesis by simp
  qed
  from c1 c2 c3 c4 c5 show ?case by blast
qed

lemma aborted_not_resolved:
  "aborted s \<Longrightarrow> fst (event_loop env s es) \<noteq> Resolved r"
proof (induction es arbitrary: s)
  case Nil
  show ?case by simp
next
  case (Cons e es)
  obtain err s' where d: "dispatch env e s = (err, s')" by (cases "dispatch env e s") auto
  from dispatch_step [OF d] Cons.prems have a: "aborted s'" by blast
  show ?case
  proof (cases err)
    case (Some x)
    with d show ?thesis by simp
  next
    case None
    show ?thesis
    proof (cases "promise s'")
      case (Some code)
      with d None a show ?thesis by (simp add: after_await_def)
    next
      case np: None
      with d None Cons.IH [OF a] show ?thesis by simp
    qed
  qed
qed

lemma drain_dead:
  "\<not> proc_alive s \<Longrightarrow> signals (drain env s es) = signals s"
proof (induction es arbitrary: s)
  case Nil
  show ?case by simp
next
  case (Cons e es)
  obtain err s' where d: "dispatch env e s = (err, s')" by (cases "dispatch env e s") auto
  from dispatch_step [OF d] Cons.prems have a: "\<not> proc_alive s'" "signals s' = signals s"
    by blast+
  show ?case
  proof (cases err)
    case (Some x)
    with d a show ?thesis by simp
  next
    case None
    with d a Cons.IH [OF a(1)] show ?thesis by simp
  qed
qed

lemma drain_settled:
  "settled s \<Longrightarrow> promise (drain env s es) = promise s"
proof (induction es arbitrary: s)
  case Nil
  show ?case by simp
next
  case (Cons e es)
  obtain err s' where d: "dispatch env e s = (err, s')" by (cases "dispatch env e s") auto
  from dispatch_step [OF d] Cons.prems have a: "settled s'" "promise s' = promise s"
    by blast+
  show ?case
  proof (cases err)
    case (Some x)
    with d a show ?thesis by simp
  next
    case None
    with d a Cons.IH [OF a(1)] show ?thesis by simp
  qed
qed

lemma start_listening:
  "\<not> settled (start spawned signal)" "promise (start spawned signal) = None"
  "abort_listener (start spawned (Some False))" "\<not> aborted (start spawned (Some False))"
  "timeout (start spawned (Some False)) = None" "signals (start spawned (Some False)) = []"
  "\<not> proc_killed (start spawned (Some False))"
  "proc_alive (start spawned (Some False)) = spawned"
  "\<not> aborted (start spawned None)" "aborted (start spawned (Some True))"
  by (simp_all add: start_def initial_def kill_def proc_kill_def split: option.splits)


lemma kill_fields:
  "aborted (kill s)" "buffer (kill s) = buffer s" "promise (kill s) = promise s"
  "settled (kill s) = settled s" "proc_alive (kill s) = proc_alive s"
  "signals (kill s) = (if proc_alive s then signals s @ [SIGTERM] else signals s)"
  "timeout (kill s) = Some 2000"
  by (simp_all add: kill_def proc_kill_def)

lemma rejected_is_abort:
  "fst (event_loop env s es) = Rejected e \<Longrightarrow> e = Error ''Subagent aborted''"
proof (induction es arbitrary: s)
  case Nil
  then show ?case by simp
next
  case (Cons ev es)
  obtain err s' where d: "dispatch env ev s = (err, s')" by (cases "dispatch env ev s") auto
  show ?case
  proof (cases err)
    case (Some x)
    with d Cons.prems show ?thesis by simp
  next
    case None
    show ?thesis
    proof (cases "promise s'")
      case (Some code)
      with d None Cons.prems show ?thesis by (simp add: after_await_def split: if_splits)
    next
      case np: None
      with d None Cons show ?thesis by simp
    qed
  qed
qed

lemma resolveOnce_fields:
  "proc_alive (resolveOnce c s) = proc_alive s" "signals (resolveOnce c s) = signals s"
  "aborted (resolveOnce c s) = aborted s" "settled (resolveOnce c s)"
  "promise (resolveOnce c s) = (if settled s then promise s else Some c)"
  by (simp_all add: resolveOnce_def)

lemma close_dead:
  assumes "dispatch env (ProcClose code) s = (err, s')"
  shows "\<not> proc_alive s'"
proof -
  from assms have "on_close env code (s\<lparr>proc_alive := False\<rparr>) = (err, s')" by simp
  from on_close_effect [OF this] show ?thesis
  proof (elim disjE exE conjE)
    fix e assume "same_process (s\<lparr>proc_alive := False\<rparr>) s'"
    then show ?thesis by (simp add: same_process_def)
  next
    fix s1 assume "same_process (s\<lparr>proc_alive := False\<rparr>) s1"
      "s' = resolveOnce (case code of Some c \<Rightarrow> c | None \<Rightarrow> 0) s1"
    then show ?thesis by (simp add: same_process_def resolveOnce_fields)
  qed
qed

lemma close_resolves:
  assumes "dispatch env (ProcClose code) s = (None, s')" "\<not> settled s"
  shows "promise s' = Some (case code of Some c \<Rightarrow> c | None \<Rightarrow> 0) \<and> settled s'"
proof -
  from assms have "on_close env code (s\<lparr>proc_alive := False\<rparr>) = (None, s')" by simp
  from on_close_effect [OF this] obtain s1 where
    sp: "same_process (s\<lparr>proc_alive := False\<rparr>) s1"
    and r: "s' = resolveOnce (case code of Some c \<Rightarrow> c | None \<Rightarrow> 0) s1" by auto
  from sp assms(2) have "\<not> settled s1" by (simp add: same_process_def)
  with r show ?thesis by (simp add: resolveOnce_fields)
qed

lemma close_without_flush:
  assumes "flush (buffer s) = None" "\<not> settled s"
  shows "dispatch env (ProcClose code) s =
     (None, s\<lparr>proc_alive := False, settled := True,
               promise := Some (case code of Some c \<Rightarrow> c | None \<Rightarrow> 0)\<rparr>)"
  using assms by (simp add: on_close_def resolveOnce_def)


lemma split_newline_line:
  "CHR 0x0A \<notin> set s \<Longrightarrow> split_newline (s @ [CHR 0x0A]) = [s, []]"
  by (induction s) auto

lemma feed_line:
  "toString env d = l @ [CHR 0x0A] \<Longrightarrow> CHR 0x0A \<notin> set (b @ l) \<Longrightarrow>
   feed env b d = ([b @ l], [])"
  using split_newline_line [of "b @ l"] by (simp add: feed_def)

lemma utf8_ascii: "\<forall>c \<in> set s. (of_char c :: nat) < 0x80 \<Longrightarrow> utf8 s = s"
  by (induction s rule: utf8.induct) auto

lemma sample_toString: "toString sample_env = utf8"
  by (simp add: sample_env_def)

lemma sample_lines_ascii:
  "utf8 (tool_line @ [CHR 0x0A]) = tool_line @ [CHR 0x0A]"
  "utf8 (text_line_A @ [CHR 0x0A]) = text_line_A @ [CHR 0x0A]"
  "utf8 (text_line_B @ [CHR 0x0A]) = text_line_B @ [CHR 0x0A]"
  "utf8 (blank_line @ [CHR 0x0A]) = blank_line @ [CHR 0x0A]"
  "utf8 (user_line @ [CHR 0x0A]) = user_line @ [CHR 0x0A]"
  by (rule utf8_ascii,
      simp add: tool_line_def text_line_A_def text_line_B_def blank_line_def user_line_def)+

lemma sample_lines_no_LF:
  "CHR 0x0A \<notin> set tool_line" "CHR 0x0A \<notin> set text_line_A" "CHR 0x0A \<notin> set text_line_B"
  "CHR 0x0A \<notin> set blank_line" "CHR 0x0A \<notin> set user_line"
  by (simp_all add: tool_line_def text_line_A_def text_line_B_def blank_line_def user_line_def)

lemma flush_empty: "flush [] = None"
  by (simp add: flush_def trim_def)

lemma sample_stdout:
  "buffer s = [] \<Longrightarrow>
   on_stdout_data sample_env (text_line_A @ [CHR 0x0A]) s =
     (None, emitProgress (s\<lparr>messages := messages s @ [text_message_A], finalText := ''A''\<rparr>))"
proof -
  assume b: "buffer s = []"
  have "feed sample_env (buffer s) (text_line_A @ [CHR 0x0A]) = ([text_line_A], [])"
    using feed_line [of sample_env "text_line_A @ [CHR 0x0A]" text_line_A "[]"]
      sample_lines_no_LF b
    by (simp add: sample_toString sample_lines_ascii)
  moreover from b have "s\<lparr>buffer := []\<rparr> = s" by simp
  ultimately show ?thesis by (simp add: on_stdout_data_def sample_processLine)
qed

lemma after_text_A_fields:
  "stderr after_text_A = []" "messages after_text_A = [text_message_A]"
  "finalText after_text_A = ''A''" "toolCalls after_text_A = []"
  "stopReason after_text_A = None" "errorMessage after_text_A = None"
  "model after_text_A = None" "buffer after_text_A = []" "\<not> settled after_text_A"
  by (simp_all add: after_text_A_def start_def initial_def)

lemma sample_pending:
  "event_loop sample_env (start True (Some False)) [StdoutData (text_line_A @ [CHR 0x0A])]
     = (Pending, after_text_A)"
proof -
  have b: "buffer (start True (Some False)) = []" by (simp add: start_def initial_def)
  show ?thesis
    by (simp add: sample_stdout [OF b] after_text_A_def emitProgress_def)
       (simp add: start_def initial_def)
qed


lemma sample_abort_run:
  "event_loop sample_env after_text_A [Abort, ProcClose None] =
     (Rejected (Error ''Subagent aborted''),
      after_text_A\<lparr>abort_listener := False, aborted := True, signals := [SIGTERM],
                    proc_killed := True, timeout := Some 2000, proc_alive := False,
                    settled := True, promise := Some 0\<rparr>)"
  by (simp add: after_text_A_def start_def initial_def kill_def proc_kill_def on_close_def
        flush_empty resolveOnce_def after_await_def)

lemma sample_options_fields:
  "signal_option sample_options = Some False" "spawn sample_env args d = Spawned"
  by (simp_all add: sample_options_def sample_env_def)


section \<open>The stream handlers and the framer: auxiliary facts\<close>

text \<open>The reducer neither reads nor writes the buffer.\<close>

lemma record_calls_buffer:
  "record_calls env calls (s\<lparr>buffer := b\<rparr>, ch) =
     (case record_calls env calls (s, ch) of (e, s', ch') \<Rightarrow> (e, s'\<lparr>buffer := b\<rparr>, ch'))"
proof (induction calls arbitrary: s ch)
  case Nil
  show ?case by simp
next
  case (Cons a calls)
  show ?case
  proof (cases "dedup_key env a")
    case (Inl e)
    then show ?thesis by simp
  next
    case (Inr key)
    show ?thesis
    proof (cases "seen_has (seenToolCalls s) key")
      case True
      with Inr Cons.IH [of s ch] show ?thesis by simp
    next
      case False
      let ?t = "s\<lparr>seenToolCalls := insert key (seenToolCalls s), toolCalls := toolCalls s @ [a]\<rparr>"
      have u: "s\<lparr>buffer := b, seenToolCalls := insert key (seenToolCalls s),
                 toolCalls := toolCalls s @ [a]\<rparr> = ?t\<lparr>buffer := b\<rparr>" by simp
      from Inr False have "record_calls env (a # calls) (s\<lparr>buffer := b\<rparr>, ch)
          = record_calls env calls (?t\<lparr>buffer := b\<rparr>, True)" by (simp add: u)
      also have "\<dots> = (case record_calls env calls (?t, True) of
          (e, s', ch') \<Rightarrow> (e, s'\<lparr>buffer := b\<rparr>, ch'))" by (rule Cons.IH)
      also from Inr False have "record_calls env calls (?t, True) = record_calls env (a # calls) (s, ch)"
        by simp
      finally show ?thesis .
    qed
  qed
qed

lemma apply_message_buffer:
  "apply_message env m (s\<lparr>buffer := b\<rparr>) =
     (case apply_message env m s of (e, s') \<Rightarrow> (e, s'\<lparr>buffer := b\<rparr>))"
proof -
  let ?s1 = "s\<lparr>messages := messages s @ [m]\<rparr>"
  have u: "s\<lparr>buffer := b, messages := messages s @ [m]\<rparr> = ?s1\<lparr>buffer := b\<rparr>" by simp
  show ?thesis
  proof (cases "extractAssistantToolCalls m")
    case (Inl e)
    then show ?thesis by (simp add: apply_message_def Let_def)
  next
    case (Inr calls)
    obtain e2 s2 ch where r: "record_calls env calls (?s1, False) = (e2, s2, ch)"
      by (cases "record_calls env calls (?s1, False)") auto
    then have rb: "record_calls env calls (?s1\<lparr>buffer := b\<rparr>, False) = (e2, s2\<lparr>buffer := b\<rparr>, ch)"
      by (simp add: record_calls_buffer)
    show ?thesis
    proof (cases e2)
      case (Some e)
      with Inr r rb show ?thesis by (simp add: apply_message_def u Let_def)
    next
      case None
      show ?thesis
      proof (cases "extractAssistantText m")
        case (Inl e)
        with Inr r rb None show ?thesis by (simp add: apply_message_def u Let_def)
      next
        case (Inr tx)
        with \<open>extractAssistantToolCalls m = Inr calls\<close> r rb None show ?thesis
          by (simp add: apply_message_def u Let_def emitProgress_def split: option.splits)
      qed
    qed
  qed
qed

lemma processLine_buffer:
  "processLine env line (s\<lparr>buffer := b\<rparr>) =
     (case processLine env line s of (e, s') \<Rightarrow> (e, s'\<lparr>buffer := b\<rparr>))"
  by (simp add: processLine_def apply_message_buffer split: option.splits)

lemma process_lines_buffer:
  "process_lines env lines (s\<lparr>buffer := b\<rparr>) =
     (case process_lines env lines s of (e, s') \<Rightarrow> (e, s'\<lparr>buffer := b\<rparr>))"
proof (induction lines arbitrary: s)
  case Nil
  show ?case by simp
next
  case (Cons l lines)
  obtain e1 s1 where p: "processLine env l s = (e1, s1)" by (cases "processLine env l s") auto
  then have pb: "processLine env l (s\<lparr>buffer := b\<rparr>) = (e1, s1\<lparr>buffer := b\<rparr>)"
    by (simp add: processLine_buffer)
  show ?case
  proof (cases e1)
    case None
    with p pb Cons.IH [of s1] show ?thesis by simp
  next
    case (Some e)
    with p pb show ?thesis by simp
  qed
qed

lemma process_lines_append:
  "process_lines env (as @ bs) s =
     (case process_lines env as s of
        (Some e, s') \<Rightarrow> (Some e, s')
      | (None, s') \<Rightarrow> process_lines env bs s')"
proof (induction as arbitrary: s)
  case Nil
  show ?case by simp
next
  case (Cons l as)
  obtain e1 s1 where p: "processLine env l s = (e1, s1)" by (cases "processLine env l s") auto
  show ?case
  proof (cases e1)
    case None
    with p Cons.IH [of s1] show ?thesis by simp
  next
    case (Some e)
    with p show ?thesis by simp
  qed
qed

text \<open>The chunks of stdout, one event each: the lines of the framer are processed in order.\<close>

lemma stdout_run:
  assumes "process_lines env (fst (feed_all env (buffer s) chunks)) s = (None, t)"
    and "promise s = None"
  shows "event_loop env s (map StdoutData chunks)
     = (Pending, t\<lparr>buffer := snd (feed_all env (buffer s) chunks)\<rparr>)"
  using assms
proof (induction chunks arbitrary: s t)
  case Nil
  then show ?case by simp
next
  case (Cons d cs)
  obtain ls b' where f: "feed env (buffer s) d = (ls, b')" by (cases "feed env (buffer s) d") auto
  obtain later final where fa: "feed_all env b' cs = (later, final)"
    by (cases "feed_all env b' cs") auto
  from Cons.prems(1) f fa have pl: "process_lines env (ls @ later) s = (None, t)" by simp
  obtain e1 t1 where p1: "process_lines env ls s = (e1, t1)" by (cases "process_lines env ls s") auto
  with pl have e1: "e1 = None" and p2: "process_lines env later t1 = (None, t)"
    by (auto simp: process_lines_append split: option.splits)
  from process_lines_frame [OF p1] Cons.prems(2) have pr: "promise t1 = None"
    by (simp add: same_process_def)
  from p1 e1 f have d: "dispatch env (StdoutData d) s = (None, t1\<lparr>buffer := b'\<rparr>)"
    by (simp add: on_stdout_data_def process_lines_buffer)
  from p2 fa have "process_lines env (fst (feed_all env (buffer (t1\<lparr>buffer := b'\<rparr>)) cs))
      (t1\<lparr>buffer := b'\<rparr>) = (None, t\<lparr>buffer := b'\<rparr>)"
    by (simp add: process_lines_buffer)
  from Cons.IH [OF this] pr fa
  have "event_loop env (t1\<lparr>buffer := b'\<rparr>) (map StdoutData cs) = (Pending, t\<lparr>buffer := final\<rparr>)"
    by simp
  with d pr f fa show ?case by (simp del: dispatch.simps)
qed

lemma stdout_run_throws:
  assumes "process_lines env (fst (feed_all env (buffer s) chunks)) s = (Some e, t)"
    and "promise s = None"
  shows "fst (event_loop env s (map StdoutData chunks)) = Uncaught e"
  using assms
proof (induction chunks arbitrary: s t)
  case Nil
  then show ?case by simp
next
  case (Cons d cs)
  obtain ls b' where f: "feed env (buffer s) d = (ls, b')" by (cases "feed env (buffer s) d") auto
  obtain later final where fa: "feed_all env b' cs = (later, final)"
    by (cases "feed_all env b' cs") auto
  from Cons.prems(1) f fa have pl: "process_lines env (ls @ later) s = (Some e, t)" by simp
  obtain e1 t1 where p1: "process_lines env ls s = (e1, t1)" by (cases "process_lines env ls s") auto
  from process_lines_frame [OF p1] Cons.prems(2) have pr: "promise t1 = None"
    by (simp add: same_process_def)
  from p1 f have d: "dispatch env (StdoutData d) s = (e1, t1\<lparr>buffer := b'\<rparr>)"
    by (simp add: on_stdout_data_def process_lines_buffer)
  show ?case
  proof (cases e1)
    case (Some x)
    with pl p1 have "x = e" by (simp add: process_lines_append)
    with d Some show ?thesis by (simp del: dispatch.simps)
  next
    case None
    with pl p1 have p2: "process_lines env later t1 = (Some e, t)"
      by (simp add: process_lines_append)
    with fa have "process_lines env (fst (feed_all env (buffer (t1\<lparr>buffer := b'\<rparr>)) cs))
        (t1\<lparr>buffer := b'\<rparr>) = (Some e, t\<lparr>buffer := b'\<rparr>)"
      by (simp add: process_lines_buffer)
    from Cons.IH [OF this] pr
    have "fst (event_loop env (t1\<lparr>buffer := b'\<rparr>) (map StdoutData cs)) = Uncaught e" by simp
    with d None pr show ?thesis by (simp del: dispatch.simps)
  qed
qed


section \<open>The whole run: auxiliary facts\<close>

lemma decode_cleanup_flags:
  "decode (env\<lparr>unlink_ok := u, rmdir_ok := d\<rparr>) line = decode env line"
  by (simp add: decode_def Let_def cong: if_cong option.case_cong)

lemma dedup_key_cleanup_flags:
  "dedup_key (env\<lparr>unlink_ok := u, rmdir_ok := d\<rparr>) call = dedup_key env call"
  by (simp add: dedup_key_def composite_key_def cong: if_cong option.case_cong sum.case_cong)

lemma record_calls_cleanup_flags:
  "record_calls (env\<lparr>unlink_ok := u, rmdir_ok := d\<rparr>) calls (s, ch) = record_calls env calls (s, ch)"
  by (induction calls arbitrary: s ch)
     (simp_all add: dedup_key_cleanup_flags cong: if_cong sum.case_cong)

lemma processLine_cleanup_flags:
  "processLine (env\<lparr>unlink_ok := u, rmdir_ok := d\<rparr>) line s = processLine env line s"
  by (simp add: processLine_def decode_cleanup_flags apply_message_def record_calls_cleanup_flags
        cong: if_cong option.case_cong sum.case_cong)

lemma process_lines_cleanup_flags:
  "process_lines (env\<lparr>unlink_ok := u, rmdir_ok := d\<rparr>) lines s = process_lines env lines s"
  by (induction lines arbitrary: s)
     (simp_all add: processLine_cleanup_flags cong: prod.case_cong option.case_cong)

lemma feed_cleanup_flags:
  "feed (env\<lparr>unlink_ok := u, rmdir_ok := d\<rparr>) b data = feed env b data"
  by (simp add: feed_def)

lemma dispatch_cleanup_flags:
  "dispatch (env\<lparr>unlink_ok := u, rmdir_ok := d\<rparr>) e s = dispatch env e s"
  by (cases e)
     (simp_all add: on_stdout_data_def on_stderr_data_def feed_cleanup_flags
        process_lines_cleanup_flags on_close_def
        processLine_cleanup_flags cong: prod.case_cong option.case_cong)

lemma drain_cleanup_flags:
  "drain (env\<lparr>unlink_ok := u, rmdir_ok := d\<rparr>) s es = drain env s es"
  by (induction es arbitrary: s)
     (simp_all add: dispatch_cleanup_flags cong: prod.case_cong option.case_cong)

lemma event_loop_cleanup_flags:
  "event_loop (env\<lparr>unlink_ok := u, rmdir_ok := d\<rparr>) s es = event_loop env s es"
  by (induction es arbitrary: s)
     (simp_all add: dispatch_cleanup_flags drain_cleanup_flags
        cong: prod.case_cong option.case_cong)

lemma run_process_cleanup_flags:
  "run_process (env\<lparr>unlink_ok := u, rmdir_ok := d\<rparr>) args dir sig es = run_process env args dir sig es"
  by (simp add: run_process_def event_loop_cleanup_flags cong: spawn_result.case_cong)

lemma createPromptFile_cleanup_flags:
  "createPromptFile (env\<lparr>unlink_ok := u, rmdir_ok := d\<rparr>) fs prompt = createPromptFile env fs prompt"
  by (simp add: createPromptFile_def Let_def cong: if_cong sum.case_cong)

lemma runSubagent_outcome:
  "fst (runSubagent env options fs events) =
     (case createPromptFile env fs (systemPrompt options) of
        (fs1, Inl e) \<Rightarrow> Rejected e
      | (fs1, Inr promptFile) \<Rightarrow>
          run_process env (build_args options promptFile) (cwd options)
            (signal_option options) events)"
  by (simp add: runSubagent_def split: prod.splits sum.splits outcome.splits)

lemma runSubagent_spawned:
  assumes "createPromptFile env fs (systemPrompt options) = (fs1, Inr promptFile)"
    and "spawn env (build_args options promptFile) (cwd options) = Spawned"
  shows "fst (runSubagent env options fs events)
     = fst (event_loop env (start True (signal_option options)) events)"
  using assms by (simp add: runSubagent_outcome run_process_def)

lemma createPromptFile_Some:
  assumes "createPromptFile env fs prompt = (fs1, Inr (Some pf))"
  shows "trim prompt \<noteq> [] \<and> mkdtempSync env = Inr (pf_dir pf) \<and> write_ok env
     \<and> pf_file pf = path_join (pf_dir pf) ''system-prompt.md''
     \<and> fs1 = insert (pf_file pf) (insert (pf_dir pf) fs)"
  using assms
  by (auto simp: createPromptFile_def Let_def split: if_splits sum.splits)

lemma not_inside_self: "\<not> inside d d"
  by (simp add: inside_def)


lemma sample_created:
  "createPromptFile sample_env {} (systemPrompt sample_options) =
     ({pf_file sample_prompt_file, pf_dir sample_prompt_file}, Inr (Some sample_prompt_file))"
  by (simp add: createPromptFile_def sample_env_def sample_options_def trim_def is_space_def
        path_join_def Let_def sample_prompt_file_def)

lemma sample_created_flags:
  "createPromptFile (sample_env\<lparr>unlink_ok := u, rmdir_ok := d\<rparr>) {} (systemPrompt sample_options) =
     ({pf_file sample_prompt_file, pf_dir sample_prompt_file}, Inr (Some sample_prompt_file))"
  by (simp add: createPromptFile_cleanup_flags sample_created)

lemma sample_run_abort:
  "run_process sample_env args d (Some False)
     [StdoutData (text_line_A @ [CHR 0x0A]), Abort, ProcClose None]
   = Rejected (Error ''Subagent aborted'')"
proof -
  have "event_loop sample_env (start True (Some False))
          ([StdoutData (text_line_A @ [CHR 0x0A])] @ [Abort, ProcClose None])
        = event_loop sample_env after_text_A [Abort, ProcClose None]"
    by (rule event_loop_append [OF sample_pending])
  then show ?thesis
    by (simp add: run_process_def sample_options_fields sample_abort_run del: event_loop.simps)
qed

lemma sample_run_done:
  "run_process sample_env args d (Some False)
     [StdoutData (text_line_A @ [CHR 0x0A]), ProcClose (Some 0)]
   = Resolved \<lparr> res_exitCode = 0, res_stderr = [], res_messages = [text_message_A],
                res_finalText = ''A'', res_toolCalls = [], res_stopReason = None,
                res_errorMessage = None, res_model = None \<rparr>"
proof -
  have "event_loop sample_env (start True (Some False))
          ([StdoutData (text_line_A @ [CHR 0x0A])] @ [ProcClose (Some 0)])
        = event_loop sample_env after_text_A [ProcClose (Some 0)]"
    by (rule event_loop_append [OF sample_pending])
  moreover have "dispatch sample_env (ProcClose (Some 0)) after_text_A =
      (None, after_text_A\<lparr>proc_alive := False, settled := True, promise := Some 0\<rparr>)"
    using close_without_flush [of after_text_A sample_env "Some 0"]
    by (simp add: after_text_A_fields flush_empty)
  ultimately show ?thesis
    by (simp add: run_process_def sample_options_fields after_await_def after_text_A_fields
          del: dispatch.simps)
       (simp add: after_text_A_def start_def initial_def)
qed

lemma sample_cleanup:
  "cleanup sample_env (Some sample_prompt_file)
     {pf_file sample_prompt_file, pf_dir sample_prompt_file} = {}"
  "cleanup (sample_env\<lparr>unlink_ok := False\<rparr>) (Some sample_prompt_file)
     {pf_file sample_prompt_file, pf_dir sample_prompt_file}
     = {pf_file sample_prompt_file, pf_dir sample_prompt_file}"
  by (auto simp: cleanup_def unlinkSync_def rmdirSync_def inside_def sample_env_def
        sample_prompt_file_def)


lemma sample_failing:
  "createPromptFile failing_env {} (systemPrompt sample_options) =
     ({pf_file sample_prompt_file, pf_dir sample_prompt_file}, Inr (Some sample_prompt_file))"
  "createPromptFile failing_env {} (systemPrompt aborted_options) =
     ({pf_file sample_prompt_file, pf_dir sample_prompt_file}, Inr (Some sample_prompt_file))"
  "spawn failing_env args d = SpawnFailed"
  "signal_option aborted_options = Some True"
  by (simp_all add: createPromptFile_def sample_env_def sample_options_def trim_def is_space_def
        path_join_def Let_def sample_prompt_file_def failing_env_def aborted_options_def)

lemma sample_throwing:
  "createPromptFile throwing_env {} (systemPrompt sample_options) =
     ({pf_file sample_prompt_file, pf_dir sample_prompt_file}, Inr (Some sample_prompt_file))"
  "run_process throwing_env args d sig events = Rejected TypeError"
  "cleanup throwing_env (Some sample_prompt_file)
     {pf_file sample_prompt_file, pf_dir sample_prompt_file} = {}"
  by (auto simp: createPromptFile_def sample_env_def sample_options_def trim_def is_space_def
        path_join_def Let_def sample_prompt_file_def throwing_env_def run_process_def
        cleanup_def unlinkSync_def rmdirSync_def inside_def)


section \<open>More on the event loop\<close>

text \<open>A run whose child writes one line that carries a message of another role, then closes.\<close>

lemma other_role_run:
  assumes "decode env line = Some m" "get_prop m ''role'' \<noteq> Some (JStr ''assistant'')"
    "CHR 0x0A \<notin> set line" "toString env data = line @ [CHR 0x0A]"
  shows "fst (event_loop env (start spawned None) [StdoutData data, ProcClose code])
     = Resolved \<lparr> res_exitCode = (case code of Some c \<Rightarrow> c | None \<Rightarrow> 0), res_stderr = [],
                  res_messages = [m], res_finalText = [], res_toolCalls = [],
                  res_stopReason = None, res_errorMessage = None, res_model = None \<rparr>"
proof -
  let ?s0 = "start spawned None"
  let ?s1 = "?s0\<lparr>messages := [m]\<rparr>"
  have b: "buffer ?s0 = []" "messages ?s0 = []" by (simp_all add: start_def initial_def)
  have f: "feed env (buffer ?s0) data = ([line], [])"
    using feed_line [OF assms(4), of "[]"] assms(3) b by simp
  have u: "?s0\<lparr>buffer := []\<rparr> = ?s0" using b by simp
  have p: "processLine env line ?s0 = (None, ?s1)"
    using assms(1,2) b by (simp add: processLine_def apply_message_other_role)
  have d1: "dispatch env (StdoutData data) ?s0 = (None, ?s1)"
    by (simp add: on_stdout_data_def f u p)
  have n1: "promise ?s1 = None" "\<not> settled ?s1" "flush (buffer ?s1) = None" "\<not> aborted ?s1"
    by (simp_all add: start_def initial_def flush_empty)
  from close_without_flush [OF n1(3,2), of env code]
  have d2: "dispatch env (ProcClose code) ?s1 =
     (None, ?s1\<lparr>proc_alive := False, settled := True,
               promise := Some (case code of Some c \<Rightarrow> c | None \<Rightarrow> 0)\<rparr>)" .
  have "event_loop env ?s0 [StdoutData data, ProcClose code]
      = event_loop env ?s1 [ProcClose code]"
    using d1 n1(1) by (simp del: dispatch.simps)
  also have "fst \<dots> = after_await (case code of Some c \<Rightarrow> c | None \<Rightarrow> 0)
       (?s1\<lparr>proc_alive := False, settled := True,
               promise := Some (case code of Some c \<Rightarrow> c | None \<Rightarrow> 0)\<rparr>)"
    using d2 by (simp del: dispatch.simps)
  finally show ?thesis
    by (simp add: after_await_def) (simp add: start_def initial_def)
qed

text \<open>Only the signal and the timer touch the signals sent, the timer and \<^verbatim>\<open>proc.killed\<close>.\<close>

lemma dispatch_signals:
  assumes "dispatch env e s = (err, s')" "e \<noteq> Abort" "e \<noteq> Timeout"
  shows "signals s' = signals s \<and> timeout s' = timeout s \<and> proc_killed s' = proc_killed s"
proof (cases e)
  case (StdoutData d)
  with assms on_stdout_data_control [of env d s err s'] show ?thesis
    by (simp add: same_control_def)
next
  case (StderrData d)
  with assms show ?thesis by (auto simp: on_stderr_data_def)
next
  case ProcExit
  with assms show ?thesis by auto
next
  case (ProcClose code)
  with assms have "on_close env code (s\<lparr>proc_alive := False\<rparr>) = (err, s')" by simp
  from on_close_effect [OF this] show ?thesis
    by (auto simp: same_process_def resolveOnce_def)
next
  case (ProcError n m)
  with assms show ?thesis by (cases "settled s") (auto simp: on_error_def resolveOnce_def)
qed (use assms in simp_all)

lemma no_escalation_step:
  assumes "dispatch env e s = (err, s')" "no_escalation s"
  shows "no_escalation s'"
proof (cases e)
  case Abort
  show ?thesis
  proof (cases "abort_listener s")
    case False
    with assms Abort show ?thesis by simp
  next
    case True
    with assms Abort have "s' = kill (s\<lparr>abort_listener := False\<rparr>)" by simp
    with assms(2) show ?thesis
      by (cases "proc_alive s") (simp_all add: no_escalation_def kill_def proc_kill_def)
  qed
next
  case Timeout
  show ?thesis
  proof (cases "timeout s")
    case None
    with assms Timeout show ?thesis by simp
  next
    case (Some d)
    let ?t = "s\<lparr>timeout := None\<rparr>"
    from assms Timeout Some have eq: "s' = on_timeout ?t" by simp
    show ?thesis
    proof (cases "proc_killed s")
      case True
      then have "on_timeout ?t = ?t" by (intro on_timeout_killed) simp
      with eq assms(2) show ?thesis by (simp add: no_escalation_def)
    next
      case False
      with assms(2) Some have "\<not> proc_alive s" by (simp add: no_escalation_def)
      with False have "on_timeout ?t = ?t" by (intro on_timeout_gone) simp_all
      with eq assms(2) show ?thesis by (simp add: no_escalation_def)
    qed
  qed
next
  case (StdoutData d)
  with dispatch_signals [OF assms(1)] dispatch_step [OF assms(1)] assms(2) show ?thesis
    by (auto simp: no_escalation_def)
next
  case (StderrData d)
  with dispatch_signals [OF assms(1)] dispatch_step [OF assms(1)] assms(2) show ?thesis
    by (auto simp: no_escalation_def)
next
  case ProcExit
  with dispatch_signals [OF assms(1)] dispatch_step [OF assms(1)] assms(2) show ?thesis
    by (auto simp: no_escalation_def)
next
  case (ProcClose c)
  with dispatch_signals [OF assms(1)] dispatch_step [OF assms(1)] assms(2) show ?thesis
    by (auto simp: no_escalation_def)
next
  case (ProcError n m)
  with dispatch_signals [OF assms(1)] dispatch_step [OF assms(1)] assms(2) show ?thesis
    by (auto simp: no_escalation_def)
qed

lemma no_escalation_drain: "no_escalation s \<Longrightarrow> no_escalation (drain env s es)"
proof (induction es arbitrary: s)
  case Nil
  then show ?case by simp
next
  case (Cons e es)
  obtain err s' where d: "dispatch env e s = (err, s')" by (cases "dispatch env e s") auto
  from no_escalation_step [OF d Cons.prems] have n: "no_escalation s'" .
  show ?case
  proof (cases err)
    case None
    with d Cons.IH [OF n] show ?thesis by simp
  next
    case (Some x)
    with d n show ?thesis by simp
  qed
qed

lemma no_escalation_loop: "no_escalation s \<Longrightarrow> no_escalation (snd (event_loop env s es))"
proof (induction es arbitrary: s)
  case Nil
  then show ?case by simp
next
  case (Cons e es)
  obtain err s' where d: "dispatch env e s = (err, s')" by (cases "dispatch env e s") auto
  from no_escalation_step [OF d Cons.prems] have n: "no_escalation s'" .
  show ?case
  proof (cases err)
    case (Some x)
    with d n show ?thesis by simp
  next
    case None
    show ?thesis
    proof (cases "promise s'")
      case (Some code)
      with d None no_escalation_drain [OF n] show ?thesis by simp
    next
      case np: None
      with d None Cons.IH [OF n] show ?thesis by simp
    qed
  qed
qed

lemma no_escalation_start: "no_escalation (start spawned signal)"
  by (cases signal; cases spawned)
     (auto simp: no_escalation_def start_def initial_def kill_def proc_kill_def)

text \<open>Whatever the events of a run, the timer's callback never sends its signal.\<close>

lemma SIGKILL_never_sent:
  "SIGKILL \<notin> set (signals (snd (event_loop env (start spawned signal) events)))"
  using no_escalation_loop [OF no_escalation_start, of env spawned signal events]
  by (simp add: no_escalation_def)


section \<open>Cancellation before the child has ended (C1)\<close>

text \<open>
  Claim C1, as the code has it. The child was started, and the caller's signal fires
  while the promise is pending, after any events that neither resolved it nor threw. Then \<^verbatim>\<open>runSubagent\<close> never
  returns a result: whatever follows, it stays pending, dies of an uncaught exception,
  or throws the error \<^verbatim>\<open>Subagent aborted\<close>. It throws it when \<^verbatim>\<open>close\<close> arrives next and
  nothing is left to flush. A child that is still running receives \<^verbatim>\<open>SIGTERM\<close>, and no
  other signal, when the signal fires.
\<close>

theorem abort_before_exit_rejects:
  assumes "createPromptFile env fs (systemPrompt options) = (fs1, Inr promptFile)"
    and "spawn env (build_args options promptFile) (cwd options) = Spawned"
    and "signal_option options = Some False"
    and "event_loop env (start True (Some False)) pre = (Pending, s)" and "Abort \<notin> set pre"
  shows "(\<forall>post. case fst (runSubagent env options fs (pre @ Abort # post)) of
                  Resolved r \<Rightarrow> False
                | Rejected e \<Rightarrow> e = Error ''Subagent aborted''
                | Uncaught e \<Rightarrow> True
                | Pending \<Rightarrow> True)
     \<and> (flush (buffer s) = None \<longrightarrow>
          fst (runSubagent env options fs (pre @ [Abort, ProcClose code]))
            = Rejected (Error ''Subagent aborted''))
     \<and> (ProcExit \<notin> set pre \<longrightarrow>
          signals (snd (event_loop env (start True (Some False)) (pre @ [Abort]))) = [SIGTERM])"
proof -
  let ?s0 = "start True (Some False)"
  let ?sa = "kill (s\<lparr>abort_listener := False\<rparr>)"
  have run: "fst (runSubagent env options fs evs) = fst (event_loop env ?s0 evs)" for evs
    using runSubagent_spawned [OF assms(1,2), of evs] assms(3) by simp
  from pending_prefix [OF assms(4) start_listening(1,2)] assms(5) start_listening
  have pr: "promise s = None" and ns: "\<not> settled s" and li: "abort_listener s"
    and sg: "signals s = []" and al: "ProcExit \<notin> set pre \<longrightarrow> proc_alive s"
    by simp_all
  from li have da: "dispatch env Abort s = (None, ?sa)" by simp
  have psa: "promise ?sa = None" using pr by (simp add: kill_fields)
  have ab: "aborted ?sa" by (simp add: kill_fields)
  have split: "event_loop env ?s0 (pre @ Abort # post) = event_loop env ?sa post" for post
    using event_loop_append [OF assms(4), of "Abort # post"] da psa by simp
  have 1: "case fst (event_loop env ?s0 (pre @ Abort # post)) of
                  Resolved r \<Rightarrow> False
                | Rejected e \<Rightarrow> e = Error ''Subagent aborted''
                | Uncaught e \<Rightarrow> True
                | Pending \<Rightarrow> True" for post
    using aborted_not_resolved [OF ab, of env post] rejected_is_abort [of env ?sa post]
    by (simp add: split split: outcome.splits)
  have 2: "fst (event_loop env ?s0 (pre @ [Abort, ProcClose code])) = Rejected (Error ''Subagent aborted'')"
    if "flush (buffer s) = None"
  proof -
    from that have "flush (buffer ?sa) = None" by (simp add: kill_fields)
    moreover from ns have "\<not> settled ?sa" by (simp add: kill_fields)
    ultimately have "dispatch env (ProcClose code) ?sa =
       (None, ?sa\<lparr>proc_alive := False, settled := True,
               promise := Some (case code of Some c \<Rightarrow> c | None \<Rightarrow> 0)\<rparr>)"
      by (rule close_without_flush)
    with ab show ?thesis by (simp add: split after_await_def)
  qed
  have 3: "signals (snd (event_loop env ?s0 (pre @ [Abort]))) = [SIGTERM]"
    if "ProcExit \<notin> set pre"
    using that al sg by (simp add: split kill_fields)
  from 1 2 3 show ?thesis unfolding run by blast
qed

text \<open>
  The claim as stated fails: in the sample run the child writes a line, the signal fires
  and the child closes; \<^verbatim>\<open>runSubagent\<close> throws and returns no result.
\<close>

theorem abort_counterexample:
  "fst (runSubagent sample_env sample_options {}
          [StdoutData (text_line_A @ [CHR 0x0A]), Abort, ProcClose None])
     = Rejected (Error ''Subagent aborted'')"
  by (simp add: runSubagent_outcome sample_created sample_options_fields sample_run_abort)

theorem abort_before_exit_rejects_witness:
  "signal_option sample_options = Some False
   \<and> Abort \<notin> set [StdoutData (text_line_A @ [CHR 0x0A])]
   \<and> ProcExit \<notin> set [StdoutData (text_line_A @ [CHR 0x0A])]
   \<and> flush (buffer after_text_A) = None
   \<and> fst (runSubagent sample_env sample_options {}
        [StdoutData (text_line_A @ [CHR 0x0A]), Abort, ProcClose None])
       = Rejected (Error ''Subagent aborted'')
   \<and> signals (snd (event_loop sample_env (start True (Some False))
        [StdoutData (text_line_A @ [CHR 0x0A]), Abort])) = [SIGTERM]"
proof -
  have a: "Abort \<notin> set [StdoutData (text_line_A @ [CHR 0x0A])]" by simp
  have e: "ProcExit \<notin> set [StdoutData (text_line_A @ [CHR 0x0A])]" by simp
  have f: "flush (buffer after_text_A) = None"
    by (simp add: after_text_A_fields flush_empty)
  from abort_before_exit_rejects [OF sample_created sample_options_fields(2,1) sample_pending a,
      of None] a e f sample_options_fields(1)
  show ?thesis by simp
qed

section \<open>Cancellation after the child has ended (C2)\<close>

text \<open>
  Claim C2, as the code has it. The child was started, and the caller's signal fires
  at any time after \<^verbatim>\<open>close\<close> has been delivered. The outcome of
  \<^verbatim>\<open>runSubagent\<close> is the one of the same run without the late signal; when the
  \<^verbatim>\<open>close\<close> handler did not throw it is the result built from the state that handler
  left, with the exit code of \<^verbatim>\<open>close\<close>, and the promise keeps that value whatever comes
  later. No signal is delivered to the child.
\<close>

theorem late_abort_is_noop:
  assumes "createPromptFile env fs (systemPrompt options) = (fs1, Inr promptFile)"
    and "spawn env (build_args options promptFile) (cwd options) = Spawned"
    and "signal_option options = Some False"
    and "event_loop env (start True (Some False)) pre = (Pending, s)" and "Abort \<notin> set pre"
  shows "fst (runSubagent env options fs (pre @ ProcClose code # mid @ Abort # post))
           = fst (runSubagent env options fs (pre @ ProcClose code # mid @ post))
     \<and> (fst (dispatch env (ProcClose code) s) = None \<longrightarrow>
          fst (runSubagent env options fs (pre @ ProcClose code # mid @ Abort # post))
            = Resolved
                \<lparr> res_exitCode = (case code of Some c \<Rightarrow> c | None \<Rightarrow> 0),
                  res_stderr = stderr (snd (dispatch env (ProcClose code) s)),
                  res_messages = messages (snd (dispatch env (ProcClose code) s)),
                  res_finalText = finalText (snd (dispatch env (ProcClose code) s)),
                  res_toolCalls = toolCalls (snd (dispatch env (ProcClose code) s)),
                  res_stopReason = stopReason (snd (dispatch env (ProcClose code) s)),
                  res_errorMessage = errorMessage (snd (dispatch env (ProcClose code) s)),
                  res_model = model (snd (dispatch env (ProcClose code) s)) \<rparr>
          \<and> promise (snd (event_loop env (start True (Some False))
                              (pre @ ProcClose code # mid @ Abort # post)))
              = Some (case code of Some c \<Rightarrow> c | None \<Rightarrow> 0))
     \<and> signals (snd (event_loop env (start True (Some False))
                         (pre @ ProcClose code # mid @ Abort # post))) = []"
proof -
  let ?s0 = "start True (Some False)"
  let ?c = "case code of Some c \<Rightarrow> c | None \<Rightarrow> 0"
  have run: "fst (runSubagent env options fs evs) = fst (event_loop env ?s0 evs)" for evs
    using runSubagent_spawned [OF assms(1,2), of evs] assms(3) by simp
  from pending_prefix [OF assms(4) start_listening(1,2)] assms(5) start_listening
  have pr: "promise s = None" and ns: "\<not> settled s" and na: "\<not> aborted s"
    and sg: "signals s = []" and tm: "timeout s = None"
    by simp_all
  obtain err s' where d: "dispatch env (ProcClose code) s = (err, s')"
    by (cases "dispatch env (ProcClose code) s") auto
  note st = dispatch_step [OF d]
  from st na have na': "\<not> aborted s'" by simp
  from st tm sg have sg': "signals s' = []" by simp
  from close_dead [OF d] have dead: "\<not> proc_alive s'" .
  have split: "event_loop env ?s0 (pre @ es) = event_loop env s es" for es
    by (rule event_loop_append [OF assms(4)])
  show ?thesis
  proof (cases err)
    case (Some x)
    with d sg' show ?thesis by (simp add: run split)
  next
    case None
    from close_resolves [OF d [unfolded None] ns]
    have p': "promise s' = Some ?c" and se: "settled s'" by simp_all
    from drain_dead [OF dead] sg' have dr: "signals (drain env s' es) = []" for es by simp
    from drain_settled [OF se] p' have dp: "promise (drain env s' es) = Some ?c" for es by simp
    have l: "event_loop env s (ProcClose code # es) = (after_await ?c s', drain env s' es)" for es
      using d None p' by simp
    from na' have r: "after_await ?c s' = Resolved
                \<lparr> res_exitCode = ?c, res_stderr = stderr s', res_messages = messages s',
                  res_finalText = finalText s', res_toolCalls = toolCalls s',
                  res_stopReason = stopReason s', res_errorMessage = errorMessage s',
                  res_model = model s' \<rparr>" by (simp add: after_await_def)
    from d None have sd: "snd (dispatch env (ProcClose code) s) = s'" by simp
    show ?thesis unfolding run split l sd
      using r dr [of "mid @ Abort # post"] dp [of "mid @ Abort # post"]
      by (simp del: drain.simps dispatch.simps)
  qed
qed

text \<open>
  The claim as stated fails between the end of the child and its \<^verbatim>\<open>close\<close>: the child
  has written its line and has exited, the signal fires, then \<^verbatim>\<open>close\<close> arrives with code
  0. No signal reaches the child, which is gone, yet \<^verbatim>\<open>runSubagent\<close> throws, where the
  same run without the signal returns the result.
\<close>

theorem late_abort_counterexample:
  "fst (runSubagent sample_env sample_options {}
        [StdoutData (text_line_A @ [CHR 0x0A]), ProcExit, Abort, ProcClose (Some 0)])
     = Rejected (Error ''Subagent aborted'')
   \<and> fst (runSubagent sample_env sample_options {}
        [StdoutData (text_line_A @ [CHR 0x0A]), ProcExit, ProcClose (Some 0)])
     = Resolved \<lparr> res_exitCode = 0, res_stderr = [], res_messages = [text_message_A],
                  res_finalText = ''A'', res_toolCalls = [], res_stopReason = None,
                  res_errorMessage = None, res_model = None \<rparr>
   \<and> signals (snd (event_loop sample_env (start True (Some False))
        [StdoutData (text_line_A @ [CHR 0x0A]), ProcExit, Abort, ProcClose (Some 0)])) = []"
proof -
  let ?pre = "[StdoutData (text_line_A @ [CHR 0x0A])]"
  have run: "fst (runSubagent sample_env sample_options {} evs)
      = fst (event_loop sample_env (start True (Some False)) evs)" for evs
    using runSubagent_spawned [OF sample_created sample_options_fields(2), of evs]
    by (simp add: sample_options_fields)
  have split: "event_loop sample_env (start True (Some False)) (?pre @ es)
      = event_loop sample_env after_text_A es" for es
    by (rule event_loop_append [OF sample_pending])
  have a: "event_loop sample_env after_text_A [ProcExit, Abort, ProcClose (Some 0)]
     = (Rejected (Error ''Subagent aborted''),
        after_text_A\<lparr>abort_listener := False, aborted := True, timeout := Some 2000,
                      proc_alive := False, settled := True, promise := Some 0\<rparr>)"
    by (simp add: after_text_A_def start_def initial_def kill_def proc_kill_def on_close_def
          flush_empty resolveOnce_def after_await_def)
  have b: "fst (event_loop sample_env after_text_A [ProcExit, ProcClose (Some 0)])
     = Resolved \<lparr> res_exitCode = 0, res_stderr = [], res_messages = [text_message_A],
                  res_finalText = ''A'', res_toolCalls = [], res_stopReason = None,
                  res_errorMessage = None, res_model = None \<rparr>"
    by (simp add: after_text_A_def start_def initial_def on_close_def
          flush_empty resolveOnce_def after_await_def)
  have c: "signals after_text_A = []" by (simp add: after_text_A_def start_def initial_def)
  from split [of "[ProcExit, Abort, ProcClose (Some 0)]"] split [of "[ProcExit, ProcClose (Some 0)]"]
    a b c
  show ?thesis by (simp add: run del: event_loop.simps)
qed

theorem late_abort_is_noop_witness:
  "signal_option sample_options = Some False
   \<and> Abort \<notin> set [StdoutData (text_line_A @ [CHR 0x0A])]
   \<and> fst (runSubagent sample_env sample_options {}
        [StdoutData (text_line_A @ [CHR 0x0A]), ProcClose (Some 0), Abort, Timeout])
       = Resolved \<lparr> res_exitCode = 0, res_stderr = [], res_messages = [text_message_A],
                    res_finalText = ''A'', res_toolCalls = [], res_stopReason = None,
                    res_errorMessage = None, res_model = None \<rparr>
   \<and> fst (runSubagent sample_env sample_options {}
        [StdoutData (text_line_A @ [CHR 0x0A]), ProcClose (Some 0), Timeout])
       = Resolved \<lparr> res_exitCode = 0, res_stderr = [], res_messages = [text_message_A],
                    res_finalText = ''A'', res_toolCalls = [], res_stopReason = None,
                    res_errorMessage = None, res_model = None \<rparr>
   \<and> signals (snd (event_loop sample_env (start True (Some False))
        [StdoutData (text_line_A @ [CHR 0x0A]), ProcClose (Some 0), Abort, Timeout])) = []"
proof -
  let ?pre = "[StdoutData (text_line_A @ [CHR 0x0A])]"
  have a: "Abort \<notin> set ?pre" by simp
  have d: "dispatch sample_env (ProcClose (Some 0)) after_text_A =
      (None, after_text_A\<lparr>proc_alive := False, settled := True, promise := Some 0\<rparr>)"
    using close_without_flush [of after_text_A sample_env "Some 0"]
    by (simp add: after_text_A_fields flush_empty)
  then have n: "fst (dispatch sample_env (ProcClose (Some 0)) after_text_A) = None"
    and sd: "snd (dispatch sample_env (ProcClose (Some 0)) after_text_A)
               = after_text_A\<lparr>proc_alive := False, settled := True, promise := Some 0\<rparr>"
    by (simp_all del: dispatch.simps)
  note t = late_abort_is_noop [OF sample_created sample_options_fields(2,1) sample_pending a,
      of "Some 0" "[]" "[Timeout]"]
  from t have t1: "fst (runSubagent sample_env sample_options {}
        (?pre @ ProcClose (Some 0) # Abort # [Timeout]))
      = fst (runSubagent sample_env sample_options {} (?pre @ ProcClose (Some 0) # [Timeout]))"
    by simp
  from t [THEN conjunct2, THEN conjunct1] n have t2: "fst (runSubagent sample_env sample_options {}
        (?pre @ ProcClose (Some 0) # Abort # [Timeout]))
      = Resolved \<lparr> res_exitCode = 0, res_stderr = [], res_messages = [text_message_A],
                    res_finalText = ''A'', res_toolCalls = [], res_stopReason = None,
                    res_errorMessage = None, res_model = None \<rparr>"
    unfolding sd by (simp add: after_text_A_fields del: event_loop.simps dispatch.simps)
  from t [THEN conjunct2, THEN conjunct2]
  have t3: "signals (snd (event_loop sample_env (start True (Some False))
        (?pre @ ProcClose (Some 0) # Abort # [Timeout]))) = []"
    by (simp del: event_loop.simps)
  from a t1 t2 t3 sample_options_fields(1) show ?thesis by (simp del: event_loop.simps)
qed

section \<open>The grace timer (C3)\<close>

text \<open>
  Claim C3 fails on the code. The signal fires while the child runs, and the child is
  still running when the timer of 2000 milliseconds runs out: the timer was set and has
  fired, and \<^verbatim>\<open>SIGTERM\<close> is the only signal the child has received. The call of
  \<^verbatim>\<open>proc.kill("SIGTERM")\<close> made \<^verbatim>\<open>proc.killed\<close> true, so the test \<^verbatim>\<open>!proc.killed\<close>
  of the timer's callback fails and \<^verbatim>\<open>SIGKILL\<close> is not sent.
\<close>

theorem grace_timer_sends_no_SIGKILL:
  "signals (snd (event_loop sample_env (start True (Some False)) [Abort, Timeout])) = [SIGTERM]
   \<and> proc_alive (snd (event_loop sample_env (start True (Some False)) [Abort, Timeout]))
   \<and> timeout (snd (event_loop sample_env (start True (Some False)) [Abort])) = Some 2000
   \<and> timeout (snd (event_loop sample_env (start True (Some False)) [Abort, Timeout])) = None"
  by (simp add: start_def initial_def kill_def proc_kill_def on_timeout_def)

section \<open>A child that cannot be started (C4)\<close>

text \<open>
  Claim C4, as the code has it. The prompt file, if any, was written, the child could not
  be started, and the caller's signal has not fired when the \<^verbatim>\<open>error\<close> event arrives:
  it was not aborted when \<^verbatim>\<open>runSubagent\<close> was called, and no \<^verbatim>\<open>abort\<close> is among the
  events before. Then \<^verbatim>\<open>runSubagent\<close> returns a result with exit code 1, the error's
  message as \<^verbatim>\<open>errorMessage\<close>, and its name and message appended to \<^verbatim>\<open>stderr\<close>,
  whatever events follow; when the \<^verbatim>\<open>error\<close> event is the first event, nothing else is
  in the result.
\<close>

theorem spawn_failure_resolves:
  assumes "createPromptFile env fs (systemPrompt options) = (fs1, Inr promptFile)"
    and "spawn env (build_args options promptFile) (cwd options) = SpawnFailed"
    and "signal_option options \<noteq> Some True"
    and "event_loop env (start False (signal_option options)) pre = (Pending, s)"
    and "Abort \<notin> set pre"
  shows "fst (runSubagent env options fs (pre @ ProcError name message # post))
     = Resolved \<lparr> res_exitCode = 1, res_stderr = stderr s @ name @ '': '' @ message,
                  res_messages = messages s, res_finalText = finalText s,
                  res_toolCalls = toolCalls s, res_stopReason = stopReason s,
                  res_errorMessage = Some (JStr message), res_model = model s \<rparr>
   \<and> fst (runSubagent env options fs (ProcError name message # post))
     = Resolved \<lparr> res_exitCode = 1, res_stderr = name @ '': '' @ message, res_messages = [],
                  res_finalText = [], res_toolCalls = [], res_stopReason = None,
                  res_errorMessage = Some (JStr message), res_model = None \<rparr>"
proof -
  let ?s0 = "start False (signal_option options)"
  from assms(3) have sig: "signal_option options = None \<or> signal_option options = Some False"
    by (cases "signal_option options") auto
  then have a0: "\<not> aborted ?s0" using start_listening(4,9) by auto
  have run: "fst (runSubagent env options fs evs) = fst (event_loop env ?s0 evs)" for evs
    using assms(1,2) by (simp add: runSubagent_outcome run_process_def)
  have step: "fst (event_loop env t (ProcError name message # post))
     = Resolved \<lparr> res_exitCode = 1, res_stderr = stderr t @ name @ '': '' @ message,
                  res_messages = messages t, res_finalText = finalText t,
                  res_toolCalls = toolCalls t, res_stopReason = stopReason t,
                  res_errorMessage = Some (JStr message), res_model = model t \<rparr>"
    if "\<not> settled t" "\<not> aborted t" for t
    using that by (simp add: on_error_def resolveOnce_def after_await_def)
  from pending_prefix [OF assms(4) start_listening(1,2)] assms(5) a0
  have ns: "\<not> settled s" and na: "\<not> aborted s" by simp_all
  have "event_loop env ?s0 (pre @ ProcError name message # post)
      = event_loop env s (ProcError name message # post)"
    by (rule event_loop_append [OF assms(4)])
  with step [OF ns na] have 1: "fst (runSubagent env options fs (pre @ ProcError name message # post))
     = Resolved \<lparr> res_exitCode = 1, res_stderr = stderr s @ name @ '': '' @ message,
                  res_messages = messages s, res_finalText = finalText s,
                  res_toolCalls = toolCalls s, res_stopReason = stopReason s,
                  res_errorMessage = Some (JStr message), res_model = model s \<rparr>"
    by (simp add: run del: event_loop.simps)
  from sig have f: "stderr ?s0 = []" "messages ?s0 = []" "finalText ?s0 = []" "toolCalls ?s0 = []"
    "stopReason ?s0 = None" "model ?s0 = None"
    by (auto simp: start_def initial_def)
  from step [OF start_listening(1) a0] have 2: "fst (runSubagent env options fs (ProcError name message # post))
     = Resolved \<lparr> res_exitCode = 1, res_stderr = name @ '': '' @ message, res_messages = [],
                  res_finalText = [], res_toolCalls = [], res_stopReason = None,
                  res_errorMessage = Some (JStr message), res_model = None \<rparr>"
    by (simp add: run f del: event_loop.simps)
  from 1 2 show ?thesis by blast
qed

text \<open>
  The claim as stated fails when the signal is aborted before the call: the child cannot
  be started, the \<^verbatim>\<open>error\<close> event resolves the promise, and \<^verbatim>\<open>runSubagent\<close> throws.
  It fails in the same way when the signal fires after the call and before the
  \<^verbatim>\<open>error\<close> event.
\<close>

theorem spawn_failure_counterexample:
  "fst (runSubagent failing_env aborted_options {} [ProcError ''Error'' ''spawn pi ENOENT''])
     = Rejected (Error ''Subagent aborted'')
   \<and> fst (runSubagent failing_env sample_options {}
          [Abort, ProcError ''Error'' ''spawn pi ENOENT''])
     = Rejected (Error ''Subagent aborted'')"
proof -
  have "fst (event_loop failing_env (start False (Some True))
          [ProcError ''Error'' ''spawn pi ENOENT''])
     = Rejected (Error ''Subagent aborted'')"
    by (simp add: start_def initial_def kill_def proc_kill_def on_error_def resolveOnce_def
          after_await_def)
  moreover have "fst (event_loop failing_env (start False (Some False))
          [Abort, ProcError ''Error'' ''spawn pi ENOENT''])
     = Rejected (Error ''Subagent aborted'')"
    by (simp add: start_def initial_def kill_def proc_kill_def on_error_def resolveOnce_def
          after_await_def)
  ultimately show ?thesis
    by (simp add: runSubagent_outcome run_process_def sample_failing sample_options_fields
          del: event_loop.simps)
qed

theorem spawn_failure_resolves_witness:
  "signal_option sample_options \<noteq> Some True
   \<and> spawn failing_env (build_args sample_options (Some sample_prompt_file)) (cwd sample_options)
       = SpawnFailed
   \<and> event_loop failing_env (start False (signal_option sample_options)) [StderrData ''sh: ''] =
       (Pending, (start False (Some False))\<lparr>stderr := ''sh: ''\<rparr>)
   \<and> Abort \<notin> set [StderrData ''sh: '']
   \<and> fst (runSubagent failing_env sample_options {}
          [StderrData ''sh: '', ProcError ''Error'' ''spawn pi ENOENT'', ProcClose (Some (- 2))])
     = Resolved \<lparr> res_exitCode = 1, res_stderr = ''sh: Error: spawn pi ENOENT'',
                  res_messages = [], res_finalText = [], res_toolCalls = [],
                  res_stopReason = None, res_errorMessage = Some (JStr ''spawn pi ENOENT''),
                  res_model = None \<rparr>
   \<and> fst (runSubagent failing_env sample_options {}
          [ProcError ''Error'' ''spawn pi ENOENT'', ProcClose (Some (- 2))])
     = Resolved \<lparr> res_exitCode = 1, res_stderr = ''Error: spawn pi ENOENT'', res_messages = [],
                  res_finalText = [], res_toolCalls = [], res_stopReason = None,
                  res_errorMessage = Some (JStr ''spawn pi ENOENT''), res_model = None \<rparr>"
proof -
  have n: "signal_option sample_options \<noteq> Some True" by (simp add: sample_options_def)
  have a: "Abort \<notin> set [StderrData ''sh: '']" by simp
  have p: "event_loop failing_env (start False (signal_option sample_options)) [StderrData ''sh: ''] =
       (Pending, (start False (Some False))\<lparr>stderr := ''sh: ''\<rparr>)"
    by (simp add: sample_options_fields on_stderr_data_def failing_env_def sample_toString
          start_def initial_def)
  note t = spawn_failure_resolves [OF sample_failing(1) sample_failing(3) n p a,
      of "''Error''" "''spawn pi ENOENT''" "[ProcClose (Some (- 2))]"]
  from t [THEN conjunct1] have 1: "fst (runSubagent failing_env sample_options {}
          [StderrData ''sh: '', ProcError ''Error'' ''spawn pi ENOENT'', ProcClose (Some (- 2))])
     = Resolved \<lparr> res_exitCode = 1, res_stderr = ''sh: Error: spawn pi ENOENT'',
                  res_messages = [], res_finalText = [], res_toolCalls = [],
                  res_stopReason = None, res_errorMessage = Some (JStr ''spawn pi ENOENT''),
                  res_model = None \<rparr>"
    by (simp add: start_def initial_def del: event_loop.simps)
  from t [THEN conjunct2] have 2: "fst (runSubagent failing_env sample_options {}
          [ProcError ''Error'' ''spawn pi ENOENT'', ProcClose (Some (- 2))])
     = Resolved \<lparr> res_exitCode = 1, res_stderr = ''Error: spawn pi ENOENT'', res_messages = [],
                  res_finalText = [], res_toolCalls = [], res_stopReason = None,
                  res_errorMessage = Some (JStr ''spawn pi ENOENT''), res_model = None \<rparr>"
    by (simp del: event_loop.simps)
  from n sample_failing(3) p a 1 2 show ?thesis by blast
qed

section \<open>The line framer (C5)\<close>

text \<open>
  Claim C5, as the code has it. The stdout handler decodes each chunk on its own. Take a
  way of cutting the output into chunks for which that gives the text of the whole output
  (no chunk ends inside a character of several bytes). Then the framer hands on the same
  lines as for the output in one chunk, in order: those of the decoded output, all but
  the last piece. These lines, each with its line feed, followed by the fragment left in
  the buffer, are the decoded output again. The \<^verbatim>\<open>close\<close> handler flushes that
  fragment exactly when it holds a character that is not white space. In the run, the
  stdout handler passes exactly these lines to \<^verbatim>\<open>processLine\<close>, in order, and leaves
  that fragment in the buffer, from where the \<^verbatim>\<open>close\<close> handler takes it.
\<close>

theorem framer_split_invariant:
  assumes "concat (map (toString env) chunks) = toString env (concat chunks)"
  shows "feed_all env [] chunks = feed_all env [] [concat chunks]
   \<and> reassemble (fst (feed_all env [] chunks)) (Some (snd (feed_all env [] chunks)))
       = toString env (concat chunks)
   \<and> fst (feed_all env [] chunks) = butlast (split_newline (toString env (concat chunks)))
   \<and> flush (snd (feed_all env [] chunks)) =
       (if \<exists>c \<in> set (snd (feed_all env [] chunks)). \<not> is_space c
        then Some (snd (feed_all env [] chunks)) else None)
   \<and> (process_lines env (fst (feed_all env [] chunks)) (start spawned signal) = (None, t) \<longrightarrow>
        event_loop env (start spawned signal) (map StdoutData chunks)
          = (Pending, t\<lparr>buffer := snd (feed_all env [] chunks)\<rparr>)
        \<and> on_close env code (t\<lparr>buffer := snd (feed_all env [] chunks)\<rparr>)
          = (case (case flush (snd (feed_all env [] chunks)) of
                     Some line \<Rightarrow>
                       processLine env line (t\<lparr>buffer := snd (feed_all env [] chunks)\<rparr>)
                   | None \<Rightarrow> (None, t\<lparr>buffer := snd (feed_all env [] chunks)\<rparr>)) of
               (Some e, u) \<Rightarrow> (Some e, u)
             | (None, u) \<Rightarrow> (None, resolveOnce (case code of Some c \<Rightarrow> c | None \<Rightarrow> 0) u)))
   \<and> (process_lines env (fst (feed_all env [] chunks)) (start spawned signal) = (Some e, t) \<longrightarrow>
        fst (event_loop env (start spawned signal) (map StdoutData chunks)) = Uncaught e)"
proof -
  let ?s0 = "start spawned signal"
  have b: "buffer ?s0 = []"
    by (simp add: start_def initial_def kill_def proc_kill_def split: option.splits)
  have p: "promise ?s0 = None" by (rule start_listening)
  have framer: "feed_all env [] chunks = feed_all env [] [concat chunks]
   \<and> reassemble (fst (feed_all env [] chunks)) (Some (snd (feed_all env [] chunks)))
       = toString env (concat chunks)
   \<and> fst (feed_all env [] chunks) = butlast (split_newline (toString env (concat chunks)))
   \<and> flush (snd (feed_all env [] chunks)) =
       (if \<exists>c \<in> set (snd (feed_all env [] chunks)). \<not> is_space c
        then Some (snd (feed_all env [] chunks)) else None)"
    using feed_all_eq [of "[]" env chunks] feed_all_eq [of "[]" env "[concat chunks]"] assms
    by (auto simp: reassemble_def split_newline_rebuild flush_def trim_empty_iff)
  have run: "process_lines env (fst (feed_all env [] chunks)) ?s0 = (None, t) \<longrightarrow>
        event_loop env ?s0 (map StdoutData chunks)
          = (Pending, t\<lparr>buffer := snd (feed_all env [] chunks)\<rparr>)"
    using stdout_run [of env ?s0 chunks t] b p by simp
  have throws: "process_lines env (fst (feed_all env [] chunks)) ?s0 = (Some e, t) \<longrightarrow>
        fst (event_loop env ?s0 (map StdoutData chunks)) = Uncaught e"
    using stdout_run_throws [of env ?s0 chunks e t] b p by simp
  have close: "on_close env code (t\<lparr>buffer := snd (feed_all env [] chunks)\<rparr>)
          = (case (case flush (snd (feed_all env [] chunks)) of
                     Some line \<Rightarrow>
                       processLine env line (t\<lparr>buffer := snd (feed_all env [] chunks)\<rparr>)
                   | None \<Rightarrow> (None, t\<lparr>buffer := snd (feed_all env [] chunks)\<rparr>)) of
               (Some e, u) \<Rightarrow> (Some e, u)
             | (None, u) \<Rightarrow> (None, resolveOnce (case code of Some c \<Rightarrow> c | None \<Rightarrow> 0) u))"
    by (simp add: on_close_def)
  from framer run throws close show ?thesis by blast
qed

text \<open>
  The claim as stated fails in two ways. The fragment left in the buffer is not always
  flushed: for the output \<open>a\<close>, line feed, space, the line \<open>a\<close> is handed on and the
  final fragment, a space, is dropped, so the lines and the flushed fragment do not give
  the output back. And a chunk that ends inside a character changes the lines: the bytes
  \<open>C3 A9 0A\<close> are the line of the one character U+00E9 when they arrive in one chunk,
  and a line of two replacement characters when the first byte arrives alone.
\<close>

theorem framer_counterexample:
  "reassemble (fst (feed_all sample_env [] [''a'' @ [CHR 0x0A] @ '' '']))
      (flush (snd (feed_all sample_env [] [''a'' @ [CHR 0x0A] @ '' ''])))
   \<noteq> toString sample_env (concat [''a'' @ [CHR 0x0A] @ '' ''])
   \<and> fst (feed_all sample_env [] [[CHR 0xC3, CHR 0xA9, CHR 0x0A]]) = [[CHR 0xE9]]
   \<and> fst (feed_all sample_env [] [[CHR 0xC3], [CHR 0xA9, CHR 0x0A]])
       = [[replacement, replacement]]
   \<and> [replacement, replacement] \<noteq> [CHR 0xE9]"
  by (simp add: reassemble_def feed_def flush_def trim_def is_space_def sample_toString
        char_of_def replacement_def bit_0)

theorem framer_split_invariant_witness:
  "concat (map (toString sample_env) [chunk_1, chunk_2])
     = toString sample_env (concat [chunk_1, chunk_2])
   \<and> feed_all sample_env [] [chunk_1, chunk_2] = ([text_line_A], [])
   \<and> feed_all sample_env [] [chunk_1 @ chunk_2] = ([text_line_A], [])
   \<and> flush [] = None
   \<and> process_lines sample_env [text_line_A] (start True (Some False)) = (None, after_text_A)
   \<and> event_loop sample_env (start True (Some False)) [StdoutData chunk_1, StdoutData chunk_2]
       = (Pending, after_text_A)
   \<and> feed_all sample_env [] [bare_line @ [CHR 0x0A]] = ([bare_line], [])
   \<and> process_lines sample_env [bare_line] (start True (Some False))
       = (Some TypeError, (start True (Some False))\<lparr>messages := [bare_message]\<rparr>)
   \<and> fst (event_loop sample_env (start True (Some False)) [StdoutData (bare_line @ [CHR 0x0A])])
       = Uncaught TypeError"
proof -
  let ?s0 = "start True (Some False)"
  have c: "chunk_1 @ chunk_2 = text_line_A @ [CHR 0x0A]"
    by (simp add: chunk_1_def chunk_2_def text_line_A_def)
  have a1: "utf8 chunk_1 = chunk_1" by (rule utf8_ascii) (simp add: chunk_1_def)
  have a2: "utf8 chunk_2 = chunk_2" by (rule utf8_ascii) (simp add: chunk_2_def)
  have a12: "utf8 (chunk_1 @ chunk_2) = chunk_1 @ chunk_2"
    unfolding c by (rule sample_lines_ascii)
  have dec: "concat (map (toString sample_env) [chunk_1, chunk_2])
     = toString sample_env (concat [chunk_1, chunk_2])"
    by (simp add: sample_toString a1 a2 a12)
  have whole: "feed_all sample_env [] [chunk_1 @ chunk_2] = ([text_line_A], [])"
    using feed_line [of sample_env "chunk_1 @ chunk_2" text_line_A "[]"] sample_lines_no_LF(2)
    by (simp add: sample_toString sample_lines_ascii c)
  note t = framer_split_invariant [OF dec, of True "Some False" after_text_A "Some 0"]
  from t [THEN conjunct1] whole
  have split: "feed_all sample_env [] [chunk_1, chunk_2] = ([text_line_A], [])" by simp
  have pl: "process_lines sample_env [text_line_A] ?s0 = (None, after_text_A)"
    by (simp add: sample_processLine after_text_A_def emitProgress_def)
       (simp add: start_def initial_def)
  have u: "after_text_A\<lparr>buffer := []\<rparr> = after_text_A"
    by (simp add: after_text_A_fields)
  from t [THEN conjunct2, THEN conjunct2, THEN conjunct2, THEN conjunct2, THEN conjunct1]
    pl split u
  have run: "event_loop sample_env ?s0 [StdoutData chunk_1, StdoutData chunk_2]
       = (Pending, after_text_A)"
    by (simp del: event_loop.simps)
  have ab: "utf8 (bare_line @ [CHR 0x0A]) = bare_line @ [CHR 0x0A]"
    by (rule utf8_ascii) (simp add: bare_line_def)
  have nb: "CHR 0x0A \<notin> set bare_line" by (simp add: bare_line_def)
  have fb: "feed_all sample_env [] [bare_line @ [CHR 0x0A]] = ([bare_line], [])"
    using feed_line [of sample_env "bare_line @ [CHR 0x0A]" bare_line "[]"] nb
    by (simp add: sample_toString ab)
  have pb: "process_lines sample_env [bare_line] ?s0
       = (Some TypeError, ?s0\<lparr>messages := [bare_message]\<rparr>)"
    by (simp add: sample_processLine_bare) (simp add: start_def initial_def)
  have decb: "concat (map (toString sample_env) [bare_line @ [CHR 0x0A]])
     = toString sample_env (concat [bare_line @ [CHR 0x0A]])" by simp
  note tb = framer_split_invariant [OF decb, of True "Some False"
      "?s0\<lparr>messages := [bare_message]\<rparr>" "Some 0" TypeError]
  from tb [THEN conjunct2, THEN conjunct2, THEN conjunct2, THEN conjunct2, THEN conjunct2]
    pb fb
  have thr: "fst (event_loop sample_env ?s0 [StdoutData (bare_line @ [CHR 0x0A])])
       = Uncaught TypeError"
    by (simp del: event_loop.simps)
  from dec split whole pl run flush_empty fb pb thr show ?thesis by blast
qed

section \<open>Tool calls are recorded once (C6)\<close>

text \<open>
  Claim C6, as the code has it. A line that carries a message whose tool calls are well
  typed is processed twice, in a state whose recorded calls have distinct keys, all of
  them seen. The second time the sequence of recorded calls does not change, and for
  every call of the message the sequence holds exactly one call with its key. That is
  the call itself, held exactly once, when its key is new: not seen before, and not the
  key of a call before it in the message. The key is the \<^verbatim>\<open>id\<close> when that is a
  non-empty string, and otherwise the name, a colon and the serialised arguments.
\<close>

theorem tool_call_recorded_once:
  assumes "decode env line = Some m" "extractAssistantToolCalls m = Inr calls"
    "list_all well_typed_call calls" "dedup_inv env s"
  shows "toolCalls (snd (processLine env line (snd (processLine env line s))))
           = toolCalls (snd (processLine env line s))
     \<and> (\<forall>c \<in> set calls.
          length (filter (\<lambda>d. dedup_key env d = dedup_key env c)
                    (toolCalls (snd (processLine env line (snd (processLine env line s)))))) = 1)
     \<and> (calls = pre @ c # rest \<and> dedup_key env c \<notin> Inr ` seenToolCalls s
          \<and> dedup_key env c \<notin> dedup_key env ` set pre \<longrightarrow>
          length (filter (\<lambda>d. d = c)
                    (toolCalls (snd (processLine env line (snd (processLine env line s)))))) = 1)
     \<and> (\<forall>c \<in> set calls.
          dedup_key env c =
            Inr (JStr (case call_id c of
                         Some (JStr i) \<Rightarrow>
                           if i \<noteq> [] then i
                           else (case call_name c of Some (JStr n) \<Rightarrow> n | _ \<Rightarrow> [])
                                @ '':'' @ JSON_stringify env (call_arguments c)
                       | _ \<Rightarrow> (case call_name c of Some (JStr n) \<Rightarrow> n | _ \<Rightarrow> [])
                                @ '':'' @ JSON_stringify env (call_arguments c))))"
proof -
  let ?s1 = "snd (processLine env line s)"
  from processLine_records [OF assms]
  have inv: "dedup_inv env ?s1"
    and seen: "\<forall>c \<in> set calls. dedup_key env c \<in> Inr ` seenToolCalls ?s1" by simp_all
  from processLine_repeat [OF assms(1-3) seen]
  have same: "toolCalls (snd (processLine env line ?s1)) = toolCalls ?s1" by simp
  have once: "length (filter (\<lambda>d. dedup_key env d = dedup_key env c) (toolCalls ?s1)) = 1"
    if "c \<in> set calls" for c
  proof -
    from inv have d: "distinct (map (dedup_key env) (toolCalls ?s1))"
      and eq: "Inr ` seenToolCalls ?s1 = set (map (dedup_key env) (toolCalls ?s1))"
      by (simp_all add: dedup_inv_def)
    from seen that eq have "dedup_key env c \<in> set (map (dedup_key env) (toolCalls ?s1))" by simp
    from distinct_map_count [OF d this] show ?thesis .
  qed
  have key: "\<forall>c \<in> set calls.
          dedup_key env c =
            Inr (JStr (case call_id c of
                         Some (JStr i) \<Rightarrow>
                           if i \<noteq> [] then i
                           else (case call_name c of Some (JStr n) \<Rightarrow> n | _ \<Rightarrow> [])
                                @ '':'' @ JSON_stringify env (call_arguments c)
                       | _ \<Rightarrow> (case call_name c of Some (JStr n) \<Rightarrow> n | _ \<Rightarrow> [])
                                @ '':'' @ JSON_stringify env (call_arguments c)))"
    using assms(3) well_typed_key_text by (auto simp: list_all_iff)
  have self: "length (filter (\<lambda>d. d = c) (toolCalls ?s1)) = 1"
    if "calls = pre @ c # rest" "dedup_key env c \<notin> Inr ` seenToolCalls s"
      "dedup_key env c \<notin> dedup_key env ` set pre"
  proof -
    from processLine_first [OF assms(1) assms(2) [unfolded that(1)] assms(3) [unfolded that(1)]
        that(2,3)]
    have "c \<in> set (toolCalls ?s1)" .
    with dedup_inv_distinct [OF inv] show ?thesis by (rule distinct_count)
  qed
  from once same have B: "\<forall>c \<in> set calls.
      length (filter (\<lambda>d. dedup_key env d = dedup_key env c)
                (toolCalls (snd (processLine env line ?s1)))) = 1" by simp
  from self same have C: "calls = pre @ c # rest \<and> dedup_key env c \<notin> Inr ` seenToolCalls s
      \<and> dedup_key env c \<notin> dedup_key env ` set pre \<longrightarrow>
      length (filter (\<lambda>d. d = c) (toolCalls (snd (processLine env line ?s1)))) = 1" by simp
  from same B C key show ?thesis by blast
qed

text \<open>
  The claim as stated fails in two ways. A call is not recorded when its key is the key
  of another call: in a message with a first call of \<^verbatim>\<open>id\<close> \<^verbatim>\<open>ls:{}\<close> and a second
  call with no \<^verbatim>\<open>id\<close>, the name \<^verbatim>\<open>ls\<close> and no arguments, the second call has the
  key of the first, and the sequence never holds it. And an \<^verbatim>\<open>id\<close> that is present
  but empty is not the key.
\<close>

theorem tool_call_counterexample:
  "decode sample_env clash_line = Some clash_message
   \<and> extractAssistantToolCalls clash_message = Inr [rm_call, plain_ls_call]
   \<and> well_typed_call rm_call \<and> well_typed_call plain_ls_call
   \<and> toolCalls (snd (processLine sample_env clash_line
        (snd (processLine sample_env clash_line (initial True))))) = [rm_call]
   \<and> plain_ls_call \<notin> set (toolCalls (snd (processLine sample_env clash_line
        (snd (processLine sample_env clash_line (initial True))))))
   \<and> well_typed_call empty_id_call \<and> call_id empty_id_call = Some (JStr [])
   \<and> dedup_key sample_env empty_id_call = Inr (JStr ''ls:{}'')"
proof -
  have w: "well_typed_call rm_call" "well_typed_call plain_ls_call" "well_typed_call empty_id_call"
    by (simp_all add: well_typed_call_def rm_call_def plain_ls_call_def empty_id_call_def)
  have k: "dedup_key sample_env rm_call = Inr (JStr ''ls:{}'')"
    "dedup_key sample_env plain_ls_call = Inr (JStr ''ls:{}'')"
    "dedup_key sample_env empty_id_call = Inr (JStr ''ls:{}'')"
    by (simp_all add: dedup_key_def composite_key_def template_String_def rm_call_def
          plain_ls_call_def empty_id_call_def sample_env_def)
  have r: "record_calls sample_env [rm_call, plain_ls_call] (s, ch) =
      (if JStr ''ls:{}'' \<in> seenToolCalls s then (None, s, ch)
       else (None, s\<lparr>seenToolCalls := insert (JStr ''ls:{}'') (seenToolCalls s),
                       toolCalls := toolCalls s @ [rm_call]\<rparr>, True))" for s ch
    by (simp add: k seen_has_JStr)
  have t: "toolCalls (snd (processLine sample_env clash_line s))
      = (if JStr ''ls:{}'' \<in> seenToolCalls s then toolCalls s else toolCalls s @ [rm_call])
    \<and> seenToolCalls (snd (processLine sample_env clash_line s))
      = insert (JStr ''ls:{}'') (seenToolCalls s)" for s
  proof -
    let ?s1 = "s\<lparr>messages := messages s @ [clash_message]\<rparr>"
    obtain e2 s2 ch
      where rc: "record_calls sample_env [rm_call, plain_ls_call] (?s1, False) = (e2, s2, ch)"
      by (cases "record_calls sample_env [rm_call, plain_ls_call] (?s1, False)") auto
    have wt: "list_all well_typed_call [rm_call, plain_ls_call]" using w by simp
    from apply_message_calls [OF sample_extract_parts(3) wt rc]
    have "toolCalls (snd (processLine sample_env clash_line s)) = toolCalls s2"
      "seenToolCalls (snd (processLine sample_env clash_line s)) = seenToolCalls s2"
      by (simp_all add: processLine_def sample_decode_parts)
    moreover from rc have "toolCalls s2
        = (if JStr ''ls:{}'' \<in> seenToolCalls s then toolCalls s else toolCalls s @ [rm_call])"
      "seenToolCalls s2 = insert (JStr ''ls:{}'') (seenToolCalls s)"
      unfolding r by (auto split: if_splits)
    ultimately show ?thesis by simp
  qed
  have l: "toolCalls (snd (processLine sample_env clash_line
        (snd (processLine sample_env clash_line (initial True))))) = [rm_call]"
    by (simp add: t) (simp add: initial_def)
  have d: "plain_ls_call \<noteq> rm_call" by (simp add: plain_ls_call_def rm_call_def)
  have i: "call_id empty_id_call = Some (JStr [])" by (simp add: empty_id_call_def)
  from sample_decode_parts(2) sample_extract_parts(3) w l d i k(3) show ?thesis by simp
qed


theorem tool_call_recorded_once_witness:
  "decode sample_env tool_line = Some tool_message
   \<and> extractAssistantToolCalls tool_message = Inr [ls_call]
   \<and> well_typed_call ls_call
   \<and> dedup_inv sample_env (initial True)
   \<and> toolCalls (snd (processLine sample_env tool_line
        (snd (processLine sample_env tool_line (initial True)))))
       = toolCalls (snd (processLine sample_env tool_line (initial True)))
   \<and> length (filter (\<lambda>d. dedup_key sample_env d = dedup_key sample_env ls_call)
        (toolCalls (snd (processLine sample_env tool_line
          (snd (processLine sample_env tool_line (initial True))))))) = 1
   \<and> length (filter (\<lambda>d. d = ls_call)
        (toolCalls (snd (processLine sample_env tool_line
          (snd (processLine sample_env tool_line (initial True))))))) = 1
   \<and> dedup_key sample_env ls_call = Inr (JStr ''call_1'')"
proof -
  have w: "well_typed_call ls_call" by (simp add: well_typed_call_def ls_call_def)
  then have ws: "list_all well_typed_call [ls_call]" by simp
  have i: "dedup_inv sample_env (initial True)" by (simp add: dedup_inv_def initial_def)
  have k: "dedup_key sample_env ls_call = Inr (JStr ''call_1'')"
    by (simp add: dedup_key_def ls_call_def)
  note t = tool_call_recorded_once [OF sample_decode(1) sample_extract(1) ws i,
      of "[]" ls_call "[]"]
  from t have a: "toolCalls (snd (processLine sample_env tool_line
        (snd (processLine sample_env tool_line (initial True)))))
       = toolCalls (snd (processLine sample_env tool_line (initial True)))" by (rule conjunct1)
  from t have "\<forall>c \<in> set [ls_call].
      length (filter (\<lambda>d. dedup_key sample_env d = dedup_key sample_env c)
        (toolCalls (snd (processLine sample_env tool_line
          (snd (processLine sample_env tool_line (initial True))))))) = 1"
    by (rule conjunct1 [OF conjunct2])
  then have b: "length (filter (\<lambda>d. dedup_key sample_env d = dedup_key sample_env ls_call)
        (toolCalls (snd (processLine sample_env tool_line
          (snd (processLine sample_env tool_line (initial True))))))) = 1" by simp
  have "dedup_key sample_env ls_call \<notin> Inr ` seenToolCalls (initial True)"
    by (simp add: initial_def)
  with t [THEN conjunct2, THEN conjunct2, THEN conjunct1]
  have c: "length (filter (\<lambda>d. d = ls_call)
        (toolCalls (snd (processLine sample_env tool_line
          (snd (processLine sample_env tool_line (initial True))))))) = 1" by simp
  from a b c w i k sample_decode(1) sample_extract(1) show ?thesis by blast
qed

section \<open>The final text is replaced (C7)\<close>

text \<open>
  Claim C7. Three messages are processed in order, none raising an exception: one with
  the non-empty text \<open>A\<close>, one with the non-empty text \<open>B\<close>, one with no text. After
  the first \<^verbatim>\<open>finalText\<close> is \<open>A\<close>, after the second it is \<open>B\<close>, not \<open>A\<close> followed
  by \<open>B\<close>, and the third leaves it at \<open>B\<close>. The text of a message whose content is
  an array of typed parts is the text of the specification: the texts of the parts of
  type \<^verbatim>\<open>text\<close>, joined by newline, trimmed.
\<close>

theorem final_text_replaced:
  assumes "decode env l1 = Some m1" "extractAssistantText m1 = Inr A" "A \<noteq> []"
    and "processLine env l1 s = (None, s1)"
    and "decode env l2 = Some m2" "extractAssistantText m2 = Inr B" "B \<noteq> []"
    and "processLine env l2 s1 = (None, s2)"
    and "decode env l3 = Some m3" "extractAssistantText m3 = Inr []"
    and "processLine env l3 s2 = (None, s3)"
  shows "finalText s1 = A \<and> finalText s2 = B \<and> finalText s2 \<noteq> A @ B \<and> finalText s3 = B
     \<and> (get_prop m1 ''content'' = Some (JArr parts1) \<and> list_all typed_part parts1 \<longrightarrow>
          A = joined_text parts1)
     \<and> (get_prop m2 ''content'' = Some (JArr parts2) \<and> list_all typed_part parts2 \<longrightarrow>
          B = joined_text parts2)
     \<and> (get_prop m3 ''role'' = Some (JStr ''assistant'')
          \<and> get_prop m3 ''content'' = Some (JArr parts3) \<and> list_all typed_part parts3 \<longrightarrow>
          joined_text parts3 = [])"
proof -
  have step: "finalText s' = (if t \<noteq> [] then t else finalText s)"
    if "decode env l = Some m" "extractAssistantText m = Inr t" "processLine env l s = (None, s')"
    for l m t s s'
  proof -
    from that have am: "apply_message env m s = (None, s')" by (simp add: processLine_def)
    from apply_message_cases [OF am] show ?thesis
    proof (elim disjE conjE exE)
      assume "get_prop m ''role'' \<noteq> Some (JStr ''assistant'')" "s' = s\<lparr>messages := messages s @ [m]\<rparr>"
      with that(2) show ?thesis by (simp add: extractAssistantText_def)
    next
      fix calls s2 ch t'
      assume rc: "record_calls env calls (s\<lparr>messages := messages s @ [m]\<rparr>, False) = (None, s2, ch)"
        and "extractAssistantText m = Inr t'" "finalText s' = (if t' \<noteq> [] then t' else finalText s2)"
      with record_calls_same [OF rc] that(2) show ?thesis by simp
    qed simp_all
  qed
  from step [OF assms(1,2,4)] assms(3) have 1: "finalText s1 = A" by simp
  from step [OF assms(5,6,8)] assms(7) have 2: "finalText s2 = B" by simp
  from step [OF assms(9,10,11)] 2 have 3: "finalText s3 = B" by simp
  from 2 assms(3) have 4: "finalText s2 \<noteq> A @ B" by simp
  have joined: "t = joined_text parts"
    if "extractAssistantText m = Inr t" "t \<noteq> []"
      "get_prop m ''content'' = Some (JArr parts)" "list_all typed_part parts" for m t parts
  proof -
    from that(1,2) extractAssistantText_other_role [of m]
    have "get_prop m ''role'' = Some (JStr ''assistant'')" by auto
    from extractAssistantText_joined [OF this that(3,4)] that(1) show ?thesis by simp
  qed
  from joined [OF assms(2,3)] have 5: "get_prop m1 ''content'' = Some (JArr parts1)
      \<and> list_all typed_part parts1 \<longrightarrow> A = joined_text parts1" by simp
  from joined [OF assms(6,7)] have 6: "get_prop m2 ''content'' = Some (JArr parts2)
      \<and> list_all typed_part parts2 \<longrightarrow> B = joined_text parts2" by simp
  from extractAssistantText_joined [of m3 parts3] assms(10)
  have 7: "get_prop m3 ''role'' = Some (JStr ''assistant'')
          \<and> get_prop m3 ''content'' = Some (JArr parts3) \<and> list_all typed_part parts3 \<longrightarrow>
          joined_text parts3 = []" by auto
  from 1 2 3 4 5 6 7 show ?thesis by blast
qed

theorem final_text_replaced_witness:
  "decode sample_env parts_line = Some parts_message
   \<and> get_prop parts_message ''content'' = Some (JArr parts_content)
   \<and> list_all typed_part parts_content
   \<and> joined_text parts_content = ''A'' @ [CHR 0x0A] @ ''C''
   \<and> extractAssistantText parts_message = Inr (''A'' @ [CHR 0x0A] @ ''C'')
   \<and> finalText (snd (processLine sample_env parts_line (initial True)))
       = ''A'' @ [CHR 0x0A] @ ''C''
   \<and> finalText (snd (processLine sample_env text_line_B
        (snd (processLine sample_env parts_line (initial True))))) = ''B''
   \<and> finalText (snd (processLine sample_env blank_line
        (snd (processLine sample_env text_line_B
          (snd (processLine sample_env parts_line (initial True))))))) = ''B''
   \<and> get_prop text_message_B ''content''
       = Some (JArr [JObj [(''type'', JStr ''text''), (''text'', JStr ''B'')]])
   \<and> joined_text [JObj [(''type'', JStr ''text''), (''text'', JStr ''B'')]] = ''B''
   \<and> get_prop blank_message ''role'' = Some (JStr ''assistant'')
   \<and> get_prop blank_message ''content'' = Some (JArr []) \<and> joined_text [] = []"
proof -
  have p: "processLine sample_env l s = (None, snd (processLine sample_env l s))"
    if "l \<in> {parts_line, text_line_B, blank_line}" for l s
    using that by (auto simp: sample_processLine sample_processLine_parts)
  have nonempty: "''A'' @ [CHR 0x0A] @ ''C'' \<noteq> []" "''B'' \<noteq> []" by simp_all
  let ?b = "[JObj [(''type'', JStr ''text''), (''text'', JStr ''B'')]]"
  have ty: "list_all typed_part parts_content" "list_all typed_part []" "list_all typed_part ?b"
    by (simp_all add: parts_content_def typed_part_def text_typed_def)
  have cb: "get_prop text_message_B ''content'' = Some (JArr ?b)"
    by (simp add: text_message_B_def)
  have bc: "get_prop blank_message ''content'' = Some (JArr [])"
    by (simp add: blank_message_def)
  note t = final_text_replaced [OF sample_decode_parts(1) sample_extract_parts(1) nonempty(1) p
      sample_decode(3) sample_extract(3) nonempty(2) p sample_decode(4) sample_extract(4) p,
      of "initial True" parts_content ?b "[]"]
  from t have f: "finalText (snd (processLine sample_env parts_line (initial True)))
       = ''A'' @ [CHR 0x0A] @ ''C''"
    "finalText (snd (processLine sample_env text_line_B
        (snd (processLine sample_env parts_line (initial True))))) = ''B''"
    "finalText (snd (processLine sample_env blank_line
        (snd (processLine sample_env text_line_B
          (snd (processLine sample_env parts_line (initial True))))))) = ''B''"
    by simp_all
  from t sample_fields_parts(2) ty(1)
  have j: "joined_text parts_content = ''A'' @ [CHR 0x0A] @ ''C''" by simp
  from t sample_fields(3) bc ty(2) have e: "joined_text [] = []" by simp
  from t cb ty(3) have jb: "joined_text ?b = ''B''" by simp
  from sample_decode_parts(1) sample_fields_parts(2) ty(1) j sample_extract_parts(1) f cb jb
    sample_fields(3) bc e
  show ?thesis by blast
qed

section \<open>Lines that are not events (C8)\<close>

text \<open>
  Claim C8. A line that \<^verbatim>\<open>JSON.parse\<close> rejects, or whose value has no \<^verbatim>\<open>type\<close> equal
  to \<^verbatim>\<open>message_end\<close>, decodes to no event; \<^verbatim>\<open>processLine\<close> returns without an
  exception and with the state as it was, the progress calls included, and the loop
  over the lines goes on with the next line.
\<close>

theorem undecodable_line_ignored:
  assumes "JSON_parse env (trim line) = None
     \<or> (\<exists>event. JSON_parse env (trim line) = Some event
           \<and> get_prop event ''type'' \<noteq> Some (JStr ''message_end''))"
  shows "decode env line = None \<and> processLine env line s = (None, s)
     \<and> process_lines env (line # lines) s = process_lines env lines s"
proof -
  from assms have "decode env line = None"
    by (auto simp: decode_def Let_def)
  then show ?thesis by (simp add: processLine_def)
qed

theorem undecodable_line_ignored_witness:
  "JSON_parse sample_env (trim ''not json'') = None
   \<and> processLine sample_env ''not json'' (initial True) = (None, initial True)
   \<and> get_prop (JObj [(''type'', JStr ''turn_start'')]) ''type'' \<noteq> Some (JStr ''message_end'')
   \<and> processLine sample_env turn_line (initial True) = (None, initial True)"
proof -
  have a: "JSON_parse sample_env (trim ''not json'') = None"
    by (simp add: sample_env_def sample_parse_def trim_def is_space_def tool_line_def
          text_line_A_def text_line_B_def blank_line_def user_line_def turn_line_def
          parts_line_def clash_line_def bare_line_def)
  have b: "JSON_parse sample_env (trim turn_line) = Some (JObj [(''type'', JStr ''turn_start'')])"
    by (simp add: sample_env_def trim_sample_lines sample_parse_simps)
  from undecodable_line_ignored [of sample_env "''not json''" "initial True" "[]"] a
    undecodable_line_ignored [of sample_env turn_line "initial True" "[]"] b
  show ?thesis by simp
qed

section \<open>The prompt file (C9)\<close>

text \<open>
  Claim C9. The prompt is not blank, and the system makes the temporary directory and
  lets the file be written. Then \<^verbatim>\<open>createPromptFile\<close> creates the file
  \<^verbatim>\<open>system-prompt.md\<close> in that directory, before \<^verbatim>\<open>spawn\<close> is called, and its path
  is among the arguments of \<^verbatim>\<open>spawn\<close>. When \<^verbatim>\<open>runSubagent\<close> comes to its end, by
  returning a result or by throwing, the file system it leaves is the one the
  \<^verbatim>\<open>finally\<close> block makes: the file is gone if the system lets it be unlinked, and so
  is the directory if it may be removed and holds nothing else. Whether the two removals
  succeed or fail, the outcome is the same.
\<close>

theorem prompt_file_removed:
  assumes "trim (systemPrompt options) \<noteq> []"
    and "mkdtempSync env = Inr dir" and "write_ok env"
    and "pf = \<lparr> pf_dir = dir, pf_file = path_join dir ''system-prompt.md'' \<rparr>"
    and "runSubagent env options fs events = (out, fs')"
    and "exited out"
  shows "createPromptFile env fs (systemPrompt options)
       = (insert (pf_file pf) (insert (pf_dir pf) fs), Inr (Some pf))
     \<and> out = run_process env (build_args options (Some pf)) (cwd options)
               (signal_option options) events
     \<and> build_args options (Some pf) =
         [''--mode'', ''json'', ''-p'', ''--no-session'']
         @ (case model_option options of Some m \<Rightarrow> if m \<noteq> [] then [''--model'', m] else [] | None \<Rightarrow> [])
         @ (case tools options of Some ts \<Rightarrow> if 0 < length ts then [''--tools'', join '','' ts] else [] | None \<Rightarrow> [])
         @ [''--append-system-prompt'', pf_file pf, task options]
     \<and> fs' = cleanup env (Some pf) (insert (pf_file pf) (insert (pf_dir pf) fs))
     \<and> (unlink_ok env \<longrightarrow> pf_file pf \<notin> fs')
     \<and> (unlink_ok env \<and> rmdir_ok env \<and> (\<forall>p \<in> fs. \<not> inside (pf_dir pf) p) \<longrightarrow> pf_dir pf \<notin> fs')
     \<and> fst (runSubagent (env\<lparr>unlink_ok := u, rmdir_ok := d\<rparr>) options fs events) = out"
proof -
  let ?fs1 = "insert (pf_file pf) (insert (pf_dir pf) fs)"
  have cr: "createPromptFile env fs (systemPrompt options) = (?fs1, Inr (Some pf))"
    using assms(1-4) by (simp add: createPromptFile_def Let_def)
  note c = createPromptFile_Some [OF cr]
  have 1: "pf_file pf \<in> ?fs1" by simp
  have 2: "build_args options (Some pf) =
         [''--mode'', ''json'', ''-p'', ''--no-session'']
         @ (case model_option options of Some m \<Rightarrow> if m \<noteq> [] then [''--model'', m] else [] | None \<Rightarrow> [])
         @ (case tools options of Some ts \<Rightarrow> if 0 < length ts then [''--tools'', join '','' ts] else [] | None \<Rightarrow> [])
         @ [''--append-system-prompt'', pf_file pf, task options]"
    by (simp add: build_args_def)
  have o: "fst (runSubagent env options fs events)
        = run_process env (build_args options (Some pf)) (cwd options) (signal_option options) events"
    by (simp add: runSubagent_outcome cr)
  with assms(5) have 0: "out = run_process env (build_args options (Some pf)) (cwd options)
      (signal_option options) events" by simp
  have 3: "fs' = cleanup env (Some pf) ?fs1"
  proof (cases "run_process env (build_args options (Some pf)) (cwd options)
                  (signal_option options) events")
    case (Resolved r)
    with cr assms(5) show ?thesis by (simp add: runSubagent_def)
  next
    case (Rejected e)
    with cr assms(5) show ?thesis by (simp add: runSubagent_def)
  next
    case (Uncaught e)
    with 0 assms(6) show ?thesis by simp
  next
    case Pending
    with 0 assms(6) show ?thesis by simp
  qed
  have 4: "pf_file pf \<notin> fs'" if "unlink_ok env"
    using that 1 unfolding 3
    by (auto simp: cleanup_def unlinkSync_def rmdirSync_def Let_def split: if_splits)
  have 5: "pf_dir pf \<notin> fs'"
    if "unlink_ok env" "rmdir_ok env" "\<forall>p \<in> fs. \<not> inside (pf_dir pf) p"
  proof -
    from that(1) 1 have u: "unlinkSync env ?fs1 (pf_file pf) = Inr (?fs1 - {pf_file pf})"
      by (simp add: unlinkSync_def)
    have "\<not> (\<exists>p \<in> ?fs1 - {pf_file pf}. inside (pf_dir pf) p)"
      using that(3) not_inside_self by auto
    moreover have "pf_dir pf \<in> ?fs1 - {pf_file pf}"
      using c by (simp add: path_join_def)
    ultimately have "rmdirSync env (?fs1 - {pf_file pf}) (pf_dir pf)
        = Inr (?fs1 - {pf_file pf} - {pf_dir pf})"
      using that(2) by (simp add: rmdirSync_def)
    then show ?thesis unfolding 3
      by (simp add: cleanup_def u)
  qed
  have 6: "fst (runSubagent (env\<lparr>unlink_ok := u, rmdir_ok := d\<rparr>) options fs events) = out"
  proof -
    have "fst (runSubagent (env\<lparr>unlink_ok := u, rmdir_ok := d\<rparr>) options fs events)
        = run_process env (build_args options (Some pf)) (cwd options) (signal_option options) events"
      by (simp add: runSubagent_outcome createPromptFile_cleanup_flags run_process_cleanup_flags cr)
    with 0 show ?thesis by simp
  qed
  from cr 0 2 3 4 5 6 show ?thesis by blast
qed

theorem prompt_file_removed_witness:
  "trim (systemPrompt sample_options) \<noteq> []
   \<and> mkdtempSync sample_env = Inr ''/tmp/pi-subagent-a1b2c3'' \<and> write_ok sample_env
   \<and> createPromptFile sample_env {} (systemPrompt sample_options) =
     ({''/tmp/pi-subagent-a1b2c3/system-prompt.md'', ''/tmp/pi-subagent-a1b2c3''},
      Inr (Some sample_prompt_file))
   \<and> runSubagent sample_env sample_options {}
        [StdoutData (text_line_A @ [CHR 0x0A]), ProcClose (Some 0)]
      = (Resolved \<lparr> res_exitCode = 0, res_stderr = [], res_messages = [text_message_A],
                     res_finalText = ''A'', res_toolCalls = [], res_stopReason = None,
                     res_errorMessage = None, res_model = None \<rparr>, {})
   \<and> runSubagent sample_env sample_options {}
        [StdoutData (text_line_A @ [CHR 0x0A]), Abort, ProcClose None]
      = (Rejected (Error ''Subagent aborted''), {})
   \<and> fst (runSubagent (sample_env\<lparr>unlink_ok := False, rmdir_ok := False\<rparr>) sample_options {}
        [StdoutData (text_line_A @ [CHR 0x0A]), Abort, ProcClose None])
      = Rejected (Error ''Subagent aborted'')
   \<and> runSubagent throwing_env sample_options {} [] = (Rejected TypeError, {})"
proof -
  let ?done = "[StdoutData (text_line_A @ [CHR 0x0A]), ProcClose (Some 0)]"
  let ?abort = "[StdoutData (text_line_A @ [CHR 0x0A]), Abort, ProcClose None]"
  have o1: "fst (runSubagent sample_env sample_options {} ?done) =
      Resolved \<lparr> res_exitCode = 0, res_stderr = [], res_messages = [text_message_A],
                     res_finalText = ''A'', res_toolCalls = [], res_stopReason = None,
                     res_errorMessage = None, res_model = None \<rparr>"
    by (simp add: runSubagent_outcome sample_created sample_options_fields sample_run_done)
  have o2: "fst (runSubagent sample_env sample_options {} ?abort) = Rejected (Error ''Subagent aborted'')"
    by (simp add: runSubagent_outcome sample_created sample_options_fields sample_run_abort)
  have p1: "runSubagent sample_env sample_options {} ?done
      = (fst (runSubagent sample_env sample_options {} ?done),
         snd (runSubagent sample_env sample_options {} ?done))" by simp
  have p2: "runSubagent sample_env sample_options {} ?abort
      = (fst (runSubagent sample_env sample_options {} ?abort),
         snd (runSubagent sample_env sample_options {} ?abort))" by simp
  have e1: "exited (fst (runSubagent sample_env sample_options {} ?done))" by (simp add: o1)
  have e2: "exited (fst (runSubagent sample_env sample_options {} ?abort))" by (simp add: o2)
  have h: "trim (systemPrompt sample_options) \<noteq> []"
    "mkdtempSync sample_env = Inr ''/tmp/pi-subagent-a1b2c3''" "write_ok sample_env"
    "sample_prompt_file = \<lparr> pf_dir = ''/tmp/pi-subagent-a1b2c3'',
        pf_file = path_join ''/tmp/pi-subagent-a1b2c3'' ''system-prompt.md'' \<rparr>"
    by (simp_all add: sample_options_def sample_env_def trim_def is_space_def
          sample_prompt_file_def path_join_def)
  have ht: "mkdtempSync throwing_env = Inr ''/tmp/pi-subagent-a1b2c3''" "write_ok throwing_env"
    by (simp_all add: throwing_env_def sample_env_def)
  have pfs: "pf_file sample_prompt_file = ''/tmp/pi-subagent-a1b2c3/system-prompt.md''"
    "pf_dir sample_prompt_file = ''/tmp/pi-subagent-a1b2c3''"
    by (simp_all add: sample_prompt_file_def)
  note t1 = prompt_file_removed [OF h p1 e1, of False False]
  note t2 = prompt_file_removed [OF h p2 e2, of False False]
  from t1 have f1: "snd (runSubagent sample_env sample_options {} ?done) = {}"
    by (simp add: sample_cleanup)
  from t2 have f2: "snd (runSubagent sample_env sample_options {} ?abort) = {}"
    by (simp add: sample_cleanup)
  from t2 o2 have f3: "fst (runSubagent (sample_env\<lparr>unlink_ok := False, rmdir_ok := False\<rparr>)
      sample_options {} ?abort) = Rejected (Error ''Subagent aborted'')" by simp
  have o3: "fst (runSubagent throwing_env sample_options {} []) = Rejected TypeError"
    by (simp add: runSubagent_outcome sample_throwing)
  have p3: "runSubagent throwing_env sample_options {} []
      = (fst (runSubagent throwing_env sample_options {} []),
         snd (runSubagent throwing_env sample_options {} []))" by simp
  have e3: "exited (fst (runSubagent throwing_env sample_options {} []))" by (simp add: o3)
  from prompt_file_removed [OF h(1) ht h(4) p3 e3, of False False]
  have f4: "snd (runSubagent throwing_env sample_options {} []) = {}"
    by (simp add: sample_throwing)
  from t1 have cr: "createPromptFile sample_env {} (systemPrompt sample_options) =
     ({''/tmp/pi-subagent-a1b2c3/system-prompt.md'', ''/tmp/pi-subagent-a1b2c3''},
      Inr (Some sample_prompt_file))"
    by (simp add: pfs)
  from h(1-3) cr o1 o2 f1 f2 f3 o3 f4 show ?thesis by (simp add: prod_eq_iff)
qed

section \<open>Every message is kept (C10)\<close>

text \<open>
  Claim C10. The message of a decoded event is appended to \<^verbatim>\<open>messages\<close> whatever its
  role. When the role is not \<^verbatim>\<open>assistant\<close> nothing else changes: no other field of the
  state, and no progress call. A run in which the child writes such a line (a chunk
  that decodes to the line and its line feed) and closes returns a result whose
  \<^verbatim>\<open>messages\<close> hold that message.
\<close>

theorem message_kept:
  assumes "decode env line = Some m"
  shows "messages (snd (processLine env line s)) = messages s @ [m]
     \<and> (get_prop m ''role'' \<noteq> Some (JStr ''assistant'') \<longrightarrow>
          processLine env line s = (None, s\<lparr>messages := messages s @ [m]\<rparr>))
     \<and> (get_prop m ''role'' \<noteq> Some (JStr ''assistant'') \<and> CHR 0x0A \<notin> set line
          \<and> toString env data = line @ [CHR 0x0A] \<longrightarrow>
          fst (event_loop env (start spawned None) [StdoutData data, ProcClose code])
            = Resolved \<lparr> res_exitCode = (case code of Some c \<Rightarrow> c | None \<Rightarrow> 0),
                         res_stderr = [], res_messages = [m], res_finalText = [],
                         res_toolCalls = [], res_stopReason = None, res_errorMessage = None,
                         res_model = None \<rparr>)"
proof -
  obtain e s' where a: "apply_message env m s = (e, s')" by (cases "apply_message env m s") auto
  from apply_message_frame [OF a] a assms
  have "messages (snd (processLine env line s)) = messages s @ [m]"
    by (simp add: processLine_def)
  moreover from assms have "get_prop m ''role'' \<noteq> Some (JStr ''assistant'') \<longrightarrow>
      processLine env line s = (None, s\<lparr>messages := messages s @ [m]\<rparr>)"
    by (simp add: processLine_def apply_message_other_role)
  ultimately show ?thesis using other_role_run [OF assms, of data spawned code] by simp
qed

theorem message_kept_witness:
  "decode sample_env user_line = Some user_message
   \<and> get_prop user_message ''role'' \<noteq> Some (JStr ''assistant'')
   \<and> processLine sample_env user_line (initial True)
       = (None, (initial True)\<lparr>messages := [user_message]\<rparr>)
   \<and> fst (event_loop sample_env (start True None)
             [StdoutData (user_line @ [CHR 0x0A]), ProcClose (Some 0)])
       = Resolved \<lparr> res_exitCode = 0, res_stderr = [], res_messages = [user_message],
                    res_finalText = [], res_toolCalls = [], res_stopReason = None,
                    res_errorMessage = None, res_model = None \<rparr>"
proof -
  have r: "get_prop user_message ''role'' \<noteq> Some (JStr ''assistant'')"
    by (simp add: user_message_def)
  from message_kept [OF sample_decode(5), of "initial True" "user_line @ [CHR 0x0A]" True "Some 0"]
    r sample_decode(5) sample_lines_no_LF(5)
  show ?thesis
    by (simp add: initial_def sample_toString sample_lines_ascii del: event_loop.simps)
qed

end
